(* ===== verification/Prelude.thy ===== *)
theory Prelude
  imports Main "HOL-Library.Word" "HOL-Library.Multiset"
begin

text \<open>
  Shared vocabulary of the development: the result of polling a future, the outcome of
  code that may panic, \<open>std::io\<close> errors and the \<open>?\<close> operator on state-passing
  operations, \<open>u64\<close> arithmetic as the standard library offers it, and the list facts
  on \<open>Vec\<close> operations that the components share.
\<close>

named_theorems io_defs \<open>definitions of the state-passing io combinators\<close>

section \<open>Polling and panics\<close>

text \<open>\<open>std::task::Poll\<close>.\<close>

datatype 'a poll = Ready 'a | Pending

fun is_ready :: "'a poll \<Rightarrow> bool" where
  "is_ready (Ready x) = True"
| "is_ready Pending = False"

text \<open>A call either returns or unwinds.\<close>

datatype 'a outcome = Returned 'a | Unwound

section \<open>Io errors\<close>

text \<open>The members of \<open>std::io::ErrorKind\<close> that the crate produces or inspects.\<close>

datatype io_error_kind =
  NotFound | PermissionDenied | InvalidInput | InvalidData | UnexpectedEof | WriteZero
| Interrupted | AlreadyExists | IsADirectory | NotADirectory | DirectoryNotEmpty
| ResourceBusy | QuotaExceeded | WouldBlock | Unsupported | Other

datatype io_error = IoError (err_kind: io_error_kind) (err_text: string)

type_synonym 'a io_result = "io_error + 'a"

type_synonym ('s, 'a) io = "'s \<Rightarrow> 'a io_result \<times> 's"

definition ok_io :: "'a \<Rightarrow> ('s, 'a) io" where [io_defs]:
  "ok_io x s = (Inr x, s)"

definition fail_io :: "io_error \<Rightarrow> ('s, 'a) io" where [io_defs]:
  "fail_io e s = (Inl e, s)"

text \<open>\<open>let x = m.await?; k(x)\<close>.\<close>

definition try_io :: "('s, 'a) io \<Rightarrow> ('a \<Rightarrow> ('s, 'b) io) \<Rightarrow> ('s, 'b) io" where [io_defs]:
  "try_io m k s = (case m s of (Inl e, s') \<Rightarrow> (Inl e, s') | (Inr x, s') \<Rightarrow> k x s')"

text \<open>\<open>Result::map\<close> on the answer of an operation.\<close>

definition map_io :: "('a \<Rightarrow> 'b) \<Rightarrow> ('s, 'a) io \<Rightarrow> ('s, 'b) io" where
  "map_io g m = try_io m (\<lambda>x. ok_io (g x))"

lemma try_ok [simp]: "try_io (ok_io x) k = k x"
  by (rule ext) (simp add: io_defs)

lemma try_fail [simp]: "try_io (fail_io e) k = fail_io e"
  by (rule ext) (simp add: io_defs)

lemma try_io_Inr_iff:
  "try_io m k s = (Inr y, t) \<longleftrightarrow> (\<exists>x u. m s = (Inr x, u) \<and> k x u = (Inr y, t))"
  by (auto simp: try_io_def split: prod.splits sum.splits)

lemma try_io_Inl_iff:
  "try_io m k s = (Inl e, t) \<longleftrightarrow>
     m s = (Inl e, t) \<or> (\<exists>x u. m s = (Inr x, u) \<and> k x u = (Inl e, t))"
  by (auto simp: try_io_def split: prod.splits sum.splits)

lemmas try_io_iffs = try_io_Inr_iff try_io_Inl_iff

section \<open>Bytes and 64-bit numbers\<close>

type_synonym byte = "8 word"
type_synonym u64 = "64 word"

text \<open>\<open>u64::checked_add\<close>.\<close>

definition checked_add_u64 :: "u64 \<Rightarrow> u64 \<Rightarrow> u64 option" where
  "checked_add_u64 a b = (if unat a + unat b < 2 ^ 64 then Some (a + b) else None)"

lemma checked_add_u64_Some:
  "checked_add_u64 a b = Some c \<longleftrightarrow> c = a + b \<and> unat a + unat b < 2 ^ 64"
  by (auto simp: checked_add_u64_def)

lemma unat_add_no_wrap: "unat (a :: u64) + unat b < 2 ^ 64 \<Longrightarrow> unat (a + b) = unat a + unat b"
  by (simp add: unat_word_ariths)

lemma unat_of_nat_u64: "n < 2 ^ 64 \<Longrightarrow> unat (of_nat n :: u64) = n"
  by (simp add: unat_of_nat)

section \<open>\<open>Vec\<close> operations\<close>

text \<open>
  \<open>Vec::swap_remove\<close>: the element at the index is replaced by the last one; an index out of
  range panics, which is \<open>None\<close>.
\<close>

definition swap_remove :: "'a list \<Rightarrow> nat \<Rightarrow> ('a \<times> 'a list) option" where
  "swap_remove xs i =
     (if i < length xs then Some (xs ! i, butlast (xs[i := last xs])) else None)"

lemma swap_remove_length:
  "swap_remove xs i = Some (x, ys) \<Longrightarrow> Suc (length ys) = length xs"
  by (auto simp: swap_remove_def split: if_splits)

lemma swap_remove_parts:
  assumes "i < length xs"
  shows "swap_remove xs i =
    Some (xs ! i, take i xs @
      (if Suc i < length xs then last xs # butlast (drop (Suc i) xs) else []))"
proof -
  have "butlast (xs[i := last xs]) =
      take i xs @ (if Suc i < length xs then last xs # butlast (drop (Suc i) xs) else [])"
  proof (cases "Suc i < length xs")
    case True
    then have "drop (Suc i) xs \<noteq> []" by simp
    with assms True show ?thesis
      by (simp add: upd_conv_take_nth_drop butlast_append)
  next
    case False
    with assms have "Suc i = length xs" by simp
    with assms show ?thesis
      by (simp add: upd_conv_take_nth_drop butlast_append)
  qed
  with assms show ?thesis by (simp add: swap_remove_def)
qed

text \<open>
  After a \<open>swap_remove\<close> at the index of a left-to-right sweep, the elements already swept
  are unchanged and the ones still to sweep are the old ones less the removed one.
\<close>

lemma swap_remove_take:
  "swap_remove xs i = Some (x, ys) \<Longrightarrow> take i ys = take i xs"
  by (auto simp: swap_remove_def take_butlast split: if_splits)

lemma swap_remove_mset_drop:
  assumes "swap_remove xs i = Some (x, ys)"
  shows "add_mset x (mset (drop i ys)) = mset (drop i xs)"
proof -
  from assms have i: "i < length xs" by (auto simp: swap_remove_def split: if_splits)
  have d: "drop i xs = xs ! i # drop (Suc i) xs" by (rule Cons_nth_drop_Suc [OF i, symmetric])
  have r: "Suc i < length xs \<Longrightarrow>
      mset (last xs # butlast (drop (Suc i) xs)) = mset (drop (Suc i) xs)"
    using append_butlast_last_id [of "drop (Suc i) xs"]
    by (metis add.commute drop_eq_Nil last_drop mset.simps(2) mset_append
        union_mset_add_mset_right add_0 mset.simps(1) leD)
  have len: "length (take i xs) = i" using i by simp
  from assms swap_remove_parts [OF i]
  have x: "x = xs ! i" and
    ys: "ys = take i xs @ (if Suc i < length xs then last xs # butlast (drop (Suc i) xs) else [])"
    by auto
  have "drop i ys = (if Suc i < length xs then last xs # butlast (drop (Suc i) xs) else [])"
    unfolding ys using len by simp
  with x d r show ?thesis by (cases "Suc i < length xs") auto
qed

lemma swap_remove_mset:
  assumes "swap_remove xs i = Some (x, ys)"
  shows "mset xs = add_mset x (mset ys)"
proof -
  have "mset xs = mset (take i xs) + mset (drop i xs)"
    by (metis append_take_drop_id mset_append)
  also have "\<dots> = add_mset x (mset (take i ys) + mset (drop i ys))"
    using swap_remove_take [OF assms] swap_remove_mset_drop [OF assms, symmetric] by simp
  also have "mset (take i ys) + mset (drop i ys) = mset ys"
    by (metis append_take_drop_id mset_append)
  finally show ?thesis .
qed

text \<open>\<open>buffer[..n].copy_from_slice(src)\<close> where \<open>src\<close> has \<open>n\<close> elements.\<close>

definition copy_prefix :: "'a list \<Rightarrow> 'a list \<Rightarrow> 'a list" where
  "copy_prefix src buf = src @ drop (length src) buf"

lemma copy_prefix_length [simp]:
  "length src \<le> length buf \<Longrightarrow> length (copy_prefix src buf) = length buf"
  by (simp add: copy_prefix_def)

lemma take_copy_prefix [simp]: "take (length src) (copy_prefix src buf) = src"
  by (simp add: copy_prefix_def)

lemma take_copy_prefix_n: "n = length src \<Longrightarrow> take n (copy_prefix src buf) = src"
  by simp

section \<open>File contents\<close>

text \<open>
  What a file holds after bytes are written at an offset: a gap before the offset reads as zeros,
  and nothing changes when there is nothing to write.
\<close>

definition put_at :: "nat \<Rightarrow> byte list \<Rightarrow> byte list \<Rightarrow> byte list" where
  "put_at p b c = (if b = [] then c
     else take p (c @ replicate (p - length c) 0) @ b @ drop (p + length b) c)"

lemma put_at_nil [simp]: "put_at p [] c = c"
  by (simp add: put_at_def)

lemma put_at_append: "put_at p (a @ b) c = put_at (p + length a) b (put_at p a c)"
  by (auto simp: put_at_def min_def not_le ac_simps)

lemma put_at_length: "length (put_at p b c) = (if b = [] then length c else max (length c) (p + length b))"
  by (auto simp: put_at_def)

lemma put_at_read: "b \<noteq> [] \<Longrightarrow> take (length b) (drop p (put_at p b c)) = b"
  by (simp add: put_at_def)

lemma put_at_drop: "b \<noteq> [] \<Longrightarrow> drop p (put_at p b c) = b @ drop (p + length b) c"
  by (simp add: put_at_def)

lemma take_drop_split: "n \<le> length (drop p c) \<Longrightarrow> drop p c = take n (drop p c) @ drop (p + n) c"
  by (metis append_take_drop_id drop_drop add.commute)

end
