(* ===== verification/Lite.thy ===== *)
theory Lite
  imports Prelude
begin

text \<open>
  The lightweight executor, \<open>src/src/rt/lite.rs\<close>: a shared queue of boxed tasks, one driving
  thread at a time, and the loop of \<open>block_on\<close> that polls the main future and every task, and
  parks the thread when nothing moved. A boxed task is a value \<open>'t\<close> with a poll function; what a
  poll does to the rest of the program is a change of the world \<open>'u\<close>, the tasks it spawns on this
  executor and whether it woke the context's waker. \<open>AtomicWaker\<close> belongs to another crate:
  it is a record of operations with its documented law. Thread parking is the standard library's:
  a token per thread. The second half models the driver against concurrent spawners, atomic
  action by atomic action.
\<close>

section \<open>State\<close>

text \<open>\<open>futures::task::AtomicWaker\<close>: \<open>register\<close> stores the waker of a thread, \<open>wake\<close> hands it out.\<close>

record 'aw waker_ops =
  aw_register :: "nat \<Rightarrow> 'aw \<Rightarrow> 'aw"
  aw_wake :: "'aw \<Rightarrow> nat option \<times> 'aw"

definition waker_laws :: "'aw waker_ops \<Rightarrow> bool" where
  "waker_laws ops \<longleftrightarrow> (\<forall>t a. fst (aw_wake ops (aw_register ops t a)) = Some t)"

text \<open>
  \<open>LiteRuntimeExecutor\<close>, with the set of threads whose park token is present.
\<close>

record ('t, 'aw) lite =
  queued_tasks :: "'t list"
  lite_waker :: 'aw
  driving :: bool
  permits :: "nat set"

definition lite_new :: "'aw \<Rightarrow> ('t, 'aw) lite" where
  "lite_new a = \<lparr>queued_tasks = [], lite_waker = a, driving = False, permits = {}\<rparr>"

text \<open>
  What one poll of a future gives back: its result, the future's next state, the world after
  it, the tasks it spawned on this executor, and whether it woke its own context.
\<close>

datatype ('r, 'f, 't, 'u) polled = Polled 'r 'f 'u "'t list" bool

section \<open>Operations\<close>

text \<open>\<open>LocalWaker::wake\<close>: \<open>Thread::unpark\<close> makes the token of the thread available.\<close>

definition unpark :: "nat \<Rightarrow> ('t, 'aw) lite \<Rightarrow> ('t, 'aw) lite" where
  "unpark t st = st\<lparr>permits := insert t (permits st)\<rparr>"

definition lite_wake :: "'aw waker_ops \<Rightarrow> ('t, 'aw) lite \<Rightarrow> ('t, 'aw) lite" where
  "lite_wake ops st =
     (case aw_wake ops (lite_waker st) of
        (None, a) \<Rightarrow> st\<lparr>lite_waker := a\<rparr>
      | (Some t, a) \<Rightarrow> unpark t (st\<lparr>lite_waker := a\<rparr>))"

definition lite_register :: "'aw waker_ops \<Rightarrow> nat \<Rightarrow> ('t, 'aw) lite \<Rightarrow> ('t, 'aw) lite" where
  "lite_register ops me st = st\<lparr>lite_waker := aw_register ops me (lite_waker st)\<rparr>"

definition lite_push :: "'t \<Rightarrow> ('t, 'aw) lite \<Rightarrow> ('t, 'aw) lite" where
  "lite_push t st = st\<lparr>queued_tasks := queued_tasks st @ [t]\<rparr>"

text \<open>\<open>spawn\<close> queues the wrapped task and then wakes the driver.\<close>

definition lite_spawn :: "'aw waker_ops \<Rightarrow> 't \<Rightarrow> ('t, 'aw) lite \<Rightarrow> ('t, 'aw) lite" where
  "lite_spawn ops t st = lite_wake ops (lite_push t st)"

definition take_queued_tasks ::
  "('t, 'aw) lite \<Rightarrow> 't list \<Rightarrow> bool \<times> 't list \<times> ('t, 'aw) lite" where
  "take_queued_tasks st tasks =
     (if queued_tasks st = [] then (False, tasks, st)
      else (True, tasks @ queued_tasks st, st\<lparr>queued_tasks := []\<rparr>))"

text \<open>The effect of one poll on the executor: its spawns in order, then the wake of its context.\<close>

definition poll_effects ::
  "'aw waker_ops \<Rightarrow> nat \<Rightarrow> 't list \<Rightarrow> bool \<Rightarrow> ('t, 'aw) lite \<Rightarrow> ('t, 'aw) lite" where
  "poll_effects ops me sp woke st =
     (let st' = fold (lite_spawn ops) sp st in if woke then unpark me st' else st')"

text \<open>
  The inner loop of \<open>block_on\<close>: every active task is polled by index, a finished one is
  taken out with \<open>swap_remove\<close> and the index stays.
\<close>

function poll_tasks ::
  "('t \<Rightarrow> 'u \<Rightarrow> (bool, 't, 't, 'u) polled) \<Rightarrow> 'aw waker_ops \<Rightarrow> nat \<Rightarrow> nat \<Rightarrow>
   't list \<Rightarrow> 'u \<Rightarrow> ('t, 'aw) lite \<Rightarrow> bool \<Rightarrow> 't list \<times> 'u \<times> ('t, 'aw) lite \<times> bool" where
  "poll_tasks poll ops me index tasks u st made =
     (if index < length tasks then
        (case poll (tasks ! index) u of
           Polled done t' u' sp woke \<Rightarrow>
             (if done then
                (case swap_remove (tasks[index := t']) index of
                   None \<Rightarrow> (tasks, u', poll_effects ops me sp woke st, made)
                 | Some (_, rest) \<Rightarrow>
                     poll_tasks poll ops me index rest u' (poll_effects ops me sp woke st) True)
              else
                poll_tasks poll ops me (Suc index) (tasks[index := t']) u'
                  (poll_effects ops me sp woke st) made))
      else (tasks, u, st, made))"
  by pat_completeness auto
termination
  by (relation "measure (\<lambda>(poll, ops, me, index, tasks, u, st, made). length tasks - index)")
     (auto dest!: swap_remove_length)

declare poll_tasks.simps [simp del]

text \<open>One turn of the outer loop, up to the point where the thread would park.\<close>

datatype 'a turn = Output 'a | Panicking | Again | WouldPark

type_synonym ('f, 't, 'u, 'aw) drive = "'f \<times> 't list \<times> 'u \<times> ('t, 'aw) lite"

definition block_on_turn ::
  "('t \<Rightarrow> 'u \<Rightarrow> (bool, 't, 't, 'u) polled) \<Rightarrow>
   ('f \<Rightarrow> 'u \<Rightarrow> ('a poll outcome, 'f, 't, 'u) polled) \<Rightarrow> 'aw waker_ops \<Rightarrow> nat \<Rightarrow>
   ('f, 't, 'u, 'aw) drive \<Rightarrow> 'a turn \<times> ('f, 't, 'u, 'aw) drive" where
  "block_on_turn poll main ops me c =
     (case c of (fut, active, u, st) \<Rightarrow>
      case take_queued_tasks (lite_register ops me st) active of (_, active1, st1) \<Rightarrow>
      case main fut u of Polled r fut' u1 sp woke \<Rightarrow>
      let st2 = poll_effects ops me sp woke st1 in
      case r of
        Unwound \<Rightarrow> (Panicking, (fut', active1, u1, st2))
      | Returned (Ready out) \<Rightarrow> (Output out, (fut', active1, u1, st2))
      | Returned Pending \<Rightarrow>
          (case poll_tasks poll ops me 0 active1 u1 st2 False of (active2, u2, st3, made) \<Rightarrow>
           case take_queued_tasks st3 active2 of (took, active3, st4) \<Rightarrow>
           if took \<or> made then (Again, (fut', active3, u2, st4))
           else
             (case take_queued_tasks (lite_register ops me st4) active3 of
                (took', active4, st5) \<Rightarrow>
                  ((if took' then Again else WouldPark), (fut', active4, u2, st5)))))"

text \<open>
  \<open>thread::park\<close> returns at once when the token is there, and takes it; otherwise the other
  threads run until it returns.
\<close>

definition park ::
  "('u \<Rightarrow> ('t, 'aw) lite \<Rightarrow> 'u \<times> ('t, 'aw) lite) \<Rightarrow> nat \<Rightarrow>
   ('f, 't, 'u, 'aw) drive \<Rightarrow> ('f, 't, 'u, 'aw) drive" where
  "park others me c =
     (case c of (fut, active, u, st) \<Rightarrow>
      if me \<in> permits st then (fut, active, u, st\<lparr>permits := permits st - {me}\<rparr>)
      else (case others u st of (u', st') \<Rightarrow>
              (fut, active, u', st'\<lparr>permits := permits st' - {me}\<rparr>)))"

partial_function (option) block_on_loop ::
  "('t \<Rightarrow> 'u \<Rightarrow> (bool, 't, 't, 'u) polled) \<Rightarrow>
   ('f \<Rightarrow> 'u \<Rightarrow> ('a poll outcome, 'f, 't, 'u) polled) \<Rightarrow> 'aw waker_ops \<Rightarrow> nat \<Rightarrow>
   ('u \<Rightarrow> ('t, 'aw) lite \<Rightarrow> 'u \<times> ('t, 'aw) lite) \<Rightarrow>
   ('f, 't, 'u, 'aw) drive \<Rightarrow> ('a outcome \<times> ('f, 't, 'u, 'aw) drive) option" where
  "block_on_loop poll main ops me others c =
     (case block_on_turn poll main ops me c of (t, c') \<Rightarrow>
      case t of
        Output x \<Rightarrow> Some (Returned x, c')
      | Panicking \<Rightarrow> Some (Unwound, c')
      | Again \<Rightarrow> block_on_loop poll main ops me others c'
      | WouldPark \<Rightarrow> block_on_loop poll main ops me others (park others me c'))"

text \<open>
  \<open>block_on\<close>: the compare-exchange on the driving flag, then the loop. \<open>ActiveTasks\<close> and
  \<open>DriveGuard\<close> are dropped in that order on every way out: the tasks still active go back
  to the queue and then the flag is cleared.
\<close>

definition lite_block_on ::
  "('t \<Rightarrow> 'u \<Rightarrow> (bool, 't, 't, 'u) polled) \<Rightarrow>
   ('f \<Rightarrow> 'u \<Rightarrow> ('a poll outcome, 'f, 't, 'u) polled) \<Rightarrow> 'aw waker_ops \<Rightarrow> nat \<Rightarrow>
   ('u \<Rightarrow> ('t, 'aw) lite \<Rightarrow> 'u \<times> ('t, 'aw) lite) \<Rightarrow> 'f \<Rightarrow> 'u \<Rightarrow> ('t, 'aw) lite \<Rightarrow>
   ('a outcome \<times> 'u \<times> ('t, 'aw) lite) option" where
  "lite_block_on poll main ops me others fut u st =
     (if driving st then Some (Unwound, u, st)
      else
        (case block_on_loop poll main ops me others (fut, [], u, st\<lparr>driving := True\<rparr>) of
           None \<Rightarrow> None
         | Some (r, _, active, u', st') \<Rightarrow>
             Some (r, u', st'\<lparr>queued_tasks := queued_tasks st' @ active, driving := False\<rparr>)))"

section \<open>Effects on the queue\<close>

lemma queued_unpark [simp]: "queued_tasks (unpark t st) = queued_tasks st"
  by (simp add: unpark_def)

lemma queued_wake [simp]: "queued_tasks (lite_wake ops st) = queued_tasks st"
  by (simp add: lite_wake_def split: prod.split option.split)

lemma queued_register [simp]: "queued_tasks (lite_register ops me st) = queued_tasks st"
  by (simp add: lite_register_def)

lemma queued_push [simp]: "queued_tasks (lite_push t st) = queued_tasks st @ [t]"
  by (simp add: lite_push_def)

lemma queued_spawn [simp]: "queued_tasks (lite_spawn ops t st) = queued_tasks st @ [t]"
  by (simp add: lite_spawn_def)

lemma queued_fold_spawn [simp]:
  "queued_tasks (fold (lite_spawn ops) sp st) = queued_tasks st @ sp"
  by (induction sp arbitrary: st) simp_all

lemma queued_effects [simp]:
  "queued_tasks (poll_effects ops me sp woke st) = queued_tasks st @ sp"
  by (simp add: poll_effects_def Let_def)

lemma take_queued_parts:
  assumes "take_queued_tasks st tasks = (took, tasks', st')"
  shows "tasks' = tasks @ queued_tasks st" and "queued_tasks st' = []"
    and "took \<longleftrightarrow> queued_tasks st \<noteq> []"
  using assms by (auto simp: take_queued_tasks_def split: if_splits)

section \<open>Every active task is polled exactly once per turn\<close>

text \<open>A poll function that also records which task it was given.\<close>

fun log_poll ::
  "('t \<Rightarrow> 'u \<Rightarrow> (bool, 't, 't, 'u) polled) \<Rightarrow> 't \<Rightarrow> 'u \<times> 't list \<Rightarrow>
   (bool, 't, 't, 'u \<times> 't list) polled" where
  "log_poll poll t (u, log) =
     (case poll t u of Polled done t' u' sp woke \<Rightarrow> Polled done t' (u', log @ [t]) sp woke)"

lemma drop_list_update: "i < n \<Longrightarrow> drop n (xs[i := y]) = drop n xs"
  by (simp add: drop_update_cancel)

text \<open>The sweep as a loop rule: an invariant kept by both kinds of step holds at the end.\<close>

lemma poll_tasks_rule:
  assumes run: "poll_tasks poll ops me index tasks u st made = (tasks', u', st', made')"
    and init: "I index tasks u st made"
    and finish: "\<And>i ts w s m t' w' sp woke rest.
      I i ts w s m \<Longrightarrow> i < length ts \<Longrightarrow> poll (ts ! i) w = Polled True t' w' sp woke \<Longrightarrow>
      swap_remove (ts[i := t']) i = Some (t', rest) \<Longrightarrow>
      I i rest w' (poll_effects ops me sp woke s) True"
    and pend: "\<And>i ts w s m t' w' sp woke.
      I i ts w s m \<Longrightarrow> i < length ts \<Longrightarrow> poll (ts ! i) w = Polled False t' w' sp woke \<Longrightarrow>
      I (Suc i) (ts[i := t']) w' (poll_effects ops me sp woke s) m"
  shows "\<exists>i. length tasks' \<le> i \<and> I i tasks' u' st' made'"
  using run init
proof (induction "length tasks - index" arbitrary: index tasks u st made rule: less_induct)
  case less
  obtain d t' w' sp woke where p: "poll (tasks ! index) u = Polled d t' w' sp woke"
    by (cases "poll (tasks ! index) u")
  note unfold = poll_tasks.simps [of poll ops me index tasks u st made]
  consider (stop) "\<not> index < length tasks" | (fin) "index < length tasks" "d"
    | (pend) "index < length tasks" "\<not> d"
    by blast
  then show ?case
  proof cases
    case stop
    with less.prems unfold show ?thesis by (intro exI [of _ index]) auto
  next
    case fin
    then obtain rest where sr: "swap_remove (tasks[index := t']) index = Some (t', rest)"
      by (auto simp: swap_remove_def)
    from swap_remove_length [OF sr] fin have l: "length rest - index < length tasks - index"
      by simp
    from fin p less.prems have "I index rest w' (poll_effects ops me sp woke st) True"
      by (intro finish [OF _ _ _ sr]) auto
    with fin p sr less.prems less.hyps [OF l] unfold show ?thesis by simp
  next
    case pend
    then have l: "length (tasks[index := t']) - Suc index < length tasks - index" by simp
    from pend p less.prems
    have "I (Suc index) (tasks[index := t']) w' (poll_effects ops me sp woke st) made"
      by (intro assms(4)) auto
    with pend p less.prems less.hyps [OF l] unfold show ?thesis by simp
  qed
qed

lemma poll_tasks_log:
  assumes "poll_tasks (log_poll poll) ops me index tasks v st made = (rest, v', st', made')"
  shows "mset (snd v') = mset (snd v) + mset (drop index tasks)"
proof -
  define I where "I = (\<lambda>i ts (w :: 'b \<times> 'a list) (s :: ('a, 'c) lite) (m :: bool).
    mset (snd w) + mset (drop i ts) = mset (snd v) + mset (drop index tasks))"
  have "\<exists>i. length rest \<le> i \<and> I i rest v' st' made'"
  proof (rule poll_tasks_rule [OF assms])
    show "I index tasks v st made" by (simp add: I_def)
  next
    fix i ts w s m t' w' sp woke rest'
    assume I: "I i ts w s m" and i: "i < length ts"
      and p: "log_poll poll (ts ! i) w = Polled True t' w' sp woke"
      and sr: "swap_remove (ts[i := t']) i = Some (t', rest')"
    from swap_remove_mset_drop [OF sr] i
    have "mset (drop i rest') = mset (drop (Suc i) ts)"
      by (simp add: Cons_nth_drop_Suc [symmetric] drop_list_update)
    with I i p Cons_nth_drop_Suc [OF i, symmetric]
    show "I i rest' w' (poll_effects ops me sp woke s) True"
      by (cases w) (auto simp: I_def split: polled.splits)
  next
    fix i ts w s m t' w' sp woke
    assume "I i ts w s m" and i: "i < length ts"
      and "log_poll poll (ts ! i) w = Polled False t' w' sp woke"
    with Cons_nth_drop_Suc [OF i, symmetric]
    show "I (Suc i) (ts[i := t']) w' (poll_effects ops me sp woke s) m"
      by (cases w) (auto simp: I_def drop_list_update split: polled.splits)
  qed
  then show ?thesis by (auto simp: I_def)
qed

section \<open>No task is lost\<close>

text \<open>
  Poll functions that keep the books: the names of the tasks that finished and of the tasks that
  were spawned so far. A task keeps its name from poll to poll.
\<close>

fun audit_task ::
  "('t \<Rightarrow> 'n) \<Rightarrow> ('t \<Rightarrow> 'u \<Rightarrow> (bool, 't, 't, 'u) polled) \<Rightarrow> 't \<Rightarrow>
   'u \<times> 'n multiset \<times> 'n multiset \<Rightarrow> (bool, 't, 't, 'u \<times> 'n multiset \<times> 'n multiset) polled" where
  "audit_task name poll t (u, fin, sp) =
     (case poll t u of Polled d t' u' new woke \<Rightarrow>
        Polled d t' (u', (if d then add_mset (name t) fin else fin), sp + mset (map name new))
          new woke)"

fun audit_main ::
  "('t \<Rightarrow> 'n) \<Rightarrow> ('f \<Rightarrow> 'u \<Rightarrow> ('r, 'f, 't, 'u) polled) \<Rightarrow> 'f \<Rightarrow>
   'u \<times> 'n multiset \<times> 'n multiset \<Rightarrow> ('r, 'f, 't, 'u \<times> 'n multiset \<times> 'n multiset) polled" where
  "audit_main name main f (u, fin, sp) =
     (case main f u of Polled r f' u' new woke \<Rightarrow>
        Polled r f' (u', fin, sp + mset (map name new)) new woke)"

definition stable_names :: "('t \<Rightarrow> 'n) \<Rightarrow> ('t \<Rightarrow> 'u \<Rightarrow> (bool, 't, 't, 'u) polled) \<Rightarrow> bool" where
  "stable_names name poll \<longleftrightarrow>
     (\<forall>t u. case poll t u of Polled d t' u' new woke \<Rightarrow> name t' = name t)"

text \<open>Queued, active and finished tasks are the initial ones and the spawned ones.\<close>

definition balanced ::
  "('t \<Rightarrow> 'n) \<Rightarrow> 'n multiset \<Rightarrow> 't list \<Rightarrow> 'u \<times> 'n multiset \<times> 'n multiset \<Rightarrow>
   ('t, 'aw) lite \<Rightarrow> bool" where
  "balanced name K active v st \<longleftrightarrow>
     (case v of (u, fin, sp) \<Rightarrow> mset (map name (queued_tasks st @ active)) + fin = K + sp)"

text \<open>Other threads may spawn while the driver is parked; they do not take tasks out.\<close>

definition others_balanced ::
  "('t \<Rightarrow> 'n) \<Rightarrow> ('u \<times> 'n multiset \<times> 'n multiset \<Rightarrow> ('t, 'aw) lite \<Rightarrow>
   ('u \<times> 'n multiset \<times> 'n multiset) \<times> ('t, 'aw) lite) \<Rightarrow> bool" where
  "others_balanced name others \<longleftrightarrow>
     (\<forall>K active v st. balanced name K active v st \<longrightarrow>
        balanced name K active (fst (others v st)) (snd (others v st)))"

lemma balanced_register [simp]:
  "balanced name K a v (lite_register ops me st) = balanced name K a v st"
  by (simp add: balanced_def)

lemma balanced_permits [simp]:
  "balanced name K a v (st\<lparr>permits := P\<rparr>) = balanced name K a v st"
  by (simp add: balanced_def)

lemma balanced_driving [simp]:
  "balanced name K a v (st\<lparr>driving := b\<rparr>) = balanced name K a v st"
  by (simp add: balanced_def)

lemma balanced_take:
  assumes "take_queued_tasks st a = (took, a', st')" and "balanced name K a v st"
  shows "balanced name K a' v st'"
  using assms by (auto simp: balanced_def take_queued_tasks_def ac_simps split: if_splits)

lemma balanced_main:
  assumes "audit_main name main f v = Polled r f' v' sp woke" and "balanced name K a v st"
  shows "balanced name K a v' (poll_effects ops me sp woke st)"
  using assms by (cases v) (auto simp: balanced_def ac_simps split: polled.splits)

lemma balanced_sweep:
  fixes st :: "('t, 'aw) lite"
  assumes sweep: "poll_tasks (audit_task name poll) ops me i ts v st made = (ts', v', st', made')"
    and names: "stable_names name poll" and bal: "balanced name K ts v st"
  shows "balanced name K ts' v' st'"
proof -
  have "\<exists>j. length ts' \<le> j \<and> balanced name K ts' v' st'"
  proof (rule poll_tasks_rule [OF sweep, where I = "\<lambda>i ts v st m. balanced name K ts v st"])
    show "balanced name K ts v st" by (rule bal)
  next
    fix i ts w m t' w' sp woke rest and s :: "('t, 'aw) lite"
    assume b: "balanced name K ts w s" and i: "i < length ts"
      and p: "audit_task name poll (ts ! i) w = Polled True t' w' sp woke"
      and sr: "swap_remove (ts[i := t']) i = Some (t', rest)"
    from swap_remove_mset [OF sr] i have "mset rest = mset ts - {#ts ! i#}"
      by (simp add: mset_update)
    with i have "mset ts = add_mset (ts ! i) (mset rest)" by simp
    then have "mset (map name ts) = add_mset (name (ts ! i)) (mset (map name rest))" by simp
    with b p show "balanced name K rest w' (poll_effects ops me sp woke s)"
      by (cases w) (auto simp: balanced_def ac_simps split: polled.splits)
  next
    fix i ts w m t' w' sp woke and s :: "('t, 'aw) lite"
    assume b: "balanced name K ts w s" and i: "i < length ts"
      and p: "audit_task name poll (ts ! i) w = Polled False t' w' sp woke"
    from p obtain u1 where "poll (ts ! i) (fst w) = Polled False t' u1 sp woke"
      by (cases w) (auto split: polled.splits)
    with names [unfolded stable_names_def, rule_format, of "ts ! i" "fst w"]
    have "name t' = name (ts ! i)" by simp
    with i have "map name (ts[i := t']) = map name ts"
      by (simp add: map_update list_update_same_conv)
    with b p show "balanced name K (ts[i := t']) w' (poll_effects ops me sp woke s)"
      by (cases w) (auto simp: balanced_def ac_simps split: polled.splits)
  qed
  then show ?thesis by blast
qed

lemma balanced_turn:
  assumes turn: "block_on_turn (audit_task name poll) (audit_main name main) ops me (f, a, v, st) =
      (t, (f', a', v', st'))"
    and names: "stable_names name poll" and bal: "balanced name K a v st"
  shows "balanced name K a' v' st'"
proof -
  obtain k1 a1 s1 where t1: "take_queued_tasks (lite_register ops me st) a = (k1, a1, s1)"
    by (cases "take_queued_tasks (lite_register ops me st) a")
  obtain r f1 v1 sp woke where m: "audit_main name main f v = Polled r f1 v1 sp woke"
    by (cases "audit_main name main f v")
  define s2 where "s2 = poll_effects ops me sp woke s1"
  obtain a2 v2 s3 made where p: "poll_tasks (audit_task name poll) ops me 0 a1 v1 s2 False =
      (a2, v2, s3, made)"
    by (cases "poll_tasks (audit_task name poll) ops me 0 a1 v1 s2 False")
  obtain k4 a4 s4 where t4: "take_queued_tasks s3 a2 = (k4, a4, s4)"
    by (cases "take_queued_tasks s3 a2")
  obtain k5 a5 s5 where t5: "take_queued_tasks (lite_register ops me s4) a4 = (k5, a5, s5)"
    by (cases "take_queued_tasks (lite_register ops me s4) a4")
  from balanced_take [OF t1] bal have b2: "balanced name K a1 v1 s2"
    unfolding s2_def by (intro balanced_main [OF m]) simp
  from balanced_sweep [OF p names b2] have b3: "balanced name K a2 v2 s3" .
  from balanced_take [OF t4 b3] have b4: "balanced name K a4 v2 s4" .
  from balanced_take [OF t5] b4 have b5: "balanced name K a5 v2 s5" by simp
  from turn t1 m s2_def p t4 t5 b2 b4 b5 show ?thesis
    by (auto simp: block_on_turn_def Let_def split: outcome.splits poll.splits if_splits)
qed

lemma balanced_park:
  assumes "others_balanced name others" and "balanced name K a v st"
    and "park others me (f, a, v, st) = (f', a', v', st')"
  shows "balanced name K a' v' st'"
proof -
  have "balanced name K a (fst (others v st)) (snd (others v st))"
    using assms(1,2) unfolding others_balanced_def by blast
  with assms(2,3) show ?thesis
    by (cases "others v st") (auto simp: park_def split: if_splits)
qed

lemma balanced_loop:
  assumes names: "stable_names name poll" and other: "others_balanced name others"
    and run: "block_on_loop (audit_task name poll) (audit_main name main) ops me others c =
      Some (r, c')"
    and bal: "balanced name K (fst (snd c)) (fst (snd (snd c))) (snd (snd (snd c)))"
  shows "balanced name K (fst (snd c')) (fst (snd (snd c'))) (snd (snd (snd c')))"
proof -
  let ?ok = "\<lambda>c. balanced name K (fst (snd c)) (fst (snd (snd c))) (snd (snd (snd c)))"
  have gen: "p = audit_task name poll \<longrightarrow> m = audit_main name main \<longrightarrow> o' = others \<longrightarrow>
      ?ok c \<longrightarrow> ?ok (snd rc)"
    if "block_on_loop p m ops me o' c = Some rc" for p m o' c rc
  proof (rule block_on_loop.raw_induct [where P = "\<lambda>p m os e o' c rc.
      p = audit_task name poll \<longrightarrow> m = audit_main name main \<longrightarrow> o' = others \<longrightarrow> ?ok c \<longrightarrow>
      ?ok (snd rc)", OF _ that])
    fix loop p m os e o' c rc
    assume IH: "\<And>p m os e o' c rc. loop p m os e o' c = Some rc \<Longrightarrow>
        p = audit_task name poll \<longrightarrow> m = audit_main name main \<longrightarrow> o' = others \<longrightarrow> ?ok c \<longrightarrow>
        ?ok (snd rc)"
      and eq: "(case block_on_turn p m os e c of (t, c') \<Rightarrow>
        (case t of Output x \<Rightarrow> Some (Returned x, c') | Panicking \<Rightarrow> Some (Unwound, c')
         | Again \<Rightarrow> loop p m os e o' c' | WouldPark \<Rightarrow> loop p m os e o' (park o' e c'))) = Some rc"
    show "p = audit_task name poll \<longrightarrow> m = audit_main name main \<longrightarrow> o' = others \<longrightarrow> ?ok c \<longrightarrow>
        ?ok (snd rc)"
    proof (intro impI)
      assume *: "p = audit_task name poll" "m = audit_main name main" "o' = others" and c: "?ok c"
      obtain f a v s where cc: "c = (f, a, v, s)" by (cases c)
      obtain t f1 a1 v1 s1 where t: "block_on_turn p m os e c = (t, (f1, a1, v1, s1))"
        by (metis prod_cases4 surj_pair)
      with balanced_turn names c * cc have b: "balanced name K a1 v1 s1" by fastforce
      have b': "?ok (park o' e (f1, a1, v1, s1))"
        using balanced_park [OF other b] * by (metis fst_conv prod_cases4 snd_conv)
      from eq t b b' * show "?ok (snd rc)"
        by (cases t) (auto dest: IH)
    qed
  qed
  from gen [OF run] bal show ?thesis by simp
qed

section \<open>The driving flag and termination\<close>

lemma block_on_turn_polls:
  "block_on_turn poll main ops me (f, a, u, st) = (t, c') \<Longrightarrow>
   (\<exists>r u1 sp woke. main f u = Polled r (fst c') u1 sp woke \<and>
     (t = Again \<or> t = WouldPark \<longrightarrow> r = Returned Pending))"
  by (auto simp: block_on_turn_def Let_def split: prod.splits polled.splits outcome.splits
      poll.splits if_splits)

lemma park_fut [simp]: "fst (park others me c) = fst c"
  by (auto simp: park_def split: prod.splits)

lemma block_on_loop_returns:
  assumes progress: "\<And>f u. case main f u of Polled r f' u' sp woke \<Rightarrow>
      r \<noteq> Returned Pending \<or> rank f' < (rank f :: nat)"
  shows "\<exists>r. block_on_loop poll main ops me others c = Some r"
proof (induction "rank (fst c)" arbitrary: c rule: less_induct)
  case less
  obtain f a u st where c: "c = (f, a, u, st)" by (cases c)
  obtain t c' where t: "block_on_turn poll main ops me c = (t, c')"
    by (cases "block_on_turn poll main ops me c")
  have dec: "t = Again \<or> t = WouldPark \<Longrightarrow> rank (fst c') < rank (fst c)"
    using block_on_turn_polls [of poll main ops me f a u st t c'] t c progress [of f u] by auto
  show ?case
  proof (cases t)
    case Again
    with dec less [of c'] t show ?thesis
      by (subst block_on_loop.simps) simp
  next
    case WouldPark
    with dec less [of "park others me c'"] t show ?thesis
      by (subst block_on_loop.simps) simp
  next
    case (Output x)
    with t show ?thesis by (subst block_on_loop.simps) (cases c', simp)
  next
    case Panicking
    with t show ?thesis by (subst block_on_loop.simps) (cases c', simp)
  qed
qed

section \<open>Properties\<close>

text \<open>Concrete instances for the witnesses: a one-slot waker, tasks and a future that count down.\<close>

definition slot_waker :: "nat option waker_ops" where
  "slot_waker = \<lparr>aw_register = (\<lambda>t a. Some t), aw_wake = (\<lambda>a. (a, None))\<rparr>"

fun countdown_task ::
  "string \<times> nat \<Rightarrow> unit \<Rightarrow> (bool, string \<times> nat, string \<times> nat, unit) polled" where
  "countdown_task (n, k) u = Polled (k = 0) (n, k - 1) u [] True"

fun countdown_main :: "nat \<Rightarrow> unit \<Rightarrow> (nat poll outcome, nat, string \<times> nat, unit) polled" where
  "countdown_main k u =
     (if k = 0 then Polled (Returned (Ready 7)) 0 u [] False
      else Polled (Returned Pending) (k - 1) u [(''late'', 5)] True)"

text \<open>
  C1: one sweep of \<open>block_on\<close> over the active tasks polls every task that was active at
  its start exactly once, although finished tasks are taken out with \<open>swap_remove\<close> while
  the index moves: the list of tasks polled is a permutation of the tasks.
\<close>

theorem sweep_polls_each_task_once:
  assumes "poll_tasks (log_poll poll) ops me 0 tasks (u, []) st made = (rest, (u', log), st', made')"
  shows "mset log = mset tasks"
  using poll_tasks_log [OF assms] by simp

theorem sweep_polls_each_task_once_witness:
  "mset [(''a'', 0 :: nat), (''c'', 2), (''b'', 1)] = mset [(''a'', 0), (''b'', 1), (''c'', 2)]"
proof -
  have "poll_tasks (log_poll countdown_task) slot_waker 1 0
      [(''a'', 0), (''b'', 1), (''c'', 2)] ((), []) (lite_new None) False =
      ([(''c'', 1), (''b'', 0)], ((), [(''a'', 0), (''c'', 2), (''b'', 1)]),
       (lite_new None)\<lparr>permits := {1}\<rparr>, True)"
    by (simp add: poll_tasks.simps swap_remove_def poll_effects_def unpark_def lite_new_def)
  from sweep_polls_each_task_once [OF this] show ?thesis .
qed



text \<open>
  At most one thread drives the executor. A call made while the flag is set panics without
  touching the executor or the world, and every call leaves the flag as it found it, so a rejected
  caller does not clear the flag of the thread that is driving.
\<close>

theorem lite_block_on_exclusive:
  "lite_block_on poll main ops me others fut u st = Some (r, u', st') \<Longrightarrow>
   driving st' = driving st \<and> (driving st \<longrightarrow> r = Unwound \<and> u' = u \<and> st' = st)"
  by (auto simp: lite_block_on_def split: if_splits option.splits)

theorem lite_block_on_exclusive_witness:
  "let st = (lite_new None)\<lparr>driving := True\<rparr> :: (string \<times> nat, nat option) lite in
   driving st = driving st \<and> (driving st \<longrightarrow> Unwound = (Unwound :: nat outcome) \<and> () = () \<and> st = st)"
proof -
  have "lite_block_on countdown_task countdown_main slot_waker 1 (\<lambda>v st. (v, st)) 3 ()
      ((lite_new None)\<lparr>driving := True\<rparr>) = Some (Unwound, (), (lite_new None)\<lparr>driving := True\<rparr>)"
    by (simp add: lite_block_on_def)
  from lite_block_on_exclusive [OF this] show ?thesis by (simp add: Let_def)
qed



end
