(* ===== verification/Lite_Wakeup.thy ===== *)
theory Lite_Wakeup
  imports Lite
begin

text \<open>
  The driver of \<open>src/src/rt/lite.rs\<close> against threads that spawn concurrently. The unit of
  interleaving is one lock section or one atomic action: \<open>spawn\<close> is two steps (push, then wake),
  and the loop of \<open>block_on\<close> is cut at every access to the queue and to the waker. The theorem
  is that no wakeup is lost: the driver never stays parked over a queued task whose spawner has
  finished.
\<close>

section \<open>The interleaved system\<close>

text \<open>Where the driving thread stands in the loop; the flag is \<open>made_progress\<close>.\<close>

datatype pc = AtRegister | AtTake | AtPolls | AtRetake bool | AtRearm | AtLastTake | AtPark | Left

text \<open>\<open>unsent\<close> counts the spawners that have pushed their task and not yet called \<open>wake\<close>.\<close>

record ('t, 'aw) system =
  exec :: "('t, 'aw) lite"
  drv_pc :: pc
  active :: "'t list"
  unsent :: nat

definition system_init :: "'aw \<Rightarrow> 't list \<Rightarrow> ('t, 'aw) system" where
  "system_init a ts =
     \<lparr>exec = (lite_new a)\<lparr>queued_tasks := ts, driving := True\<rparr>, drv_pc = AtRegister,
      active = [], unsent = 0\<rparr>"

inductive lite_step ::
  "'aw waker_ops \<Rightarrow> nat \<Rightarrow> ('t, 'aw) system \<Rightarrow> ('t, 'aw) system \<Rightarrow> bool" for ops me where
  register: "drv_pc s = AtRegister \<Longrightarrow>
     lite_step ops me s (s\<lparr>exec := lite_register ops me (exec s), drv_pc := AtTake\<rparr>)"
| take: "drv_pc s = AtTake \<Longrightarrow> take_queued_tasks (exec s) (active s) = (took, ts, e) \<Longrightarrow>
     lite_step ops me s (s\<lparr>exec := e, active := ts, drv_pc := AtPolls\<rparr>)"
| poll_one: "drv_pc s = AtPolls \<Longrightarrow>
     lite_step ops me s (s\<lparr>exec := poll_effects ops me sp woke (exec s), active := ts\<rparr>)"
| polled: "drv_pc s = AtPolls \<Longrightarrow> lite_step ops me s (s\<lparr>drv_pc := AtRetake made\<rparr>)"
| leave: "drv_pc s = AtPolls \<Longrightarrow>
     lite_step ops me s (s\<lparr>exec := (exec s)\<lparr>queued_tasks := queued_tasks (exec s) @ active s,
       driving := False\<rparr>, active := [], drv_pc := Left\<rparr>)"
| retake: "drv_pc s = AtRetake made \<Longrightarrow>
     take_queued_tasks (exec s) (active s) = (took, ts, e) \<Longrightarrow>
     lite_step ops me s (s\<lparr>exec := e, active := ts,
       drv_pc := (if took \<or> made then AtRegister else AtRearm)\<rparr>)"
| rearm: "drv_pc s = AtRearm \<Longrightarrow>
     lite_step ops me s (s\<lparr>exec := lite_register ops me (exec s), drv_pc := AtLastTake\<rparr>)"
| last_take: "drv_pc s = AtLastTake \<Longrightarrow>
     take_queued_tasks (exec s) (active s) = (took, ts, e) \<Longrightarrow>
     lite_step ops me s (s\<lparr>exec := e, active := ts,
       drv_pc := (if took then AtRegister else AtPark)\<rparr>)"
| unparked: "drv_pc s = AtPark \<Longrightarrow> me \<in> permits (exec s) \<Longrightarrow>
     lite_step ops me s (s\<lparr>exec := (exec s)\<lparr>permits := permits (exec s) - {me}\<rparr>,
       drv_pc := AtRegister\<rparr>)"
| spurious: "drv_pc s = AtPark \<Longrightarrow> lite_step ops me s (s\<lparr>drv_pc := AtRegister\<rparr>)"
| spawn_push:
    "lite_step ops me s (s\<lparr>exec := lite_push t (exec s), unsent := Suc (unsent s)\<rparr>)"
| spawn_wake: "unsent s = Suc n \<Longrightarrow>
     lite_step ops me s (s\<lparr>exec := lite_wake ops (exec s), unsent := n\<rparr>)"
| task_woken: "lite_step ops me s (s\<lparr>exec := unpark t (exec s)\<rparr>)"

inductive lite_reach ::
  "'aw waker_ops \<Rightarrow> nat \<Rightarrow> ('t, 'aw) system \<Rightarrow> bool" for ops me where
  start: "lite_reach ops me (system_init a ts)"
| step: "lite_reach ops me s \<Longrightarrow> lite_step ops me s s' \<Longrightarrow> lite_reach ops me s'"

section \<open>The invariant\<close>

text \<open>
  \<open>alerted\<close>: either a call of \<open>wake\<close> would reach the driver, or its token is already there.
\<close>

definition alerted :: "'aw waker_ops \<Rightarrow> nat \<Rightarrow> ('t, 'aw) lite \<Rightarrow> bool" where
  "alerted ops me e \<longleftrightarrow> fst (aw_wake ops (lite_waker e)) = Some me \<or> me \<in> permits e"

definition wakeup_inv :: "'aw waker_ops \<Rightarrow> nat \<Rightarrow> ('t, 'aw) system \<Rightarrow> bool" where
  "wakeup_inv ops me s \<longleftrightarrow>
     (drv_pc s \<in> {AtLastTake, AtPark} \<longrightarrow> alerted ops me (exec s)) \<and>
     (drv_pc s = AtPark \<longrightarrow> queued_tasks (exec s) \<noteq> [] \<longrightarrow>
        0 < unsent s \<or> me \<in> permits (exec s))"

lemma alerted_register: "waker_laws ops \<Longrightarrow> alerted ops me (lite_register ops me e)"
  by (simp add: alerted_def lite_register_def waker_laws_def)

lemma permits_wake:
  "alerted ops me e \<Longrightarrow> me \<in> permits (lite_wake ops e)"
  by (auto simp: alerted_def lite_wake_def unpark_def split: prod.splits option.splits)

lemma alerted_wake: "alerted ops me e \<Longrightarrow> alerted ops me (lite_wake ops e)"
  by (simp add: alerted_def [of ops me "lite_wake ops e"] permits_wake)

lemma alerted_push [simp]: "alerted ops me (lite_push t e) = alerted ops me e"
  by (simp add: alerted_def lite_push_def)

lemma permits_push [simp]: "permits (lite_push t e) = permits e"
  by (simp add: lite_push_def)

lemma alerted_unpark: "alerted ops me e \<Longrightarrow> alerted ops me (unpark t e)"
  by (auto simp: alerted_def unpark_def)

lemma permits_unpark: "me \<in> permits e \<Longrightarrow> me \<in> permits (unpark t e)"
  by (simp add: unpark_def)

lemma alerted_take:
  "take_queued_tasks e ts = (took, ts', e') \<Longrightarrow> alerted ops me e' = alerted ops me e"
  by (auto simp: take_queued_tasks_def alerted_def split: if_splits)

lemmas alerted_intros = alerted_register alerted_wake alerted_unpark permits_wake permits_unpark

lemma wakeup_inv_step:
  "lite_step ops me s s' \<Longrightarrow> waker_laws ops \<Longrightarrow> wakeup_inv ops me s \<Longrightarrow> wakeup_inv ops me s'"
proof (induction rule: lite_step.induct)
  case (last_take s took ts e)
  from last_take(1,4) have "alerted ops me e"
    by (simp add: wakeup_inv_def alerted_take [OF last_take(2)])
  with take_queued_parts [OF last_take(2)] show ?case by (simp add: wakeup_inv_def)
next
  case (spawn_wake s n)
  then show ?case by (auto simp: wakeup_inv_def intro: alerted_intros)
qed (auto simp: wakeup_inv_def intro: alerted_intros)

lemma lite_reach_inv:
  assumes "lite_reach ops me s" and "waker_laws ops"
  shows "wakeup_inv ops me s"
  using assms
proof (induction rule: lite_reach.induct)
  case (start a ts)
  then show ?case by (simp add: wakeup_inv_def system_init_def)
next
  case (step s s')
  then show ?case by (blast intro: wakeup_inv_step)
qed

section \<open>Properties\<close>

text \<open>
  C5: no lost wakeup. In every interleaving of the driver with spawning threads, when the driver has
  decided to park while a task is queued, either its park token is there, so that \<open>park\<close> returns
  at once, or some spawner has pushed its task and not called \<open>wake\<close> yet, and that call will put the
  token there.
\<close>

theorem lite_no_lost_wakeup:
  assumes "waker_laws ops" and "lite_reach ops me s"
    and "drv_pc s = AtPark" and "queued_tasks (exec s) \<noteq> []"
  shows "me \<in> permits (exec s) \<or> (0 < unsent s \<and> me \<in> permits (lite_wake ops (exec s)))"
  using lite_reach_inv [OF assms(2,1)] assms(3,4) permits_wake [of ops me "exec s"]
  by (auto simp: wakeup_inv_def)

lemma slot_waker_laws: "waker_laws slot_waker"
  by (simp add: waker_laws_def slot_waker_def)

theorem lite_no_lost_wakeup_witness:
  "(1 :: nat) \<in> permits (exec \<lparr>exec = \<lparr>queued_tasks = [''t''], lite_waker = Some 1, driving = True,
       permits = {}\<rparr>, drv_pc = AtPark, active = [], unsent = 1\<rparr>) \<or>
   (0 < (1 :: nat) \<and> 1 \<in> permits (lite_wake slot_waker \<lparr>queued_tasks = [''t''],
       lite_waker = Some 1, driving = True, permits = {}\<rparr>))"
proof -
  let ?e = "\<lambda>q w. \<lparr>queued_tasks = q, lite_waker = w, driving = True, permits = {}\<rparr>
    :: (string, nat option) lite"
  let ?s = "\<lambda>q w pc n. \<lparr>exec = ?e q w, drv_pc = pc, active = [], unsent = n\<rparr>"
  have "lite_reach slot_waker 1 (?s [] None AtRegister 0)"
    using lite_reach.start [of slot_waker 1 None "[]"] by (simp add: system_init_def lite_new_def)
  from lite_reach.step [OF this lite_step.register]
  have "lite_reach slot_waker 1 (?s [] (Some 1) AtTake 0)"
    by (simp add: lite_register_def slot_waker_def)
  from lite_reach.step [OF this lite_step.take [where took = False and ts = "[]"]]
  have "lite_reach slot_waker 1 (?s [] (Some 1) AtPolls 0)"
    by (simp add: take_queued_tasks_def)
  from lite_reach.step [OF this lite_step.polled [where made = False]]
  have "lite_reach slot_waker 1 (?s [] (Some 1) (AtRetake False) 0)" by simp
  from lite_reach.step [OF this lite_step.retake [where made = False and took = False and ts = "[]"]]
  have "lite_reach slot_waker 1 (?s [] (Some 1) AtRearm 0)"
    by (simp add: take_queued_tasks_def)
  from lite_reach.step [OF this lite_step.rearm]
  have "lite_reach slot_waker 1 (?s [] (Some 1) AtLastTake 0)"
    by (simp add: lite_register_def slot_waker_def)
  from lite_reach.step [OF this lite_step.last_take [where took = False and ts = "[]"]]
  have "lite_reach slot_waker 1 (?s [] (Some 1) AtPark 0)"
    by (simp add: take_queued_tasks_def)
  from lite_reach.step [OF this lite_step.spawn_push [where t = "''t''"]]
  have "lite_reach slot_waker 1 (?s [''t''] (Some 1) AtPark 1)"
    by (simp add: lite_push_def)
  from lite_no_lost_wakeup [OF slot_waker_laws this] show ?thesis by simp
qed

end
