(* ===== verification/Selection.thy ===== *)
theory Selection
  imports Prelude
begin

text \<open>
  Which runtime the crate uses: the compile-time selection by feature and target of
  \<open>src/src/global/executor.rs\<close> (\<open>DefaultExecutor\<close>, \<open>BuiltinExecutor\<close>), the re-export of the
  attribute macros in \<open>src/src/lib.rs\<close>, and the file system and network that go with an executor
  (\<open>src/src/fs/builtin.rs\<close>, \<open>src/src/net/builtin.rs\<close>). A set of \<open>cfg\<close> attributes is a list of
  conditions paired with what they guard, in source order.
\<close>

section \<open>Build configurations\<close>

record config =
  tokio :: bool
  smol :: bool
  compio :: bool
  threadpool :: bool
  lite_feature :: bool
  wasm32 :: bool

datatype builtin_executor = Tokio | Smol | Compio | ThreadPool | Wasm | LiteExec | Dummy

text \<open>The variants of \<open>BuiltinExecutor\<close> that exist in a configuration.\<close>

fun exists_in :: "config \<Rightarrow> builtin_executor \<Rightarrow> bool" where
  "exists_in c Tokio = (tokio c \<and> \<not> wasm32 c)"
| "exists_in c Smol = (smol c \<and> \<not> wasm32 c)"
| "exists_in c Compio = (compio c \<and> \<not> wasm32 c)"
| "exists_in c ThreadPool = (threadpool c \<and> \<not> wasm32 c)"
| "exists_in c Wasm = wasm32 c"
| "exists_in c LiteExec = (lite_feature c \<and> \<not> wasm32 c)"
| "exists_in c Dummy = True"

text \<open>The guarded items that survive conditional compilation.\<close>

definition active_items :: "(bool \<times> 'a) list \<Rightarrow> 'a list" where
  "active_items items = map snd (filter fst items)"

lemma active_items_simps [simp]:
  "active_items [] = []"
  "active_items ((b, x) # items) = (if b then x # active_items items else active_items items)"
  by (simp_all add: active_items_def)

section \<open>The default executor\<close>

text \<open>\<open>pub type DefaultExecutor\<close>: seven alternative definitions of one alias.\<close>

definition default_executor_types :: "config \<Rightarrow> (bool \<times> builtin_executor) list" where
  "default_executor_types c =
     [(tokio c \<and> \<not> wasm32 c, Tokio),
      (compio c \<and> \<not> (tokio c \<or> smol c \<or> wasm32 c), Compio),
      (smol c \<and> \<not> (tokio c \<or> wasm32 c), Smol),
      (threadpool c \<and> \<not> (tokio c \<or> smol c \<or> compio c \<or> wasm32 c), ThreadPool),
      (lite_feature c \<and> \<not> (tokio c \<or> smol c \<or> compio c \<or> threadpool c) \<and> \<not> wasm32 c, LiteExec),
      (wasm32 c, Wasm),
      (\<not> threadpool c \<and> \<not> tokio c \<and> \<not> compio c \<and> \<not> smol c \<and> \<not> lite_feature c \<and> \<not> wasm32 c,
       Dummy)]"

text \<open>\<open>BuiltinExecutor::default\<close>: a sequence of guarded \<open>return\<close>s, of which the first runs.\<close>

definition default_returns :: "config \<Rightarrow> (bool \<times> builtin_executor) list" where
  "default_returns c =
     [(tokio c \<and> \<not> wasm32 c, Tokio),
      (smol c \<and> \<not> (tokio c \<or> wasm32 c), Smol),
      (compio c \<and> \<not> (tokio c \<or> smol c \<or> wasm32 c), Compio),
      (threadpool c \<and> \<not> (tokio c \<or> smol c \<or> compio c \<or> wasm32 c), ThreadPool),
      (wasm32 c, Wasm),
      (lite_feature c \<and> \<not> (threadpool c \<or> tokio c \<or> compio c \<or> smol c) \<and> \<not> wasm32 c, LiteExec),
      (\<not> threadpool c \<and> \<not> tokio c \<and> \<not> compio c \<and> \<not> smol c \<and> \<not> lite_feature c \<and> \<not> wasm32 c,
       Dummy)]"

definition builtin_default :: "config \<Rightarrow> builtin_executor option" where
  "builtin_default c = (case active_items (default_returns c) of [] \<Rightarrow> None | x # _ \<Rightarrow> Some x)"

text \<open>
  The re-exports of \<open>main\<close> and \<open>test\<close> with the \<open>macros\<close> feature: the executor the macro
  was instantiated with, \<open>None\<close> for \<open>main_fail\<close> and \<open>main_wasm_fail\<close>.
\<close>

definition macro_exports :: "config \<Rightarrow> (bool \<times> builtin_executor option) list" where
  "macro_exports c =
     [(compio c \<and> \<not> (tokio c \<or> smol c \<or> wasm32 c), Some Compio),
      (\<not> (tokio c \<or> smol c \<or> compio c \<or> threadpool c \<or> lite_feature c) \<and> \<not> wasm32 c, None),
      (lite_feature c \<and> \<not> (tokio c \<or> smol c \<or> compio c \<or> threadpool c \<or> wasm32 c), Some LiteExec),
      (smol c \<and> \<not> (tokio c \<or> wasm32 c), Some Smol),
      (threadpool c \<and> \<not> (tokio c \<or> smol c \<or> compio c \<or> wasm32 c), Some ThreadPool),
      (tokio c \<and> \<not> wasm32 c, Some Tokio),
      (wasm32 c, None)]"

section \<open>What an executor stands for\<close>

fun is_exclusive :: "builtin_executor \<Rightarrow> bool" where
  "is_exclusive LiteExec = True"
| "is_exclusive _ = False"

fun runtime_type :: "builtin_executor \<Rightarrow> string" where
  "runtime_type Tokio = ''tokio''"
| "runtime_type Smol = ''smol''"
| "runtime_type Compio = ''compio''"
| "runtime_type ThreadPool = ''threadpool''"
| "runtime_type Wasm = ''wasm''"
| "runtime_type LiteExec = ''lite''"
| "runtime_type Dummy = ''dummy''"

datatype builtin_filesystem = FsTokio | FsSmol | FsCompio | FsThreadPool | FsLite | FsWasm
  | FsUnavailable

fun filesystem_of :: "builtin_executor \<Rightarrow> builtin_filesystem" where
  "filesystem_of Tokio = FsTokio"
| "filesystem_of Smol = FsSmol"
| "filesystem_of Compio = FsCompio"
| "filesystem_of ThreadPool = FsThreadPool"
| "filesystem_of LiteExec = FsLite"
| "filesystem_of Wasm = FsWasm"
| "filesystem_of Dummy = FsUnavailable"

datatype builtin_network = NetTokio | NetSmol | NetCompio | NetUnavailable

fun network_of :: "builtin_executor \<Rightarrow> builtin_network" where
  "network_of Tokio = NetTokio"
| "network_of Smol = NetSmol"
| "network_of Compio = NetCompio"
| "network_of _ = NetUnavailable"

section \<open>Properties\<close>

text \<open>
  C6: conditional compilation selects one runtime. In each of the 64 combinations of runtime
  features and target, exactly one definition of \<open>DefaultExecutor\<close> and exactly one \<open>return\<close> of
  \<open>BuiltinExecutor::default\<close> survive, they name the same executor, and that executor is a
  variant of \<open>BuiltinExecutor\<close> in this configuration.
\<close>

theorem default_executor_unique:
  "\<exists>x. active_items (default_executor_types c) = [x] \<and> active_items (default_returns c) = [x] \<and>
     builtin_default c = Some x \<and> exists_in c x"
  by (cases "tokio c"; cases "smol c"; cases "compio c"; cases "threadpool c";
      cases "lite_feature c"; cases "wasm32 c")
    (simp_all add: default_executor_types_def default_returns_def builtin_default_def)

text \<open>
  The attribute macros agree with the default executor. Exactly one pair of \<open>main\<close>/\<open>test\<close>
  is re-exported in every configuration; off Wasm it drives the default executor, and it is the
  failing pair exactly when there is no runtime (the dummy executor) or the target is Wasm.
\<close>

theorem macro_export_agrees:
  "\<exists>m. active_items (macro_exports c) = [m] \<and>
     (m = None \<longleftrightarrow> builtin_default c = Some Dummy \<or> wasm32 c) \<and>
     (m \<noteq> None \<longrightarrow> m = builtin_default c)"
  by (cases "tokio c"; cases "smol c"; cases "compio c"; cases "threadpool c";
      cases "lite_feature c"; cases "wasm32 c")
    (simp_all add: macro_exports_def default_returns_def builtin_default_def)

theorem macro_export_agrees_witness:
  "\<exists>m. active_items (macro_exports \<lparr>tokio = False, smol = True, compio = True, threadpool = True,
       lite_feature = True, wasm32 = False\<rparr>) = [m] \<and> m = Some Smol"
  using macro_export_agrees [of "\<lparr>tokio = False, smol = True, compio = True, threadpool = True,
       lite_feature = True, wasm32 = False\<rparr>"]
  by (simp add: builtin_default_def default_returns_def macro_exports_def)

end
