(* ===== verification/Macros.thy ===== *)
theory Macros
  imports Selection
begin

text \<open>
  The attribute macros \<open>main\<close> and \<open>test\<close> (\<open>src/async-rt-macros/src/lib.rs\<close>): the parser of their
  arguments, the choice of the executor and the function they expand to. The \<open>syn\<close> crate parses the
  token streams and \<open>proc_macro_crate\<close> finds the name of the crate: they are arguments. Spans, which
  only say where an error is shown, are left out. The quoted code is a value that says what is
  constructed and driven.
\<close>

section \<open>Syntax\<close>

text \<open>A path is plain when it has no leading colon and no generic arguments.\<close>

datatype macro_path = MacroPath (segments: "string list") (plain: bool)

definition get_ident :: "macro_path \<Rightarrow> string option" where
  "get_ident p = (case segments p of [s] \<Rightarrow> (if plain p then Some s else None) | _ \<Rightarrow> None)"

definition is_ident :: "macro_path \<Rightarrow> string \<Rightarrow> bool" where
  "is_ident p s \<longleftrightarrow> get_ident p = Some s"

datatype 'e expr = StrLit string | PathExpr macro_path | OtherExpr 'e

datatype 'e meta = MetaPath macro_path | MetaList macro_path | NameValue macro_path "'e expr"

datatype attribute_kind = Main | Test

definition is_test :: "attribute_kind \<Rightarrow> bool" where
  "is_test k = (case k of Test \<Rightarrow> True | Main \<Rightarrow> False)"

datatype macro_executor = ExecGlobal | ExecTokio | ExecSmol | ExecCompio | ExecThreadPool | ExecLite

definition unknown_executor :: string where
  "unknown_executor =
     ''unknown executor. expected `global`, `tokio`, `smol`, `compio`, `threadpool`, or `lite`''"

definition parse_executor :: "string \<Rightarrow> string + macro_executor" where
  "parse_executor s =
     (if s = ''global'' then Inr ExecGlobal
      else if s = ''tokio'' then Inr ExecTokio
      else if s = ''smol'' then Inr ExecSmol
      else if s = ''compio'' then Inr ExecCompio
      else if s = ''threadpool'' \<or> s = ''thread_pool'' then Inr ExecThreadPool
      else if s = ''lite'' then Inr ExecLite
      else Inl unknown_executor)"

section \<open>Arguments\<close>

record 'e arguments =
  executor :: macro_executor
  executor_set :: bool
  driver :: "'e expr option"

definition default_arguments :: "'e arguments" where
  "default_arguments = \<lparr>executor = ExecGlobal, executor_set = False, driver = None\<rparr>"

text \<open>The value of \<open>executor\<close>: a string literal or an identifier.\<close>

definition executor_value :: "'e expr \<Rightarrow> string option" where
  "executor_value e = (case e of StrLit s \<Rightarrow> Some s | PathExpr p \<Rightarrow> get_ident p | OtherExpr x \<Rightarrow> None)"

text \<open>The loop of \<open>Arguments::parse\<close>, over the arguments that \<open>syn\<close> has separated.\<close>

fun parse_loop :: "'e arguments \<Rightarrow> 'e meta list \<Rightarrow> string + 'e arguments" where
  "parse_loop r [] = Inr r"
| "parse_loop r (NameValue p v # ms) =
     (if is_ident p ''driver'' then
        (if driver r \<noteq> None then Inl ''duplicate `driver` option''
         else if executor_set r then Inl ''`driver` and `executor` cannot be used together''
         else parse_loop (r\<lparr>driver := Some v\<rparr>) ms)
      else if \<not> is_ident p ''executor'' then Inl ''unknown option. expected `executor` or `driver`''
      else if executor_set r then Inl ''duplicate `executor` option''
      else if driver r \<noteq> None then Inl ''`driver` and `executor` cannot be used together''
      else case executor_value v of
        None \<Rightarrow> Inl ''executor must be a string or identifier''
      | Some s \<Rightarrow>
          (case parse_executor s of
             Inl e \<Rightarrow> Inl e
           | Inr x \<Rightarrow> parse_loop (r\<lparr>executor := x, executor_set := True\<rparr>) ms))"
| "parse_loop r (m # ms) = Inl ''expected `executor = \"...\"` or `driver = ...`''"

definition parse_arguments :: "('tk \<Rightarrow> string + 'e meta list) \<Rightarrow> 'tk \<Rightarrow> string + 'e arguments" where
  "parse_arguments parse_metas tokens =
     (case parse_metas tokens of Inl e \<Rightarrow> Inl e | Inr ms \<Rightarrow> parse_loop default_arguments ms)"

section \<open>Expansion\<close>

text \<open>The executor that the expanded code makes, and the one \<open>async_rt::task\<close> uses in it.\<close>

datatype creation =
  TokioSingleThread | TokioMultiThread | SmolNew | CompioNew | ThreadPoolUnit | LiteUnit

datatype ('e, 'b) drive =
  DriveBuiltin creation builtin_executor string 'b
| DriveCustom "'e expr" string 'b

fun macro_builtin :: "macro_executor \<Rightarrow> builtin_executor option" where
  "macro_builtin ExecTokio = Some Tokio"
| "macro_builtin ExecSmol = Some Smol"
| "macro_builtin ExecCompio = Some Compio"
| "macro_builtin ExecThreadPool = Some ThreadPool"
| "macro_builtin ExecLite = Some LiteExec"
| "macro_builtin ExecGlobal = None"

fun create_executor :: "macro_executor \<Rightarrow> attribute_kind \<Rightarrow> creation option" where
  "create_executor ExecTokio k = Some (if is_test k then TokioSingleThread else TokioMultiThread)"
| "create_executor ExecSmol k = Some SmolNew"
| "create_executor ExecCompio k = Some CompioNew"
| "create_executor ExecThreadPool k = Some ThreadPoolUnit"
| "create_executor ExecLite k = Some LiteUnit"
| "create_executor ExecGlobal k = None"

text \<open>\<open>Executor::drive\<close>: \<open>unreachable!\<close> unwinds.\<close>

definition macro_drive :: "macro_executor \<Rightarrow> attribute_kind \<Rightarrow> string \<Rightarrow> 'b \<Rightarrow> ('e, 'b) drive outcome" where
  "macro_drive x k crate body =
     (case (macro_builtin x, create_executor x k) of
        (Some b, Some cr) \<Rightarrow> Returned (DriveBuiltin cr b crate body)
      | _ \<Rightarrow> Unwound)"

definition drive_custom :: "string \<Rightarrow> 'b \<Rightarrow> 'e expr \<Rightarrow> ('e, 'b) drive" where
  "drive_custom crate body e = DriveCustom e crate body"

record ('at, 'v, 'sg, 'b) item_fn =
  fn_attrs :: "'at list"
  fn_vis :: 'v
  fn_async :: bool
  fn_sig :: 'sg
  fn_block :: 'b

record ('at, 'v, 'sg, 'd) expanded_fn =
  ex_attrs :: "'at list"
  ex_test :: bool
  ex_vis :: 'v
  ex_async :: bool
  ex_sig :: 'sg
  ex_drive :: 'd

datatype found_crate = Itself | CrateName string

definition runtime_crate :: "string + found_crate \<Rightarrow> string + string" where
  "runtime_crate r =
     (case r of
        Inr Itself \<Rightarrow> Inr ''::async_rt''
      | Inr (CrateName n) \<Rightarrow> Inr (''::'' @ map (\<lambda>ch. if ch = CHR ''-'' then CHR ''_'' else ch) n)
      | Inl e \<Rightarrow> Inl (''could not find the `async-rt` crate: '' @ e))"

definition no_default_error :: string where
  "no_default_error = ''async-rt's `main` and `test` macros require a default runtime feature, '' @
     ''an explicit executor, or a custom `driver`''"

text \<open>\<open>match arguments.driver\<close> of \<open>expand_inner\<close>.\<close>

definition choose_drive ::
  "'e arguments \<Rightarrow> attribute_kind \<Rightarrow> macro_executor option \<Rightarrow> string \<Rightarrow> 'b \<Rightarrow>
   (string + ('e, 'b) drive) outcome" where
  "choose_drive a k default_executor crate body =
     (case driver a of
        Some e \<Rightarrow> Returned (Inr (drive_custom crate body e))
      | None \<Rightarrow>
          (case (case executor a of ExecGlobal \<Rightarrow> default_executor | x \<Rightarrow> Some x) of
             None \<Rightarrow> Returned (Inl no_default_error)
           | Some x \<Rightarrow>
               (case macro_drive x k crate body of
                  Unwound \<Rightarrow> Unwound
                | Returned d \<Rightarrow> Returned (Inr d))))"

definition expand_inner ::
  "('tk \<Rightarrow> string + 'e meta list) \<Rightarrow> ('tk \<Rightarrow> string + ('at, 'v, 'sg, 'b) item_fn) \<Rightarrow>
   string + found_crate \<Rightarrow> 'tk \<Rightarrow> 'tk \<Rightarrow> attribute_kind \<Rightarrow> macro_executor option \<Rightarrow>
   (string + ('at, 'v, 'sg, ('e, 'b) drive) expanded_fn) outcome" where
  "expand_inner parse_metas parse_item found arguments item k default_executor =
     (case parse_arguments parse_metas arguments of
        Inl e \<Rightarrow> Returned (Inl e)
      | Inr a \<Rightarrow>
     (case parse_item item of
        Inl e \<Rightarrow> Returned (Inl e)
      | Inr f \<Rightarrow>
          (if \<not> fn_async f then Returned (Inl ''the `async` keyword is required'')
           else
     (case runtime_crate found of
        Inl e \<Rightarrow> Returned (Inl e)
      | Inr crate \<Rightarrow>
     (case choose_drive a k default_executor crate (fn_block f) of
        Unwound \<Rightarrow> Unwound
      | Returned (Inl e) \<Rightarrow> Returned (Inl e)
      | Returned (Inr d) \<Rightarrow>
          Returned (Inr \<lparr>ex_attrs = fn_attrs f, ex_test = is_test k, ex_vis = fn_vis f,
            ex_async = False, ex_sig = fn_sig f, ex_drive = d\<rparr>))))))"

text \<open>
  The macros \<open>main\<close> and \<open>test\<close> that a configuration of \<open>async-rt\<close> exports: \<open>main_tokio\<close> and its
  like, \<open>main_fail\<close>, or \<open>main_wasm_fail\<close>.
\<close>

fun entry_executor :: "builtin_executor \<Rightarrow> macro_executor option" where
  "entry_executor Tokio = Some ExecTokio"
| "entry_executor Smol = Some ExecSmol"
| "entry_executor Compio = Some ExecCompio"
| "entry_executor ThreadPool = Some ExecThreadPool"
| "entry_executor LiteExec = Some ExecLite"
| "entry_executor _ = None"

definition wasm_error :: string where
  "wasm_error = ''async-rt's `main` and `test` macros do not yet support wasm32''"

definition exported_macro ::
  "config \<Rightarrow> ('tk \<Rightarrow> string + 'e meta list) \<Rightarrow> ('tk \<Rightarrow> string + ('at, 'v, 'sg, 'b) item_fn) \<Rightarrow>
   string + found_crate \<Rightarrow> attribute_kind \<Rightarrow> 'tk \<Rightarrow> 'tk \<Rightarrow>
   (string + ('at, 'v, 'sg, ('e, 'b) drive) expanded_fn) outcome" where
  "exported_macro c parse_metas parse_item found k arguments item =
     (if wasm32 c then Returned (Inl wasm_error)
      else expand_inner parse_metas parse_item found arguments item k
        (Option.bind (hd (active_items (macro_exports c))) entry_executor))"

section \<open>Properties\<close>

text \<open>
  C35: the grammar of the arguments. They are accepted exactly when there are none, or one \<open>driver = e\<close>,
  or one \<open>executor = x\<close> with a known name as string or identifier; every other list, and so every
  repeated or conflicting option, is an error.
\<close>

theorem parse_arguments_grammar:
  "parse_loop default_arguments ms = Inr a \<longleftrightarrow>
     ms = [] \<and> a = default_arguments \<or>
     (\<exists>p e. ms = [NameValue p e] \<and> get_ident p = Some ''driver'' \<and>
        a = default_arguments\<lparr>driver := Some e\<rparr>) \<or>
     (\<exists>p v s x. ms = [NameValue p v] \<and> get_ident p = Some ''executor'' \<and> executor_value v = Some s \<and>
        parse_executor s = Inr x \<and> a = default_arguments\<lparr>executor := x, executor_set := True\<rparr>)"
proof -
  have second: "parse_loop r ms' = Inr a \<longleftrightarrow> ms' = [] \<and> a = r"
    if "driver r \<noteq> None \<or> executor_set r" for r :: "'a arguments" and ms'
    using that by (cases "(r, ms')" rule: parse_loop.cases) auto
  show ?thesis
  proof (cases ms)
    case (Cons m ms')
    show ?thesis
    proof (cases m)
      case (NameValue p v)
      show ?thesis
        using Cons NameValue
        by (auto simp: default_arguments_def is_ident_def second split: option.splits sum.splits)
    qed (use Cons in auto)
  qed auto
qed

fun runtime_of :: "creation \<Rightarrow> builtin_executor" where
  "runtime_of TokioSingleThread = Tokio"
| "runtime_of TokioMultiThread = Tokio"
| "runtime_of SmolNew = Smol"
| "runtime_of CompioNew = Compio"
| "runtime_of ThreadPoolUnit = ThreadPool"
| "runtime_of LiteUnit = LiteExec"

lemma macro_drive_known:
  "macro_builtin x = Some b \<Longrightarrow>
     \<exists>cr. macro_drive x k crate body = Returned (DriveBuiltin cr b crate body) \<and> runtime_of cr = b"
  by (cases x) (auto simp: macro_drive_def)

lemma default_entry:
  "\<not> wasm32 c \<Longrightarrow>
     (builtin_default c = Some Dummy \<and> Option.bind (hd (active_items (macro_exports c))) entry_executor = None) \<or>
     (\<exists>x b. Option.bind (hd (active_items (macro_exports c))) entry_executor = Some x \<and>
        builtin_default c = Some b \<and> macro_builtin x = Some b)"
  by (cases "tokio c"; cases "smol c"; cases "compio c"; cases "threadpool c"; cases "lite_feature c")
     (simp_all add: macro_exports_def builtin_default_def default_returns_def)

text \<open>What an expansion drives, given the arguments.\<close>

fun drives_selected ::
  "config \<Rightarrow> 'e arguments \<Rightarrow> 'b \<Rightarrow> ('e, 'b) drive \<Rightarrow> bool" where
  "drives_selected c a body (DriveCustom e crate b) = (driver a = Some e \<and> b = body)"
| "drives_selected c a body (DriveBuiltin cr x crate b) =
     (driver a = None \<and> b = body \<and> runtime_of cr = x \<and>
      Some x = (if executor a = ExecGlobal then builtin_default c else macro_builtin (executor a)))"

lemma choose_drive_selected:
  fixes a :: "'e arguments" and body :: 'b
  assumes "\<not> wasm32 c" and "entry = Option.bind (hd (active_items (macro_exports c))) entry_executor"
  shows "(choose_drive a k entry crate body = Returned (Inl no_default_error) \<and> driver a = None \<and>
      executor a = ExecGlobal \<and> builtin_default c = Some Dummy) \<or>
    (\<exists>d. choose_drive a k entry crate body = Returned (Inr d) \<and> drives_selected c a body d)"
proof (cases "driver a")
  case (Some e)
  then show ?thesis by (simp add: choose_drive_def drive_custom_def)
next
  case None
  show ?thesis
  proof (cases "executor a = ExecGlobal")
    case True
    consider "builtin_default c = Some Dummy" "entry = None"
      | x b where "entry = Some x" "builtin_default c = Some b" "macro_builtin x = Some b"
      using default_entry [OF assms(1)] assms(2) by auto
    then show ?thesis
    proof cases
      case (2 x b)
      from macro_drive_known [OF 2(3), of k crate body] obtain cr where
        "macro_drive x k crate body = Returned (DriveBuiltin cr b crate body :: ('e, 'b) drive)"
        "runtime_of cr = b" by blast
      with 2 None True have "choose_drive a k entry crate body = Returned (Inr (DriveBuiltin cr b crate body))"
        "drives_selected c a body (DriveBuiltin cr b crate body)" by (simp_all add: choose_drive_def)
      then show ?thesis by blast
    qed (use None True in \<open>simp add: choose_drive_def\<close>)
  next
    case False
    then obtain b where b: "macro_builtin (executor a) = Some b" by (cases "executor a") auto
    from macro_drive_known [OF b, of k crate body] obtain cr where
      d: "macro_drive (executor a) k crate body = Returned (DriveBuiltin cr b crate body :: ('e, 'b) drive)"
      "runtime_of cr = b" by blast
    have "(case executor a of ExecGlobal \<Rightarrow> entry | x \<Rightarrow> Some x) = Some (executor a)"
      using False by (cases "executor a") simp_all
    with d None False b have
      "choose_drive a k entry crate body = Returned (Inr (DriveBuiltin cr b crate body))"
      "drives_selected c a body (DriveBuiltin cr b crate body)" by (simp_all add: choose_drive_def)
    then show ?thesis by blast
  qed
qed

text \<open>
  An attribute macro drives the function by the runtime that was selected. For arguments that
  parse, on an async function, the expansion of the exported \<open>main\<close> or \<open>test\<close> never hits its
  \<open>unreachable!\<close>; it fails only when no executor is given and the configuration has none; otherwise
  it is a synchronous function, with the test attribute exactly for \<open>test\<close>, whose body runs on the
  given driver, or on the runtime named by the arguments or else by \<open>BuiltinExecutor::default\<close>, and
  that runtime is also the executor of \<open>async_rt::task\<close>.
\<close>

theorem macro_expansion:
  assumes "\<not> wasm32 c" and "parse_arguments parse_metas arguments = Inr a"
    and "parse_item item = Inr f" and "fn_async f" and "runtime_crate found = Inr crate"
  shows "case exported_macro c parse_metas parse_item found k arguments item of
      Unwound \<Rightarrow> False
    | Returned (Inl e) \<Rightarrow> driver a = None \<and> executor a = ExecGlobal \<and> builtin_default c = Some Dummy
    | Returned (Inr x) \<Rightarrow> \<not> ex_async x \<and> ex_test x = is_test k \<and> ex_sig x = fn_sig f \<and>
        drives_selected c a (fn_block f) (ex_drive x)"
  using choose_drive_selected [OF assms(1) refl, of a k crate "fn_block f"] assms
  by (auto simp: exported_macro_def expand_inner_def)

definition demo_config :: config where
  "demo_config = \<lparr>tokio = False, smol = True, compio = True, threadpool = True, lite_feature = True,
     wasm32 = False\<rparr>"

definition demo_arguments :: "unit \<Rightarrow> string + nat meta list" where
  "demo_arguments tk = Inr [NameValue (MacroPath [''executor''] True) (StrLit ''lite'')]"

definition demo_item :: "unit \<Rightarrow> string + (nat, unit, string, nat) item_fn" where
  "demo_item tk = Inr \<lparr>fn_attrs = [], fn_vis = (), fn_async = True, fn_sig = ''main'', fn_block = 7\<rparr>"

theorem macro_expansion_witness:
  "case exported_macro demo_config demo_arguments demo_item (Inr Itself) Main () () of
     Unwound \<Rightarrow> False
   | Returned (Inl e) \<Rightarrow> False
   | Returned (Inr x) \<Rightarrow> \<not> ex_async x \<and> \<not> ex_test x \<and> ex_sig x = ''main'' \<and>
       drives_selected demo_config \<lparr>executor = ExecLite, executor_set = True, driver = None\<rparr> 7 (ex_drive x)"
proof -
  let ?f = "\<lparr>fn_attrs = [], fn_vis = (), fn_async = True, fn_sig = ''main'', fn_block = 7\<rparr> ::
    (nat, unit, string, nat) item_fn"
  have 1: "\<not> wasm32 demo_config" by (simp add: demo_config_def)
  have 2: "parse_arguments demo_arguments () = Inr \<lparr>executor = ExecLite, executor_set = True, driver = None\<rparr>"
    by (simp add: parse_arguments_def demo_arguments_def default_arguments_def is_ident_def get_ident_def
        executor_value_def parse_executor_def)
  have 3: "demo_item () = Inr ?f" by (simp add: demo_item_def)
  have 4: "fn_async ?f" by simp
  have 5: "runtime_crate (Inr Itself) = Inr ''::async_rt''" by (simp add: runtime_crate_def)
  from macro_expansion [where parse_metas = demo_arguments and parse_item = demo_item,
      OF 1 2 3 4 5, of Main] show ?thesis
    by (simp add: is_test_def split: outcome.splits sum.splits)
qed

end
