(* ===== verification/Task_Context.thy ===== *)
theory Task_Context
  imports Selection
begin

text \<open>
  The ambient executor of \<open>src/src/task.rs\<close> and the wrapper of \<open>src/src/global.rs\<close>: the
  thread-local \<open>CURRENT_EXECUTOR\<close>, the guards that set and restore it, the futures that carry an
  executor with them (\<open>WithExecutor\<close>), the entry lock of the lite runtime, \<open>ConfiguredExecutor\<close>
  and \<open>BuiltinExecutor\<close> as spawners, and the \<open>Yield\<close> future. Code that runs on a thread is a
  function of the ambient state that may unwind; the state of everything else is the field \<open>rest\<close>.
\<close>

section \<open>The thread-local executor\<close>

type_synonym thread = nat

record 'w ambient =
  current :: "thread \<Rightarrow> builtin_executor option"
  entry_lock :: "thread option"
  rest :: 'w

type_synonym ('w, 'r) code = "'w ambient \<Rightarrow> 'r outcome \<times> 'w ambient"

text \<open>\<open>executor()\<close>: the thread's value, else the default of the build.\<close>

definition task_executor :: "builtin_executor \<Rightarrow> thread \<Rightarrow> 'w ambient \<Rightarrow> builtin_executor" where
  "task_executor dflt th s = (case current s th of None \<Rightarrow> dflt | Some e \<Rightarrow> e)"

text \<open>\<open>enter_executor\<close> returns the guard, which is the previous value; dropping it restores.\<close>

definition enter_executor ::
  "thread \<Rightarrow> builtin_executor \<Rightarrow> 'w ambient \<Rightarrow> builtin_executor option \<times> 'w ambient" where
  "enter_executor th e s = (current s th, s\<lparr>current := (current s)(th := Some e)\<rparr>)"

definition drop_context_guard ::
  "thread \<Rightarrow> builtin_executor option \<Rightarrow> 'w ambient \<Rightarrow> 'w ambient" where
  "drop_context_guard th prev s = s\<lparr>current := (current s)(th := prev)\<rparr>"

text \<open>\<open>with_executor\<close>: the guard is dropped when the body returns and when it unwinds.\<close>

definition with_executor ::
  "thread \<Rightarrow> builtin_executor \<Rightarrow> ('w, 'r) code \<Rightarrow> ('w, 'r) code" where
  "with_executor th e f s =
     (case enter_executor th e s of (prev, s1) \<Rightarrow>
      case f s1 of (r, s2) \<Rightarrow> (r, drop_context_guard th prev s2))"

section \<open>Futures that carry their executor\<close>

text \<open>\<open>WithExecutor\<close>; its future is \<open>None\<close> only while it is being dropped.\<close>

record 'f with_exec =
  carried :: builtin_executor
  inner_future :: "'f option"

definition with_exec_new :: "builtin_executor \<Rightarrow> 'f \<Rightarrow> 'f with_exec" where
  "with_exec_new e f = \<lparr>carried = e, inner_future = Some f\<rparr>"

text \<open>
  \<open>poll\<close>: under the carried executor, the inner future is polled; \<open>unwrap\<close> of a missing future
  unwinds.
\<close>

definition with_exec_poll ::
  "('f \<Rightarrow> 'w ambient \<Rightarrow> ('a poll \<times> 'f) outcome \<times> 'w ambient) \<Rightarrow> thread \<Rightarrow> 'f with_exec \<Rightarrow>
   ('w, 'a poll \<times> 'f with_exec) code" where
  "with_exec_poll poll th we s =
     with_executor th (carried we)
       (\<lambda>s1. case inner_future we of
          None \<Rightarrow> (Unwound, s1)
        | Some f \<Rightarrow>
            (case poll f s1 of
               (Unwound, s2) \<Rightarrow> (Unwound, s2)
             | (Returned (p, f'), s2) \<Rightarrow>
                 (Returned (p, we\<lparr>inner_future := Some f'\<rparr>), s2))) s"

text \<open>\<open>PinnedDrop\<close>: the inner future's destructor also runs under the carried executor.\<close>

definition with_exec_drop ::
  "('f \<Rightarrow> ('w, unit) code) \<Rightarrow> thread \<Rightarrow> 'f with_exec \<Rightarrow> ('w, unit) code" where
  "with_exec_drop dtor th we s =
     with_executor th (carried we)
       (\<lambda>s1. case inner_future we of None \<Rightarrow> (Returned (), s1) | Some f \<Rightarrow> dtor f s1) s"

section \<open>The entry lock\<close>

text \<open>
  \<open>set_executor\<close> takes the lock first when the executor is exclusive. The lock is held until the
  guard goes; a thread that finds it taken (by itself too, since it is not reentrant) does not
  proceed, which is \<open>None\<close>.
\<close>

definition set_executor ::
  "thread \<Rightarrow> builtin_executor \<Rightarrow> 'w ambient \<Rightarrow>
   ((builtin_executor option \<times> bool) \<times> 'w ambient) option" where
  "set_executor th e s =
     (if is_exclusive e then
        (if entry_lock s = None then
           (case enter_executor th e (s\<lparr>entry_lock := Some th\<rparr>) of (prev, s1) \<Rightarrow>
              Some ((prev, True), s1))
         else None)
      else (case enter_executor th e s of (prev, s1) \<Rightarrow> Some ((prev, False), s1)))"

text \<open>\<open>ExecutorGuard\<close> drops its fields in order: the context first, then the lock.\<close>

definition drop_executor_guard ::
  "thread \<Rightarrow> builtin_executor option \<times> bool \<Rightarrow> 'w ambient \<Rightarrow> 'w ambient" where
  "drop_executor_guard th g s =
     (let s1 = drop_context_guard th (fst g) s
      in if snd g then s1\<lparr>entry_lock := None\<rparr> else s1)"

section \<open>Configured and built-in executors\<close>

record 'e configured =
  executor :: 'e
  chosen :: "builtin_executor option"

definition configured_new :: "'e \<Rightarrow> 'e configured" where
  "configured_new e = \<lparr>executor = e, chosen = None\<rparr>"

definition with_task_executor :: "'e \<Rightarrow> builtin_executor \<Rightarrow> 'e configured" where
  "with_task_executor e t = \<lparr>executor = e, chosen = Some t\<rparr>"

text \<open>
  \<open>ConfiguredExecutor::spawn\<close>: the executor for the task is the chosen one, else the one of the
  spawning context, and travels with the future.
\<close>

definition configured_spawn ::
  "('e \<Rightarrow> 'f with_exec \<Rightarrow> 'w ambient \<Rightarrow> 'h \<times> 'w ambient) \<Rightarrow> builtin_executor \<Rightarrow> thread \<Rightarrow>
   'e configured \<Rightarrow> 'f \<Rightarrow> 'w ambient \<Rightarrow> 'h \<times> 'w ambient" where
  "configured_spawn spawn dflt th ce fut s =
     (let e = (case chosen ce of Some e \<Rightarrow> e | None \<Rightarrow> task_executor dflt th s)
      in spawn (executor ce) (with_exec_new e fut) s)"

definition configured_spawn_blocking ::
  "('e \<Rightarrow> (thread \<Rightarrow> ('w, 'r) code) \<Rightarrow> 'w ambient \<Rightarrow> 'h \<times> 'w ambient) \<Rightarrow> builtin_executor \<Rightarrow>
   thread \<Rightarrow> 'e configured \<Rightarrow> (thread \<Rightarrow> ('w, 'r) code) \<Rightarrow> 'w ambient \<Rightarrow> 'h \<times> 'w ambient" where
  "configured_spawn_blocking spawn dflt th ce f s =
     (let e = (case chosen ce of Some e \<Rightarrow> e | None \<Rightarrow> task_executor dflt th s)
      in spawn (executor ce) (\<lambda>t. with_executor t e (f t)) s)"

text \<open>
  \<open>ConfiguredExecutor::block_on\<close>: the guard of the chosen executor, if any, lives until the inner
  \<open>block_on\<close> returns or unwinds.
\<close>

definition configured_block_on ::
  "('e \<Rightarrow> 'f with_exec \<Rightarrow> 'w ambient \<Rightarrow> ('r outcome \<times> 'w ambient) option) \<Rightarrow> builtin_executor \<Rightarrow>
   thread \<Rightarrow> 'e configured \<Rightarrow> 'f \<Rightarrow> 'w ambient \<Rightarrow> ('r outcome \<times> 'w ambient) option" where
  "configured_block_on block dflt th ce fut s =
     (case chosen ce of
        None \<Rightarrow> block (executor ce) (with_exec_new (task_executor dflt th s) fut) s
      | Some e \<Rightarrow>
          (case set_executor th e s of
             None \<Rightarrow> None
           | Some (g, s1) \<Rightarrow>
               (case block (executor ce) (with_exec_new (task_executor dflt th s1) fut) s1 of
                  None \<Rightarrow> None
                | Some (r, s2) \<Rightarrow> Some (r, drop_executor_guard th g s2))))"

text \<open>
  \<open>BuiltinExecutor\<close>: the future is wrapped with the executor itself and handed to the backend.
\<close>

definition builtin_spawn ::
  "(builtin_executor \<Rightarrow> 'f with_exec \<Rightarrow> 'w ambient \<Rightarrow> 'h \<times> 'w ambient) \<Rightarrow>
   builtin_executor \<Rightarrow> 'f \<Rightarrow> 'w ambient \<Rightarrow> 'h \<times> 'w ambient" where
  "builtin_spawn backend e fut s = backend e (with_exec_new e fut) s"

definition builtin_spawn_blocking ::
  "(builtin_executor \<Rightarrow> (thread \<Rightarrow> ('w, 'r) code) \<Rightarrow> 'w ambient \<Rightarrow> 'h \<times> 'w ambient) \<Rightarrow>
   builtin_executor \<Rightarrow> (thread \<Rightarrow> ('w, 'r) code) \<Rightarrow> 'w ambient \<Rightarrow> 'h \<times> 'w ambient" where
  "builtin_spawn_blocking backend e f s = backend e (\<lambda>t. with_executor t e (f t)) s"

definition builtin_block_on ::
  "(builtin_executor \<Rightarrow> 'f with_exec \<Rightarrow> 'w ambient \<Rightarrow> ('r outcome \<times> 'w ambient) option) \<Rightarrow>
   builtin_executor \<Rightarrow> 'f \<Rightarrow> 'w ambient \<Rightarrow> ('r outcome \<times> 'w ambient) option" where
  "builtin_block_on backend e fut s = backend e (with_exec_new e fut) s"

text \<open>\<open>task::spawn\<close>: the ambient executor, as a \<open>BuiltinExecutor\<close>.\<close>

definition task_spawn ::
  "(builtin_executor \<Rightarrow> 'f with_exec \<Rightarrow> 'w ambient \<Rightarrow> 'h \<times> 'w ambient) \<Rightarrow>
   builtin_executor \<Rightarrow> thread \<Rightarrow> 'f \<Rightarrow> 'w ambient \<Rightarrow> 'h \<times> 'w ambient" where
  "task_spawn backend dflt th fut s = builtin_spawn backend (task_executor dflt th s) fut s"

section \<open>Yielding\<close>

text \<open>
  \<open>Yield\<close>: pending once, after waking its own context, then ready. \<open>yield_for\<close> awaits it the
  given number of times; its state is the iterations left and the current \<open>Yield\<close>.
\<close>

definition yield_poll :: "bool \<Rightarrow> unit poll \<times> bool \<times> bool" where
  "yield_poll yielded = (if yielded then (Ready (), True, False) else (Pending, True, True))"

text \<open>The result, the next state, and whether the context was woken.\<close>

fun yield_for_poll :: "nat \<Rightarrow> bool \<Rightarrow> unit poll \<times> (nat \<times> bool) \<times> bool" where
  "yield_for_poll 0 yielded = (Ready (), (0, yielded), False)"
| "yield_for_poll (Suc n) yielded =
     (case yield_poll yielded of
        (Pending, y, woke) \<Rightarrow> (Pending, (Suc n, y), woke)
      | (Ready u, y, woke) \<Rightarrow> yield_for_poll n False)"

fun yield_for_run :: "nat \<Rightarrow> nat \<times> bool \<Rightarrow> (unit poll \<times> bool) list" where
  "yield_for_run 0 s = []"
| "yield_for_run (Suc k) (n, y) =
     (case yield_for_poll n y of (p, s', woke) \<Rightarrow> (p, woke) # yield_for_run k s')"

section \<open>Lemmas\<close>

lemma drop_guard_current [simp]:
  "current (drop_context_guard th p s) = (current s)(th := p)"
  "entry_lock (drop_context_guard th p s) = entry_lock s"
  by (simp_all add: drop_context_guard_def)

lemma with_executor_current:
  "current (snd (with_executor th e f s)) th = current s th"
  by (simp add: with_executor_def enter_executor_def split: prod.split)

lemma with_executor_cong:
  assumes "\<And>s. current s th = Some e \<Longrightarrow> f s = g s"
  shows "with_executor th e f = with_executor th e g"
proof
  fix s
  have "f (snd (enter_executor th e s)) = g (snd (enter_executor th e s))"
    by (rule assms) (simp add: enter_executor_def)
  then show "with_executor th e f s = with_executor th e g s"
    by (cases "enter_executor th e s") (simp add: with_executor_def)
qed

text \<open>Code that leaves the ambient executor of its thread and the entry lock as it found them.\<close>

definition neutral_driver ::
  "thread \<Rightarrow> ('e \<Rightarrow> 'f \<Rightarrow> 'w ambient \<Rightarrow> ('r outcome \<times> 'w ambient) option) \<Rightarrow> bool" where
  "neutral_driver th block \<longleftrightarrow>
     (\<forall>e f s r s'. block e f s = Some (r, s') \<longrightarrow>
        current s' th = current s th \<and> entry_lock s' = entry_lock s)"

lemma yield_for_run_started: "yield_for_run (Suc k) (Suc n, True) = yield_for_run (Suc k) (n, False)"
  by (simp add: yield_poll_def)

lemma yield_for_run_fresh:
  "yield_for_run (Suc n) (n, False) = replicate n (Pending, True) @ [(Ready (), False)]"
proof (induction n)
  case (Suc n)
  have "yield_for_run (Suc (Suc n)) (Suc n, False) = (Pending, True) # yield_for_run (Suc n) (Suc n, True)"
    by (simp add: yield_poll_def)
  with Suc yield_for_run_started [of n n] show ?case by simp
qed simp

section \<open>Properties\<close>


text \<open>
  The executor context is a stack discipline. Polling or dropping a future that carries an
  executor, and running a blocking closure under one, leaves the thread's ambient executor as it
  was, on the normal and on the unwinding path, whatever the body does to it.
\<close>

theorem with_executor_restores:
  "current (snd (with_executor th e body s)) th = current s th \<and>
   current (snd (with_exec_poll poll th we s)) th = current s th \<and>
   current (snd (with_exec_drop dtor th we s)) th = current s th"
  by (simp add: with_exec_poll_def with_exec_drop_def with_executor_current)

text \<open>
  The entry lock excludes. Once a thread has entered with an exclusive executor (the lite
  runtime), no thread, the same one included, gets past \<open>set_executor\<close> with an exclusive executor,
  while non-exclusive ones still do; dropping the guard restores the thread's ambient executor and
  lets the next exclusive entry through.
\<close>

theorem exclusive_entry:
  assumes "set_executor th e s = Some (g, s1)" and "is_exclusive e"
  shows "(is_exclusive e' \<longrightarrow> set_executor th' e' s1 = None) \<and>
    (\<not> is_exclusive e' \<longrightarrow> set_executor th' e' s1 \<noteq> None) \<and>
    current (drop_executor_guard th g s1) th = current s th \<and>
    set_executor th' e' (drop_executor_guard th g s1) \<noteq> None"
  using assms
  by (auto simp: set_executor_def enter_executor_def drop_executor_guard_def Let_def
      split: if_splits)

theorem exclusive_entry_witness:
  "set_executor 2 LiteExec \<lparr>current = (\<lambda>_. None)(1 := Some LiteExec), entry_lock = Some 1, rest = ()\<rparr>
     = None"
proof -
  have "set_executor 1 LiteExec \<lparr>current = (\<lambda>_. None), entry_lock = None, rest = ()\<rparr> =
      Some ((None, True), \<lparr>current = (\<lambda>_. None)(1 := Some LiteExec), entry_lock = Some 1, rest = ()\<rparr>)"
    by (simp add: set_executor_def enter_executor_def)
  from exclusive_entry [OF this, of LiteExec 2] show ?thesis by simp
qed

text \<open>
  \<open>ConfiguredExecutor::block_on\<close> cleans up. If the wrapped executor's \<open>block_on\<close> leaves the
  calling thread's ambient executor and the entry lock as it found them, so does the configured
  one, with and without a chosen task executor, whether the future returns or unwinds.
\<close>

theorem configured_block_on_neutral:
  assumes "neutral_driver th block"
  shows "neutral_driver th (\<lambda>ce fut. configured_block_on block dflt th ce fut)"
  unfolding neutral_driver_def
proof (intro allI impI)
  fix ce fut s r s'
  assume run: "configured_block_on block dflt th ce fut s = Some (r, s')"
  note neutral = assms [unfolded neutral_driver_def, rule_format]
  show "current s' th = current s th \<and> entry_lock s' = entry_lock s"
  proof (cases "chosen ce")
    case None
    with run neutral show ?thesis by (simp add: configured_block_on_def)
  next
    case (Some e)
    with run obtain g s1 s2 where g: "set_executor th e s = Some (g, s1)"
      and b: "block (executor ce) (with_exec_new (task_executor dflt th s1) fut) s1 = Some (r, s2)"
      and s': "s' = drop_executor_guard th g s2"
      by (auto simp: configured_block_on_def split: option.splits prod.splits)
    from neutral [OF b] g s' show ?thesis
      by (auto simp: set_executor_def enter_executor_def drop_executor_guard_def Let_def
          split: if_splits)
  qed
qed

theorem configured_block_on_neutral_witness:
  "neutral_driver 1 (\<lambda>ce fut. configured_block_on (\<lambda>e f s. Some (Returned (), s)) Tokio 1 ce fut)"
  by (rule configured_block_on_neutral) (simp add: neutral_driver_def)

text \<open>
  \<open>yield_for(n)\<close> gives the executor exactly \<open>n\<close> turns: polled \<open>n + 1\<close> times it is pending
  \<open>n\<close> times, each time having woken its own context so that it is polled again, and then ready.
\<close>

theorem yield_for_turns:
  "yield_for_run (Suc amount) (amount, False) = replicate amount (Pending, True) @ [(Ready (), False)]"
  by (rule yield_for_run_fresh)

end
