(* ===== verification/Join_Handle.thy ===== *)
theory Join_Handle
  imports Prelude
begin

text \<open>
  \<open>JoinError\<close> (\<open>src/src/error.rs\<close>) and \<open>JoinHandle\<close> (\<open>src/src/lib.rs\<close>): a handle is one of four
  backend handles or empty. The backend handles belong to other crates; a record of operations
  stands for them: \<open>Optional\<close>-wrapped Tokio, smol and oneshot receivers, the Compio handle and its
  cancellation future, and the \<open>AbortHandle\<close>. Everything the crate itself adds is modelled: the
  abort-requested flags, the Compio cancellation state machine, the mapping of every backend
  outcome to a result. The world \<open>'w\<close> is the state of the executors. Wakers are left out: a poll
  is the answer it gives.
\<close>

section \<open>Errors\<close>

datatype join_error = Cancelled | Aborted | Panicked | Empty | Unknown

text \<open>What the crate asks of a \<open>tokio::task::JoinError\<close>; Compio's error is an enum it matches on.\<close>

record tokio_join_error =
  is_cancelled :: bool
  is_panic :: bool

datatype compio_join_error = CompioCancelled | CompioPanicked

definition join_error_of_tokio :: "tokio_join_error \<Rightarrow> join_error" where
  "join_error_of_tokio e =
     (if is_cancelled e then Cancelled else if is_panic e then Panicked else Unknown)"

fun join_error_of_compio :: "compio_join_error \<Rightarrow> join_error" where
  "join_error_of_compio CompioCancelled = Cancelled"
| "join_error_of_compio CompioPanicked = Panicked"

type_synonym 'a join_result = "join_error + 'a"

section \<open>The backends\<close>

record ('t, 'c, 'x, 's, 'b, 'o, 'a, 'w) task_ops =
  tk_poll :: "'t \<Rightarrow> 'w \<Rightarrow> (tokio_join_error + 'a) poll \<times> 't \<times> 'w"
  tk_some :: "'t \<Rightarrow> bool"
  tk_is_finished :: "'t \<Rightarrow> 'w \<Rightarrow> bool"
  tk_abort :: "'t \<Rightarrow> 'w \<Rightarrow> 'w"
  co_poll :: "'c \<Rightarrow> 'w \<Rightarrow> (compio_join_error + 'a) poll \<times> 'c \<times> 'w"
  co_is_finished :: "'c \<Rightarrow> 'w \<Rightarrow> bool"
  co_cancel :: "'c \<Rightarrow> 'w \<Rightarrow> 'x \<times> 'w"
  co_detach :: "'c \<Rightarrow> 'w \<Rightarrow> 'w"
  cx_poll :: "'x \<Rightarrow> 'w \<Rightarrow> 'a option poll \<times> 'x \<times> 'w"
  sm_poll :: "'s \<Rightarrow> 'w \<Rightarrow> 'a join_result option poll \<times> 's \<times> 'w"
  sm_some :: "'s \<Rightarrow> bool"
  sm_is_finished :: "'s \<Rightarrow> 'w \<Rightarrow> bool"
  sm_detach :: "'s \<Rightarrow> 'w \<Rightarrow> 'w"
  ab_abort :: "'b \<Rightarrow> 'w \<Rightarrow> 'w"
  cu_poll :: "'o \<Rightarrow> 'w \<Rightarrow> (unit + 'a join_result) poll \<times> 'o \<times> 'w"
  cu_none :: "'o \<Rightarrow> bool"
  flag_set :: "nat \<Rightarrow> 'w \<Rightarrow> bool"

text \<open>
  What the crate relies on of \<open>Optional\<close>: its future is taken out when it completes, and an empty
  one is pending. It wraps the Tokio, the smol and the oneshot future.
\<close>

definition optional_laws :: "('t, 'c, 'x, 's, 'b, 'o, 'a, 'w) task_ops \<Rightarrow> bool" where
  "optional_laws ops \<longleftrightarrow>
     (\<forall>t w r t' w'. tk_poll ops t w = (Ready r, t', w') \<longrightarrow> \<not> tk_some ops t') \<and>
     (\<forall>t w. \<not> tk_some ops t \<longrightarrow> tk_poll ops t w = (Pending, t, w)) \<and>
     (\<forall>s w r s' w'. sm_poll ops s w = (Ready r, s', w') \<longrightarrow> \<not> sm_some ops s') \<and>
     (\<forall>s w. \<not> sm_some ops s \<longrightarrow> sm_poll ops s w = (Pending, s, w)) \<and>
     (\<forall>p w r p' w'. cu_poll ops p w = (Ready r, p', w') \<longrightarrow> cu_none ops p') \<and>
     (\<forall>p w. cu_none ops p \<longrightarrow> cu_poll ops p w = (Pending, p, w))"

section \<open>The Compio handle\<close>

text \<open>\<open>InnerCompioHandle\<close>.\<close>

datatype ('c, 'x, 'a) compio_inner =
  Running "'c option" | Cancelling 'x | Settled "'a option option"

fun compio_poll ::
  "('t, 'c, 'x, 's, 'b, 'o, 'a, 'w) task_ops \<Rightarrow> ('c, 'x, 'a) compio_inner \<Rightarrow> 'w \<Rightarrow>
   'a option join_result poll \<times> ('c, 'x, 'a) compio_inner \<times> 'w" where
  "compio_poll ops (Running None) w = (Ready (Inr None), Running None, w)"
| "compio_poll ops (Running (Some h)) w =
     (case co_poll ops h w of
        (Ready (Inr v), h', w') \<Rightarrow> (Ready (Inr (Some v)), Running None, w')
      | (Ready (Inl e), h', w') \<Rightarrow> (Ready (Inl (join_error_of_compio e)), Running None, w')
      | (Pending, h', w') \<Rightarrow> (Pending, Running (Some h'), w'))"
| "compio_poll ops (Cancelling x) w =
     (case cx_poll ops x w of
        (Ready r, x', w') \<Rightarrow> (Ready (Inr r), Settled None, w')
      | (Pending, x', w') \<Rightarrow> (Pending, Cancelling x', w'))"
| "compio_poll ops (Settled (Some r)) w = (Ready (Inr r), Settled None, w)"
| "compio_poll ops (Settled None) w = (Ready (Inl Empty), Settled None, w)"

text \<open>
  \<open>start_compio_cancel\<close>: only a running handle that was not taken is cancelled, and only then the
  request flag is set; the cancellation future is polled once at once.
\<close>

fun start_compio_cancel ::
  "('t, 'c, 'x, 's, 'b, 'o, 'a, 'w) task_ops \<Rightarrow> ('c, 'x, 'a) compio_inner \<Rightarrow> bool \<Rightarrow> 'w \<Rightarrow>
   ('c, 'x, 'a) compio_inner \<times> bool \<times> 'w" where
  "start_compio_cancel ops (Running (Some h)) requested w =
     (case co_cancel ops h w of (x, w1) \<Rightarrow>
      case cx_poll ops x w1 of
        (Ready r, x', w2) \<Rightarrow> (Settled (Some r), True, w2)
      | (Pending, x', w2) \<Rightarrow> (Cancelling x', True, w2))"
| "start_compio_cancel ops st requested w = (st, requested, w)"

text \<open>\<open>InnerCompioHandle::is_finished\<close> moves a cancellation on.\<close>

fun compio_is_finished ::
  "('t, 'c, 'x, 's, 'b, 'o, 'a, 'w) task_ops \<Rightarrow> ('c, 'x, 'a) compio_inner \<Rightarrow> 'w \<Rightarrow>
   bool \<times> ('c, 'x, 'a) compio_inner \<times> 'w" where
  "compio_is_finished ops (Running None) w = (True, Running None, w)"
| "compio_is_finished ops (Running (Some h)) w = (co_is_finished ops h w, Running (Some h), w)"
| "compio_is_finished ops (Cancelling x) w =
     (case cx_poll ops x w of
        (Ready r, x', w') \<Rightarrow> (True, Settled (Some r), w')
      | (Pending, x', w') \<Rightarrow> (False, Cancelling x', w'))"
| "compio_is_finished ops (Settled r) w = (True, Settled r, w)"

section \<open>The join handle\<close>

text \<open>\<open>InnerJoinHandle\<close>; the flags of the Tokio and Compio variants are \<open>abort_requested\<close>.\<close>

datatype ('t, 'c, 'x, 's, 'b, 'o, 'a) join_handle =
  TokioHandle 't bool
| CompioHandle "('c, 'x, 'a) compio_inner" bool
| SmolHandle 's 'b
| CustomHandle 'o 'b nat
| EmptyHandle

definition tokio_handle :: "'t \<Rightarrow> ('t, 'c, 'x, 's, 'b, 'o, 'a) join_handle" where
  "tokio_handle t = TokioHandle t False"

definition compio_handle :: "'c \<Rightarrow> ('t, 'c, 'x, 's, 'b, 'o, 'a) join_handle" where
  "compio_handle c = CompioHandle (Running (Some c)) False"

definition smol_handle :: "'s \<Rightarrow> 'b \<Rightarrow> ('t, 'c, 'x, 's, 'b, 'o, 'a) join_handle" where
  "smol_handle s b = SmolHandle s b"

fun handle_abort ::
  "('t, 'c, 'x, 's, 'b, 'o, 'a, 'w) task_ops \<Rightarrow> ('t, 'c, 'x, 's, 'b, 'o, 'a) join_handle \<Rightarrow>
   'w \<Rightarrow> ('t, 'c, 'x, 's, 'b, 'o, 'a) join_handle \<times> 'w" where
  "handle_abort ops (TokioHandle t requested) w =
     (if tk_some ops t then (TokioHandle t True, tk_abort ops t w)
      else (TokioHandle t requested, w))"
| "handle_abort ops (CompioHandle st requested) w =
     (case start_compio_cancel ops st requested w of
        (st', requested', w') \<Rightarrow> (CompioHandle st' requested', w'))"
| "handle_abort ops (SmolHandle s b) w = (SmolHandle s b, ab_abort ops b w)"
| "handle_abort ops (CustomHandle p b fl) w = (CustomHandle p b fl, ab_abort ops b w)"
| "handle_abort ops EmptyHandle w = (EmptyHandle, w)"

fun handle_is_finished ::
  "('t, 'c, 'x, 's, 'b, 'o, 'a, 'w) task_ops \<Rightarrow> ('t, 'c, 'x, 's, 'b, 'o, 'a) join_handle \<Rightarrow>
   'w \<Rightarrow> bool \<times> ('t, 'c, 'x, 's, 'b, 'o, 'a) join_handle \<times> 'w" where
  "handle_is_finished ops (TokioHandle t requested) w =
     ((if tk_some ops t then tk_is_finished ops t w else True), TokioHandle t requested, w)"
| "handle_is_finished ops (CompioHandle st requested) w =
     (case compio_is_finished ops st w of
        (b, st', w') \<Rightarrow> (b, CompioHandle st' requested, w'))"
| "handle_is_finished ops (SmolHandle s b) w =
     ((if sm_some ops s then sm_is_finished ops s w else True), SmolHandle s b, w)"
| "handle_is_finished ops (CustomHandle p b fl) w =
     (flag_set ops fl w \<or> cu_none ops p, CustomHandle p b fl, w)"
| "handle_is_finished ops EmptyHandle w = (True, EmptyHandle, w)"

fun handle_poll ::
  "('t, 'c, 'x, 's, 'b, 'o, 'a, 'w) task_ops \<Rightarrow> ('t, 'c, 'x, 's, 'b, 'o, 'a) join_handle \<Rightarrow>
   'w \<Rightarrow> 'a join_result poll \<times> ('t, 'c, 'x, 's, 'b, 'o, 'a) join_handle \<times> 'w" where
  "handle_poll ops (TokioHandle t requested) w =
     (case tk_poll ops t w of
        (Pending, t', w') \<Rightarrow> (Pending, TokioHandle t' requested, w')
      | (Ready (Inr v), t', w') \<Rightarrow> (Ready (Inr v), TokioHandle t' requested, w')
      | (Ready (Inl e), t', w') \<Rightarrow>
          ((if is_cancelled e \<and> requested then Ready (Inl Aborted)
            else Ready (Inl (join_error_of_tokio e))), TokioHandle t' requested, w'))"
| "handle_poll ops (CompioHandle st requested) w =
     (case compio_poll ops st w of
        (Pending, st', w') \<Rightarrow> (Pending, CompioHandle st' requested, w')
      | (Ready (Inr (Some v)), st', w') \<Rightarrow> (Ready (Inr v), CompioHandle st' requested, w')
      | (Ready (Inr None), st', w') \<Rightarrow>
          ((if requested then Ready (Inl Aborted) else Ready (Inl Empty)),
           CompioHandle st' requested, w')
      | (Ready (Inl e), st', w') \<Rightarrow>
          ((if requested then Ready (Inl Aborted) else Ready (Inl e)),
           CompioHandle st' requested, w'))"
| "handle_poll ops (SmolHandle s b) w =
     (case sm_poll ops s w of
        (Pending, s', w') \<Rightarrow> (Pending, SmolHandle s' b, w')
      | (Ready (Some r), s', w') \<Rightarrow> (Ready r, SmolHandle s' b, w')
      | (Ready None, s', w') \<Rightarrow> (Ready (Inl Cancelled), SmolHandle s' b, w'))"
| "handle_poll ops (CustomHandle p b fl) w =
     (case cu_poll ops p w of
        (Pending, p', w') \<Rightarrow> (Pending, CustomHandle p' b fl, w')
      | (Ready (Inr r), p', w') \<Rightarrow> (Ready r, CustomHandle p' b fl, w')
      | (Ready (Inl u), p', w') \<Rightarrow> (Ready (Inl Cancelled), CustomHandle p' b fl, w'))"
| "handle_poll ops EmptyHandle w = (Ready (Inl Empty), EmptyHandle, w)"

text \<open>
  Dropping a handle detaches the task: \<open>Drop\<close> of \<open>InnerCompioHandle\<close> and of \<open>SmolTask\<close>. The other
  variants have no destructor of the crate's.
\<close>

fun handle_drop ::
  "('t, 'c, 'x, 's, 'b, 'o, 'a, 'w) task_ops \<Rightarrow> ('t, 'c, 'x, 's, 'b, 'o, 'a) join_handle \<Rightarrow>
   'w \<Rightarrow> 'w" where
  "handle_drop ops (CompioHandle (Running (Some h)) requested) w = co_detach ops h w"
| "handle_drop ops (SmolHandle s b) w = (if sm_some ops s then sm_detach ops s w else w)"
| "handle_drop ops h w = w"

text \<open>
  \<open>replace\<close> and \<open>replace_in_place\<close>: the source is left empty, the handle it had moves to the
  destination, whose old handle is dropped. The result is destination, source, world.
\<close>

definition replace_in_place ::
  "('t, 'c, 'x, 's, 'b, 'o, 'a, 'w) task_ops \<Rightarrow> ('t, 'c, 'x, 's, 'b, 'o, 'a) join_handle \<Rightarrow>
   ('t, 'c, 'x, 's, 'b, 'o, 'a) join_handle \<Rightarrow> 'w \<Rightarrow>
   ('t, 'c, 'x, 's, 'b, 'o, 'a) join_handle \<times> ('t, 'c, 'x, 's, 'b, 'o, 'a) join_handle \<times> 'w" where
  "replace_in_place ops self source w = (source, EmptyHandle, handle_drop ops self w)"

definition replace ::
  "('t, 'c, 'x, 's, 'b, 'o, 'a, 'w) task_ops \<Rightarrow> ('t, 'c, 'x, 's, 'b, 'o, 'a) join_handle \<Rightarrow>
   ('t, 'c, 'x, 's, 'b, 'o, 'a) join_handle \<Rightarrow> 'w \<Rightarrow>
   ('t, 'c, 'x, 's, 'b, 'o, 'a) join_handle \<times> 'w" where
  "replace ops self source w =
     (case replace_in_place ops self source w of
        (self', source', w') \<Rightarrow> (self', handle_drop ops source' w'))"

section \<open>Use of a handle over time\<close>

text \<open>
  A history of a handle: its owner aborts it, asks whether it is finished, or polls it; in between
  the executors run, which is any change of the world. The run collects what the polls and queries
  answered.
\<close>

datatype 'w action = Abort | Query | Poll | Progress "'w \<Rightarrow> 'w"

datatype 'a answer = Finished bool | Result "'a join_result poll"

fun handle_run ::
  "('t, 'c, 'x, 's, 'b, 'o, 'a, 'w) task_ops \<Rightarrow> 'w action list \<Rightarrow>
   ('t, 'c, 'x, 's, 'b, 'o, 'a) join_handle \<Rightarrow> 'w \<Rightarrow> 'a answer list" where
  "handle_run ops [] h w = []"
| "handle_run ops (Abort # as) h w =
     (case handle_abort ops h w of (h', w') \<Rightarrow> handle_run ops as h' w')"
| "handle_run ops (Query # as) h w =
     (case handle_is_finished ops h w of (b, h', w') \<Rightarrow> Finished b # handle_run ops as h' w')"
| "handle_run ops (Poll # as) h w =
     (case handle_poll ops h w of (r, h', w') \<Rightarrow> Result r # handle_run ops as h' w')"
| "handle_run ops (Progress f # as) h w = handle_run ops as h (f w)"

section \<open>Spent handles\<close>

text \<open>A handle whose future is gone: nothing is left to wait for.\<close>

fun spent ::
  "('t, 'c, 'x, 's, 'b, 'o, 'a, 'w) task_ops \<Rightarrow> ('t, 'c, 'x, 's, 'b, 'o, 'a) join_handle \<Rightarrow> bool"
where
  "spent ops (TokioHandle t requested) = (\<not> tk_some ops t)"
| "spent ops (CompioHandle (Running None) requested) = True"
| "spent ops (CompioHandle (Settled None) requested) = True"
| "spent ops (CompioHandle st requested) = False"
| "spent ops (SmolHandle s b) = (\<not> sm_some ops s)"
| "spent ops (CustomHandle p b fl) = cu_none ops p"
| "spent ops EmptyHandle = True"

lemma compio_spentE:
  assumes "spent ops (CompioHandle st requested)"
  obtains "st = Running None" | "st = Settled None"
  using assms by (cases st) (auto elim: spent.elims)

lemma optional_ready:
  assumes "optional_laws ops"
  shows "tk_poll ops t w = (Ready r, t', w') \<Longrightarrow> \<not> tk_some ops t'"
    and "sm_poll ops s w = (Ready r', s', w') \<Longrightarrow> \<not> sm_some ops s'"
    and "cu_poll ops p w = (Ready r'', p', w') \<Longrightarrow> cu_none ops p'"
  using assms unfolding optional_laws_def by (elim conjE; metis)+

lemma poll_ready_spent:
  assumes "optional_laws ops" and "handle_poll ops h w = (Ready r, h', w')"
  shows "spent ops h'"
proof (cases h)
  case (CompioHandle st requested)
  obtain q st' w1 where q: "compio_poll ops st w = (q, st', w1)" by (cases "compio_poll ops st w")
  with assms CompioHandle have "q \<noteq> Pending" and h': "h' = CompioHandle st' requested"
    by (auto split: poll.splits sum.splits option.splits)
  with q have "st' = Running None \<or> st' = Settled None"
    by (cases "(ops, st, w)" rule: compio_poll.cases)
      (auto split: prod.splits poll.splits sum.splits)
  with h' show ?thesis by auto
qed (use assms(2) in \<open>auto dest: optional_ready [OF assms(1)] split: prod.splits poll.splits
      sum.splits option.splits if_splits\<close>)

lemma spent_poll:
  assumes "optional_laws ops" and "spent ops h" and "handle_poll ops h w = (p, h', w')"
  shows "spent ops h'" and "p \<noteq> Ready (Inr v)"
  using assms
  by (cases h; auto simp: optional_laws_def elim!: compio_spentE split: if_splits)+

lemma spent_abort:
  assumes "spent ops h" and "handle_abort ops h w = (h', w')"
  shows "spent ops h'"
  using assms by (cases h) (auto elim!: compio_spentE)

lemma spent_query:
  assumes "spent ops h" and "handle_is_finished ops h w = (b, h', w')"
  shows "spent ops h'" and "b"
  using assms by (cases h; auto elim!: compio_spentE)+

text \<open>What a spent handle still answers.\<close>

fun quiet :: "'a answer \<Rightarrow> bool" where
  "quiet (Finished b) = b"
| "quiet (Result (Ready (Inr v))) = False"
| "quiet (Result p) = True"

lemma spent_run_quiet:
  assumes "optional_laws ops"
  shows "spent ops h \<Longrightarrow> a \<in> set (handle_run ops as h w) \<Longrightarrow> quiet a"
proof (induction as arbitrary: h w)
  case (Cons act as)
  show ?case
  proof (cases act)
    case Poll
    obtain p h' w' where p: "handle_poll ops h w = (p, h', w')" by (cases "handle_poll ops h w")
    from spent_poll(2) [OF assms Cons.prems(1) p] have "quiet (Result p)"
      by (cases p; cases "case p of Ready r \<Rightarrow> r") (auto intro: quiet.simps)
    with Cons spent_poll(1) [OF assms Cons.prems(1) p] p Poll show ?thesis by auto
  next
    case Query
    obtain b h' w' where q: "handle_is_finished ops h w = (b, h', w')"
      by (cases "handle_is_finished ops h w")
    with Cons spent_query [OF Cons.prems(1) q] Query show ?thesis by auto
  next
    case Abort
    obtain h' w' where q: "handle_abort ops h w = (h', w')" by (cases "handle_abort ops h w")
    with Cons spent_abort [OF Cons.prems(1) q] Abort show ?thesis by auto
  qed (use Cons in auto)
qed simp

section \<open>Abort requests\<close>

text \<open>Handles of the two backends that report an abort through a flag of the crate.\<close>

fun flagged :: "bool \<Rightarrow> ('t, 'c, 'x, 's, 'b, 'o, 'a) join_handle \<Rightarrow> bool" where
  "flagged r (TokioHandle t requested) = (requested = r)"
| "flagged r (CompioHandle st requested) = (requested = r)"
| "flagged r _ = False"

lemma flagged_steps:
  "handle_poll ops h w = (p, h', w') \<Longrightarrow> flagged r h \<Longrightarrow> flagged r h'"
  "handle_is_finished ops h w = (b, h', w') \<Longrightarrow> flagged r h \<Longrightarrow> flagged r h'"
  by (cases h; auto split: prod.splits poll.splits sum.splits option.splits)+

lemma flagged_abort:
  "handle_abort ops h w = (h', w') \<Longrightarrow> flagged True h \<Longrightarrow> flagged True h'"
proof (cases h)
  case (CompioHandle st requested)
  then show "handle_abort ops h w = (h', w') \<Longrightarrow> flagged True h \<Longrightarrow> flagged True h'"
    by (cases "(ops, st, requested, w)" rule: start_compio_cancel.cases)
      (auto split: prod.splits poll.splits)
qed (auto split: if_splits)

lemma compio_error_not_aborted:
  "compio_poll ops st w = (Ready (Inl e), st', w') \<Longrightarrow> e \<noteq> Aborted"
  by (cases "(ops, st, w)" rule: compio_poll.cases)
    (auto split: prod.splits poll.splits sum.splits elim: join_error_of_compio.elims)

lemma flagged_poll_result:
  "handle_poll ops h w = (Ready (Inl e), h', w') \<Longrightarrow> flagged False h \<Longrightarrow> e \<noteq> Aborted"
  "handle_poll ops h w = (Ready (Inl e), h', w') \<Longrightarrow> flagged True h \<Longrightarrow> e \<noteq> Cancelled"
  by (cases h; auto simp: join_error_of_tokio_def dest: compio_error_not_aborted
      split: prod.splits poll.splits sum.splits option.splits if_splits)+

lemma unflagged_run:
  "flagged False h \<Longrightarrow> Abort \<notin> set as \<Longrightarrow>
   Result (Ready (Inl Aborted)) \<notin> set (handle_run ops as h w)"
proof (induction as arbitrary: h w)
  case (Cons act as)
  then show ?case
    by (cases act) (auto split: prod.splits dest: flagged_steps [OF sym] flagged_poll_result [OF sym])
qed simp

lemma flagged_run:
  "flagged True h \<Longrightarrow> Result (Ready (Inl Cancelled)) \<notin> set (handle_run ops as h w)"
proof (induction as arbitrary: h w)
  case (Cons act as)
  then show ?case
    by (cases act) (auto split: prod.splits
      dest: flagged_steps [OF sym] flagged_abort [OF sym] flagged_poll_result [OF sym])
qed simp

section \<open>Compio after an abort request\<close>

fun cancel_state :: "('c, 'x, 'a) compio_inner \<Rightarrow> bool" where
  "cancel_state (Running h) = False"
| "cancel_state st = True"

lemma cancel_state_poll:
  "cancel_state st \<Longrightarrow> compio_poll ops st w = (p, st', w') \<Longrightarrow> cancel_state st'"
  by (cases "(ops, st, w)" rule: compio_poll.cases) (auto split: prod.splits poll.splits)

lemma cancel_state_query:
  "cancel_state st \<Longrightarrow> compio_is_finished ops st w = (b, st', w') \<Longrightarrow> cancel_state st'"
  by (cases st) (auto split: prod.splits poll.splits)

lemma cancel_state_cancel [simp]:
  "cancel_state st \<Longrightarrow> start_compio_cancel ops st r w = (st, r, w)"
  by (cases st) auto

lemma cancel_state_run:
  "cancel_state st \<Longrightarrow> Result (Ready (Inl e)) \<in> set (handle_run ops as (CompioHandle st True) w) \<Longrightarrow>
   e = Aborted"
proof (induction as arbitrary: st w)
  case (Cons act as)
  show ?case
  proof (cases act)
    case Poll
    obtain p st' w' where p: "compio_poll ops st w = (p, st', w')" by (cases "compio_poll ops st w")
    with Cons.prems have st': "cancel_state st'" by (auto dest: cancel_state_poll)
    with Cons.prems(2) p Cons.IH [OF st'] Poll show ?thesis
      by (auto split: poll.splits sum.splits option.splits)
  next
    case Query
    obtain b st' w' where q: "compio_is_finished ops st w = (b, st', w')"
      by (cases "compio_is_finished ops st w")
    with Cons.prems have st': "cancel_state st'" by (auto dest: cancel_state_query)
    with Cons.prems(2) q Cons.IH [OF st'] Query show ?thesis by auto
  next
    case Abort
    with Cons show ?thesis by auto
  qed (use Cons in auto)
qed simp

section \<open>Properties\<close>

text \<open>A concrete backend for the witnesses; its world says whether an abort reached the task.\<close>

definition flag_backend ::
  "(bool, unit, unit, bool, unit, bool, nat, bool) task_ops" where
  "flag_backend = \<lparr>
     tk_poll = (\<lambda>t w. if t then ((if w then Ready (Inl \<lparr>is_cancelled = True, is_panic = False\<rparr>)
       else Ready (Inr 5)), False, w) else (Pending, t, w)),
     tk_some = (\<lambda>t. t), tk_is_finished = (\<lambda>t w. w), tk_abort = (\<lambda>t w. True),
     co_poll = (\<lambda>c w. (Ready (Inr 5), c, w)), co_is_finished = (\<lambda>c w. w),
     co_cancel = (\<lambda>c w. ((), True)), co_detach = (\<lambda>c w. w), cx_poll = (\<lambda>x w. (Ready None, x, w)),
     sm_poll = (\<lambda>s w. if s then (Ready (Some (Inr 5)), False, w) else (Pending, s, w)),
     sm_some = (\<lambda>s. s), sm_is_finished = (\<lambda>s w. w), sm_detach = (\<lambda>s w. w),
     ab_abort = (\<lambda>b w. True),
     cu_poll = (\<lambda>p w. if p then (Ready (Inl ()), False, w) else (Pending, p, w)),
     cu_none = (\<lambda>p. \<not> p), flag_set = (\<lambda>n w. w)\<rparr>"

lemma flag_backend_laws: "optional_laws flag_backend"
  by (auto simp: optional_laws_def flag_backend_def split: if_splits)

text \<open>
  C8: a join handle of any backend delivers one outcome. Once a poll has been ready, no later poll
  yields a value again and every later \<open>is_finished\<close> answers true, whatever aborts, queries, polls
  and progress of the executors follow.
\<close>

theorem handle_delivers_once:
  assumes "optional_laws ops" and "handle_poll ops h w = (Ready r, h', w')"
  shows "Finished False \<notin> set (handle_run ops as h' w'') \<and>
    Result (Ready (Inr v)) \<notin> set (handle_run ops as h' w'')"
  using spent_run_quiet [OF assms(1) poll_ready_spent [OF assms], of _ as w''] by force

theorem handle_delivers_once_witness:
  "Finished False \<notin> set (handle_run flag_backend [Poll, Abort, Query, Poll]
     (TokioHandle False False) False) \<and>
   Result (Ready (Inr 5)) \<notin> set (handle_run flag_backend [Poll, Abort, Query, Poll]
     (TokioHandle False False) False)"
proof -
  have "handle_poll flag_backend (tokio_handle True) False =
      (Ready (Inr 5), TokioHandle False False, False)"
    by (simp add: flag_backend_def tokio_handle_def)
  from handle_delivers_once [OF flag_backend_laws this] show ?thesis .
qed

text \<open>
  \<open>Aborted\<close> needs a request. A Tokio or Compio handle on which \<open>abort\<close> was not called
  never answers \<open>JoinError::Aborted\<close>, however the task ended (value, panic, cancelled by the
  runtime, polled again after the end).
\<close>

theorem aborted_needs_request:
  assumes "h \<in> {tokio_handle t, compio_handle c}" and "Abort \<notin> set as"
  shows "Result (Ready (Inl Aborted)) \<notin> set (handle_run ops as h w)"
  by (rule unflagged_run) (use assms in \<open>auto simp: tokio_handle_def compio_handle_def\<close>)

theorem aborted_needs_request_witness:
  "Result (Ready (Inl Aborted)) \<notin> set (handle_run flag_backend [Progress (\<lambda>w. True), Poll, Poll]
     (tokio_handle True) False)"
  by (rule aborted_needs_request [where c = "()" and t = True]) simp_all

text \<open>
  C9: a request turns cancellation into \<open>Aborted\<close>. After \<open>abort\<close> on a Tokio or Compio handle
  whose task was still attached, no poll answers \<open>JoinError::Cancelled\<close>; on Compio every error
  from then on is \<open>Aborted\<close>, so the only other outcome is the value of a task that had completed.
\<close>

theorem cancelled_not_after_request:
  assumes "tk_some ops t"
    and "handle_abort ops (tokio_handle t) w = (h, w1)"
    and "handle_abort ops (compio_handle c) w = (h', w2)"
  shows "Result (Ready (Inl Cancelled)) \<notin> set (handle_run ops as h w') \<and>
    {e. Result (Ready (Inl e)) \<in> set (handle_run ops as h' w')} \<subseteq> {Aborted}"
proof -
  from assms(1,2) have "flagged True h" by (auto simp: tokio_handle_def)
  moreover from assms(3) obtain st where "h' = CompioHandle st True" and "cancel_state st"
    by (auto simp: compio_handle_def split: prod.splits poll.splits)
  ultimately show ?thesis by (auto dest: flagged_run cancel_state_run)
qed

theorem cancelled_not_after_request_witness:
  "Result (Ready (Inl Cancelled)) \<notin> set (handle_run flag_backend [Poll, Poll]
     (TokioHandle True True) True) \<and>
   {e. Result (Ready (Inl e)) \<in> set (handle_run flag_backend [Poll, Poll]
     (CompioHandle (Settled (Some None)) True) True)} \<subseteq> {Aborted}"
proof -
  have "tk_some flag_backend True"
    and "handle_abort flag_backend (tokio_handle True) False = (TokioHandle True True, True)"
    and "handle_abort flag_backend (compio_handle ()) False =
      (CompioHandle (Settled (Some None)) True, True)"
    by (simp_all add: flag_backend_def tokio_handle_def compio_handle_def)
  from cancelled_not_after_request [OF this, of "[Poll, Poll]" True] show ?thesis .
qed

end
