(* ===== verification/Spawned_Task.thy ===== *)
theory Spawned_Task
  imports Join_Handle
begin

text \<open>
  The task that the thread pool, lite and Wasm executors, \<open>Scope::spawn_abortable\<close> and
  \<open>ScopeExecutor::spawn_tracked\<close> put around a future: \<open>abortable_result\<close>, a oneshot channel for
  the result and a \<open>CompletionGuard\<close> for the finished flag (\<open>src/src/lib.rs\<close>,
  \<open>src/src/rt/lite.rs\<close>, \<open>src/src/rt/threadpool.rs\<close>, \<open>src/src/rt/wasm.rs\<close>,
  \<open>src/src/scoped.rs\<close>). \<open>Abortable\<close> and the oneshot channel belong to the futures crate: they
  are operations with their documented laws. The finished flag is the crate's own.
\<close>

section \<open>The futures crate\<close>

text \<open>The state a oneshot channel is in, as its receiver finds it.\<close>

datatype 'm channel = Open | Sent 'm | Closed

text \<open>
  \<open>ab_poll\<close> is \<open>Abortable::poll\<close> around a poll function; \<open>ab_request\<close> is \<open>AbortHandle::abort\<close>;
  \<open>os_send\<close>, \<open>os_drop\<close> and \<open>os_recv\<close> are the sender's \<open>send\<close> and drop and the receiver's poll.
  One record is for one spawned task; its state is part of the world \<open>'w\<close>.
\<close>

record ('f, 'r, 'm, 'w) futures_ops =
  ab_poll :: "('f \<Rightarrow> 'w \<Rightarrow> 'r poll \<times> 'f \<times> 'w) \<Rightarrow> 'f \<Rightarrow> 'w \<Rightarrow> (unit + 'r) poll \<times> 'f \<times> 'w"
  ab_request :: "'w \<Rightarrow> 'w"
  ab_requested :: "'w \<Rightarrow> bool"
  os_send :: "'m \<Rightarrow> 'w \<Rightarrow> 'w"
  os_drop :: "'w \<Rightarrow> 'w"
  os_recv :: "'w \<Rightarrow> (unit + 'm) poll \<times> 'w"
  os_state :: "'w \<Rightarrow> 'm channel"

definition futures_laws :: "('f, 'r, 'm, 'w) futures_ops \<Rightarrow> bool" where
  "futures_laws ops \<longleftrightarrow>
     (\<forall>p f w. ab_requested ops w \<longrightarrow> ab_poll ops p f w = (Ready (Inl ()), f, w)) \<and>
     (\<forall>p f w r f' w'. \<not> ab_requested ops w \<longrightarrow> p f w = (Ready r, f', w') \<longrightarrow>
        ab_poll ops p f w = (Ready (Inr r), f', w')) \<and>
     (\<forall>p f w f' w'. \<not> ab_requested ops w \<longrightarrow> p f w = (Pending, f', w') \<longrightarrow>
        ab_poll ops p f w = ((if ab_requested ops w' then Ready (Inl ()) else Pending), f', w')) \<and>
     (\<forall>w. ab_requested ops (ab_request ops w) \<and> os_state ops (ab_request ops w) = os_state ops w) \<and>
     (\<forall>m w. os_state ops w = Open \<longrightarrow> os_state ops (os_send ops m w) = Sent m) \<and>
     (\<forall>w. os_state ops w = Open \<longrightarrow> os_state ops (os_drop ops w) = Closed) \<and>
     (\<forall>w. os_state ops w = Open \<longrightarrow> os_recv ops w = (Pending, w)) \<and>
     (\<forall>w m. os_state ops w = Sent m \<longrightarrow> (\<exists>w'. os_recv ops w = (Ready (Inr m), w'))) \<and>
     (\<forall>w. os_state ops w = Closed \<longrightarrow> (\<exists>w'. os_recv ops w = (Ready (Inl ()), w')))"

section \<open>The wrapped task\<close>

text \<open>A user future's poll may unwind.\<close>

type_synonym ('f, 'a, 'w) user_poll = "'f \<Rightarrow> 'w \<Rightarrow> 'a poll outcome \<times> 'f \<times> 'w"

text \<open>\<open>AssertUnwindSafe(future).catch_unwind()\<close>: a panic becomes an error value.\<close>

definition catch_unwind ::
  "('f, 'a, 'w) user_poll \<Rightarrow> 'f \<Rightarrow> 'w \<Rightarrow> (unit + 'a) poll \<times> 'f \<times> 'w" where
  "catch_unwind user f w =
     (case user f w of
        (Unwound, f', w') \<Rightarrow> (Ready (Inl ()), f', w')
      | (Returned (Ready v), f', w') \<Rightarrow> (Ready (Inr v), f', w')
      | (Returned Pending, f', w') \<Rightarrow> (Pending, f', w'))"

definition abortable_result ::
  "('f, unit + 'a, 'm, 'w) futures_ops \<Rightarrow> ('f, 'a, 'w) user_poll \<Rightarrow> 'f \<Rightarrow> 'w \<Rightarrow>
   'a join_result poll \<times> 'f \<times> 'w" where
  "abortable_result ops user f w =
     (case ab_poll ops (catch_unwind user) f w of
        (Pending, f', w') \<Rightarrow> (Pending, f', w')
      | (Ready (Inr (Inr v)), f', w') \<Rightarrow> (Ready (Inr v), f', w')
      | (Ready (Inr (Inl u)), f', w') \<Rightarrow> (Ready (Inl Panicked), f', w')
      | (Ready (Inl u), f', w') \<Rightarrow> (Ready (Inl Aborted), f', w'))"

text \<open>The finished flag of one task and the world.\<close>

record 'w cell =
  finished :: bool
  outside :: 'w

text \<open>\<open>CompletionGuard::drop\<close>.\<close>

definition drop_completion :: "'w cell \<Rightarrow> 'w cell" where
  "drop_completion c = c\<lparr>finished := True\<rparr>"

datatype 'f wrapped = Live 'f | Over

text \<open>
  One poll of the async block: the result is sent, then the guard goes. A block that is over
  panics when it is polled again.
\<close>

fun wrapped_poll ::
  "('f, unit + 'a, 'a join_result, 'w) futures_ops \<Rightarrow> ('f, 'a, 'w) user_poll \<Rightarrow> 'f wrapped \<Rightarrow>
   'w cell \<Rightarrow> unit poll outcome \<times> 'f wrapped \<times> 'w cell" where
  "wrapped_poll ops user (Live f) c =
     (case abortable_result ops user f (outside c) of
        (Pending, f', w') \<Rightarrow> (Returned Pending, Live f', c\<lparr>outside := w'\<rparr>)
      | (Ready r, f', w') \<Rightarrow>
          (Returned (Ready ()), Over, drop_completion (c\<lparr>outside := os_send ops r w'\<rparr>)))"
| "wrapped_poll ops user Over c = (Unwound, Over, c)"

text \<open>Dropping the block before its end drops the sender and the guard.\<close>

fun wrapped_drop ::
  "('f, unit + 'a, 'a join_result, 'w) futures_ops \<Rightarrow> 'f wrapped \<Rightarrow> 'w cell \<Rightarrow> 'w cell" where
  "wrapped_drop ops (Live f) c = drop_completion (c\<lparr>outside := os_drop ops (outside c)\<rparr>)"
| "wrapped_drop ops Over c = c"

text \<open>A freshly spawned task: the block that was not polled yet, and its cell.\<close>

definition spawn_wrapped :: "'f \<Rightarrow> 'w \<Rightarrow> 'f wrapped \<times> 'w cell" where
  "spawn_wrapped f w = (Live f, \<lparr>finished = False, outside = w\<rparr>)"

section \<open>The handle of a wrapped task\<close>

text \<open>
  The \<open>CustomHandle\<close> refers to the receiver, the abort handle and the flag of the same task.
\<close>

definition handle_linked ::
  "('t, 'c, 'x, 's, 'b, 'o, 'a, 'w cell) task_ops \<Rightarrow>
   ('f, 'r, 'a join_result, 'w) futures_ops \<Rightarrow> 'b \<Rightarrow> nat \<Rightarrow> bool" where
  "handle_linked jops ops b fl \<longleftrightarrow>
     (\<forall>p c x w. \<not> cu_none jops p \<longrightarrow> os_recv ops (outside c) = (Ready x, w) \<longrightarrow>
        (\<exists>p'. cu_poll jops p c = (Ready x, p', c\<lparr>outside := w\<rparr>) \<and> cu_none jops p')) \<and>
     (\<forall>p c w. \<not> cu_none jops p \<longrightarrow> os_recv ops (outside c) = (Pending, w) \<longrightarrow>
        (\<exists>p'. cu_poll jops p c = (Pending, p', c\<lparr>outside := w\<rparr>) \<and> \<not> cu_none jops p')) \<and>
     (\<forall>c. ab_abort jops b c = c\<lparr>outside := ab_request ops (outside c)\<rparr>) \<and>
     (\<forall>c. flag_set jops fl c = finished c)"

text \<open>User code does not own the channel of its own result.\<close>

definition frames_channel :: "('f, unit + 'a, 'm, 'w) futures_ops \<Rightarrow> ('f, 'a, 'w) user_poll \<Rightarrow> bool"
where
  "frames_channel ops user \<longleftrightarrow>
     (\<forall>f w. os_state ops (snd (snd (user f w))) = os_state ops w)"

text \<open>What the handle will answer when the user future's poll answers this.\<close>

fun expected_result :: "bool \<Rightarrow> 'a poll outcome \<Rightarrow> 'a join_result" where
  "expected_result True p = Inl Aborted"
| "expected_result False Unwound = Inl Panicked"
| "expected_result False (Returned (Ready v)) = Inr v"
| "expected_result False (Returned Pending) = Inl Aborted"

section \<open>Lemmas\<close>

lemma futures_abort:
  "futures_laws ops \<Longrightarrow> ab_requested ops w \<Longrightarrow> abortable_result ops user f w = (Ready (Inl Aborted), f, w)"
  by (simp add: futures_laws_def abortable_result_def)

lemma futures_ready:
  assumes "futures_laws ops" and "\<not> ab_requested ops w"
  shows "user f w = (Returned (Ready v), f', w') \<Longrightarrow>
      abortable_result ops user f w = (Ready (Inr v), f', w')"
    and "user f w = (Unwound, f', w') \<Longrightarrow>
      abortable_result ops user f w = (Ready (Inl Panicked), f', w')"
  using assms by (auto simp: futures_laws_def abortable_result_def catch_unwind_def)

lemma futures_pending:
  assumes "futures_laws ops" and "\<not> ab_requested ops w"
    and "user f w = (Returned Pending, f', w')"
  shows "abortable_result ops user f w =
    ((if ab_requested ops w' then Ready (Inl Aborted) else Pending), f', w')"
proof -
  have "catch_unwind user f w = (Pending, f', w')"
    using assms(3) by (simp add: catch_unwind_def)
  with assms(1,2) have "ab_poll ops (catch_unwind user) f w =
      ((if ab_requested ops w' then Ready (Inl ()) else Pending), f', w')"
    unfolding futures_laws_def by (elim conjE) blast
  then show ?thesis by (simp add: abortable_result_def)
qed

lemma abortable_result_cases:
  assumes "futures_laws ops" and "user f w = (o', f1, w1)"
  shows "\<exists>f' w'. (abortable_result ops user f w =
      (Ready (expected_result (ab_requested ops w) o'), f', w') \<or>
    (abortable_result ops user f w = (Pending, f', w') \<and> o' = Returned Pending)) \<and> w' \<in> {w, w1}"
proof (cases "ab_requested ops w")
  case True
  with futures_abort [OF assms(1)] show ?thesis by force
next
  case False
  consider v where "o' = Returned (Ready v)" | "o' = Returned Pending" | "o' = Unwound"
    by (cases o') (metis poll.exhaust)+
  then show ?thesis
    using futures_ready [OF assms(1) False, of user f] futures_pending [OF assms(1) False, of user f]
      assms(2) False
    by cases (auto split: if_splits)
qed

lemma channel_recv:
  assumes "futures_laws ops"
  shows "os_state ops w = Open \<Longrightarrow> os_recv ops w = (Pending, w)"
    and "os_state ops w = Sent m \<Longrightarrow> \<exists>w'. os_recv ops w = (Ready (Inr m), w')"
    and "os_state ops w = Closed \<Longrightarrow> \<exists>w'. os_recv ops w = (Ready (Inl ()), w')"
    and "os_state ops w = Open \<Longrightarrow> os_state ops (os_send ops m w) = Sent m"
    and "os_state ops w = Open \<Longrightarrow> os_state ops (os_drop ops w) = Closed"
  using assms by (simp_all add: futures_laws_def)

lemma linked_poll:
  assumes "handle_linked jops ops b fl" and "\<not> cu_none jops p"
  shows "os_recv ops (outside c) = (Ready (Inr r), w) \<Longrightarrow>
      \<exists>p' c'. handle_poll jops (CustomHandle p b fl) c = (Ready r, CustomHandle p' b fl, c') \<and>
        cu_none jops p'"
    and "os_recv ops (outside c) = (Ready (Inl u), w) \<Longrightarrow>
      \<exists>p' c'. handle_poll jops (CustomHandle p b fl) c =
        (Ready (Inl Cancelled), CustomHandle p' b fl, c') \<and> cu_none jops p'"
    and "os_recv ops (outside c) = (Pending, w) \<Longrightarrow>
      \<exists>p'. handle_poll jops (CustomHandle p b fl) c =
        (Pending, CustomHandle p' b fl, c\<lparr>outside := w\<rparr>) \<and> \<not> cu_none jops p'"
  using assms unfolding handle_linked_def by (elim conjE, fastforce)+

lemma linked_finished:
  "handle_linked jops ops b fl \<Longrightarrow> \<not> cu_none jops p \<Longrightarrow>
   fst (handle_is_finished jops (CustomHandle p b fl) c) = finished c"
  by (simp add: handle_linked_def)

section \<open>Properties\<close>

text \<open>A concrete channel, abort flag and backend for the witnesses.\<close>

definition pair_futures ::
  "(nat, unit + nat, nat join_result, bool \<times> nat join_result channel) futures_ops" where
  "pair_futures = \<lparr>
     ab_poll = (\<lambda>p f w. if fst w then (Ready (Inl ()), f, w)
       else (case p f w of (Ready r, f', w') \<Rightarrow> (Ready (Inr r), f', w')
             | (Pending, f', w') \<Rightarrow> ((if fst w' then Ready (Inl ()) else Pending), f', w'))),
     ab_request = (\<lambda>w. (True, snd w)), ab_requested = fst,
     os_send = (\<lambda>m w. (fst w, Sent m)), os_drop = (\<lambda>w. (fst w, Closed)),
     os_recv = (\<lambda>w. (case snd w of Open \<Rightarrow> Pending | Sent m \<Rightarrow> Ready (Inr m) | Closed \<Rightarrow> Ready (Inl ()), w)),
     os_state = snd\<rparr>"

definition pair_backend ::
  "(unit, unit, unit, unit, unit, bool, nat, (bool \<times> nat join_result channel) cell) task_ops" where
  "pair_backend = \<lparr>
     tk_poll = (\<lambda>t w. (Pending, t, w)), tk_some = (\<lambda>t. False), tk_is_finished = (\<lambda>t w. True),
     tk_abort = (\<lambda>t w. w), co_poll = (\<lambda>c w. (Pending, c, w)), co_is_finished = (\<lambda>c w. True),
     co_cancel = (\<lambda>c w. ((), w)), co_detach = (\<lambda>c w. w), cx_poll = (\<lambda>x w. (Pending, x, w)),
     sm_poll = (\<lambda>s w. (Pending, s, w)), sm_some = (\<lambda>s. False), sm_is_finished = (\<lambda>s w. True),
     sm_detach = (\<lambda>s w. w), ab_abort = (\<lambda>b c. c\<lparr>outside := ab_request pair_futures (outside c)\<rparr>),
     cu_poll = (\<lambda>p c. if p then
       (case os_recv pair_futures (outside c) of
          (Ready x, w) \<Rightarrow> (Ready x, False, c\<lparr>outside := w\<rparr>)
        | (Pending, w) \<Rightarrow> (Pending, True, c\<lparr>outside := w\<rparr>)) else (Pending, p, c)),
     cu_none = (\<lambda>p. \<not> p), flag_set = (\<lambda>n c. finished c)\<rparr>"

lemma pair_futures_laws: "futures_laws pair_futures"
  by (auto simp: futures_laws_def pair_futures_def)

lemma pair_backend_linked: "handle_linked pair_backend pair_futures () 0"
  by (auto simp: handle_linked_def pair_backend_def split: poll.splits)

text \<open>A user future that counts down and returns 42, and one that panics.\<close>

fun countdown_user :: "(nat, nat, 'w) user_poll" where
  "countdown_user 0 w = (Returned (Ready 42), 0, w)"
| "countdown_user (Suc n) w = (Returned Pending, n, w)"

lemma countdown_frames: "frames_channel ops countdown_user"
  unfolding frames_channel_def
proof (intro allI)
  fix f w show "os_state ops (snd (snd (countdown_user f w))) = os_state ops w"
    by (cases f) simp_all
qed

text \<open>
  C11: the handle answers what the task did. When the wrapped task completes, its handle is
  finished and the next poll of the handle is ready with the value the user future returned, with
  \<open>Panicked\<close> if it unwound, and with \<open>Aborted\<close> if an abort had been requested, before the poll or
  by the pending future itself.
\<close>

theorem spawned_task_outcome:
  assumes "futures_laws ops" and "handle_linked jops ops b fl" and "frames_channel ops user"
    and "os_state ops (outside c) = Open" and "\<not> cu_none jops p"
    and "user f (outside c) = (out, f1, w1)"
    and "wrapped_poll ops user (Live f) c = (Returned (Ready ()), t, c')"
  shows "t = Over \<and> fst (handle_is_finished jops (CustomHandle p b fl) c') \<and>
    (\<exists>p' c''. handle_poll jops (CustomHandle p b fl) c' =
       (Ready (expected_result (ab_requested ops (outside c)) out), CustomHandle p' b fl, c'') \<and>
       cu_none jops p')"
proof -
  let ?r = "expected_result (ab_requested ops (outside c)) out"
  from abortable_result_cases [OF assms(1), where user = user, OF assms(6)] assms(7)
  obtain f' w' where ar: "abortable_result ops user f (outside c) = (Ready ?r, f', w')"
    and w': "w' \<in> {outside c, w1}"
    by (auto split: poll.splits)
  from assms(3,6) have "os_state ops w1 = os_state ops (outside c)"
    unfolding frames_channel_def by (metis snd_conv)
  with w' assms(4) have "os_state ops w' = Open" by auto
  then have sent: "os_state ops (os_send ops ?r w') = Sent ?r"
    by (rule channel_recv(4) [OF assms(1)])
  from ar assms(7) have t: "t = Over"
    and c': "c' = \<lparr>finished = True, outside = os_send ops ?r w'\<rparr>"
    by (auto simp: drop_completion_def)
  from channel_recv(2) [OF assms(1) sent] c' obtain w''
    where "os_recv ops (outside c') = (Ready (Inr ?r), w'')" by auto
  from linked_poll(1) [OF assms(2,5) this] linked_finished [OF assms(2,5)] t c'
  show ?thesis by simp
qed

theorem spawned_task_outcome_witness:
  "Over = (Over :: nat wrapped) \<and>
   fst (handle_is_finished pair_backend (CustomHandle True () 0)
     \<lparr>finished = True, outside = (False, Sent (Inr 42))\<rparr>) \<and>
   (\<exists>p' c''. handle_poll pair_backend (CustomHandle True () 0)
       \<lparr>finished = True, outside = (False, Sent (Inr 42))\<rparr> =
     (Ready (expected_result False (Returned (Ready 42))), CustomHandle p' () 0, c'') \<and>
     cu_none pair_backend p')"
proof -
  let ?c = "\<lparr>finished = False, outside = (False, Open)\<rparr> :: (bool \<times> nat join_result channel) cell"
  have 1: "os_state pair_futures (outside ?c) = Open" by (simp add: pair_futures_def)
  have 2: "\<not> cu_none pair_backend True" by (simp add: pair_backend_def)
  have 3: "countdown_user 0 (outside ?c) = (Returned (Ready 42), 0, (False, Open))" by simp
  have 4: "wrapped_poll pair_futures countdown_user (Live 0) ?c =
      (Returned (Ready ()), Over, \<lparr>finished = True, outside = (False, Sent (Inr 42))\<rparr>)"
    by (simp add: abortable_result_def catch_unwind_def pair_futures_def drop_completion_def)
  have 5: "ab_requested pair_futures (False, Open) = False" by (simp add: pair_futures_def)
  from spawned_task_outcome [OF pair_futures_laws pair_backend_linked countdown_frames 1 2 3 4]
  show ?thesis by (simp add: 5)
qed

text \<open>
  \<open>is_finished\<close> does not run ahead. While the wrapped task is pending the user future has not
  completed, the handle is not finished and a poll of it is pending.
\<close>

theorem pending_task_not_finished:
  assumes "futures_laws ops" and "handle_linked jops ops b fl" and "frames_channel ops user"
    and "os_state ops (outside c) = Open" and "\<not> cu_none jops p" and "\<not> finished c"
    and "wrapped_poll ops user (Live f) c = (Returned Pending, t, c')"
  shows "fst (user f (outside c)) = Returned Pending \<and>
    \<not> fst (handle_is_finished jops (CustomHandle p b fl) c') \<and>
    fst (handle_poll jops (CustomHandle p b fl) c') = Pending \<and> os_state ops (outside c') = Open"
proof -
  obtain out f1 w1 where u: "user f (outside c) = (out, f1, w1)"
    by (cases "user f (outside c)")
  from abortable_result_cases [OF assms(1), where user = user, OF u] assms(7)
  obtain f' w' where ar: "abortable_result ops user f (outside c) = (Pending, f', w')"
    and w': "w' \<in> {outside c, w1}" and out: "out = Returned Pending"
    by (auto split: poll.splits)
  from assms(3) u have "os_state ops w1 = os_state ops (outside c)"
    unfolding frames_channel_def by (metis snd_conv)
  with w' assms(4) have op: "os_state ops w' = Open" by auto
  from ar assms(6,7) have c': "outside c' = w'" "\<not> finished c'" by auto
  from channel_recv(1) [OF assms(1) op] c' have "os_recv ops (outside c') = (Pending, w')" by simp
  from linked_poll(3) [OF assms(2,5) this] obtain p' where
    "handle_poll jops (CustomHandle p b fl) c' = (Pending, CustomHandle p' b fl, c'\<lparr>outside := w'\<rparr>)"
    by blast
  with linked_finished [OF assms(2,5)] c' op u out show ?thesis by simp
qed

theorem pending_task_not_finished_witness:
  "fst (countdown_user 3 (False, Open :: nat join_result channel)) = Returned Pending \<and>
   \<not> fst (handle_is_finished pair_backend (CustomHandle True () 0)
      \<lparr>finished = False, outside = (False, Open)\<rparr>) \<and>
   fst (handle_poll pair_backend (CustomHandle True () 0)
      \<lparr>finished = False, outside = (False, Open)\<rparr>) = Pending \<and>
   os_state pair_futures (False, Open) = Open"
proof -
  let ?c = "\<lparr>finished = False, outside = (False, Open)\<rparr> :: (bool \<times> nat join_result channel) cell"
  have 1: "os_state pair_futures (outside ?c) = Open" by (simp add: pair_futures_def)
  have 2: "\<not> cu_none pair_backend True" by (simp add: pair_backend_def)
  have 3: "\<not> finished ?c" by simp
  have 4: "wrapped_poll pair_futures countdown_user (Live 3) ?c = (Returned Pending, Live 2, ?c)"
    by (simp add: abortable_result_def catch_unwind_def pair_futures_def eval_nat_numeral)
  from pending_task_not_finished [OF pair_futures_laws pair_backend_linked countdown_frames 1 2 3 4]
  show ?thesis by simp
qed

text \<open>
  C12: an abort stops the user future. After \<open>abort\<close> through the handle, the next poll of the task
  completes it without polling the user future (any other future in its place gives the same), and
  the handle answers \<open>Aborted\<close>.
\<close>

theorem abort_stops_user_future:
  assumes "futures_laws ops" and "handle_linked jops ops b fl" and "\<not> cu_none jops p"
    and "os_state ops (outside c) = Open"
    and "handle_abort jops (CustomHandle p b fl) c = (h, c1)"
  shows "\<exists>c2. (\<forall>user. wrapped_poll ops user (Live f) c1 = (Returned (Ready ()), Over, c2)) \<and>
    fst (handle_poll jops h c2) = Ready (Inl Aborted)"
proof -
  let ?w = "ab_request ops (outside c)"
  from assms(2,5) have h: "h = CustomHandle p b fl" and c1: "c1 = c\<lparr>outside := ?w\<rparr>"
    by (auto simp: handle_linked_def)
  from assms(1,4) have req: "ab_requested ops ?w" and op: "os_state ops ?w = Open"
    by (simp_all add: futures_laws_def)
  let ?c2 = "\<lparr>finished = True, outside = os_send ops (Inl Aborted) ?w\<rparr>"
  have "wrapped_poll ops user (Live f) c1 = (Returned (Ready ()), Over, ?c2)" for user
    using futures_abort [OF assms(1) req] c1 by (simp add: drop_completion_def)
  moreover obtain w'' where "os_recv ops (outside ?c2) = (Ready (Inr (Inl Aborted)), w'')"
    using channel_recv(2) [OF assms(1) channel_recv(4) [OF assms(1) op]] by auto
  from linked_poll(1) [OF assms(2,3) this] h
  have "fst (handle_poll jops h ?c2) = Ready (Inl Aborted)" by auto
  ultimately show ?thesis by blast
qed

theorem abort_stops_user_future_witness:
  "\<exists>c2. (\<forall>user. wrapped_poll pair_futures user (Live 3)
       \<lparr>finished = False, outside = (True, Open)\<rparr> = (Returned (Ready ()), Over, c2)) \<and>
    fst (handle_poll pair_backend (CustomHandle True () 0) c2) = Ready (Inl Aborted)"
proof -
  let ?c = "\<lparr>finished = False, outside = (False, Open)\<rparr> :: (bool \<times> nat join_result channel) cell"
  have 1: "\<not> cu_none pair_backend True" by (simp add: pair_backend_def)
  have 2: "os_state pair_futures (outside ?c) = Open" by (simp add: pair_futures_def)
  have 3: "handle_abort pair_backend (CustomHandle True () 0) ?c =
      (CustomHandle True () 0, \<lparr>finished = False, outside = (True, Open)\<rparr>)"
    by (simp add: pair_backend_def pair_futures_def)
  from abort_stops_user_future [OF pair_futures_laws pair_backend_linked 1 2 3] show ?thesis .
qed

text \<open>
  C14: a dropped task is cancelled. If the executor drops the wrapped task before its end, the
  handle is finished and answers \<open>Cancelled\<close>, even when \<open>abort\<close> had been called on this very
  handle: such a handle does not remember the request.
\<close>

theorem dropped_task_cancelled:
  assumes "futures_laws ops" and "handle_linked jops ops b fl" and "\<not> cu_none jops p"
    and "os_state ops (outside c) = Open"
    and "c1 = c \<or> (h, c1) = handle_abort jops (CustomHandle p b fl) c"
  shows "fst (handle_is_finished jops (CustomHandle p b fl) (wrapped_drop ops (Live f) c1)) \<and>
    fst (handle_poll jops (CustomHandle p b fl) (wrapped_drop ops (Live f) c1)) =
      Ready (Inl Cancelled)"
proof -
  let ?d = "wrapped_drop ops (Live f) c1"
  from assms(1,2,4,5) have "os_state ops (outside c1) = Open"
    by (auto simp: handle_linked_def futures_laws_def)
  then have "os_state ops (outside ?d) = Closed"
    using channel_recv(5) [OF assms(1)] by (simp add: drop_completion_def)
  from channel_recv(3) [OF assms(1) this] obtain w
    where "os_recv ops (outside ?d) = (Ready (Inl ()), w)" by auto
  from linked_poll(2) [OF assms(2,3) this] linked_finished [OF assms(2,3)]
  show ?thesis by (auto simp: drop_completion_def)
qed

theorem dropped_task_cancelled_witness:
  "fst (handle_is_finished pair_backend (CustomHandle True () 0)
      (wrapped_drop pair_futures (Live 3) \<lparr>finished = False, outside = (True, Open)\<rparr>)) \<and>
   fst (handle_poll pair_backend (CustomHandle True () 0)
      (wrapped_drop pair_futures (Live 3) \<lparr>finished = False, outside = (True, Open)\<rparr>)) =
   Ready (Inl Cancelled)"
proof -
  let ?c = "\<lparr>finished = False, outside = (False, Open)\<rparr> :: (bool \<times> nat join_result channel) cell"
  have 1: "\<not> cu_none pair_backend True" by (simp add: pair_backend_def)
  have 2: "os_state pair_futures (outside ?c) = Open" by (simp add: pair_futures_def)
  have 3: "\<lparr>finished = False, outside = (True, Open)\<rparr> = ?c \<or>
      (CustomHandle True () 0, \<lparr>finished = False, outside = (True, Open)\<rparr>) =
      handle_abort pair_backend (CustomHandle True () 0) ?c"
    by (simp add: pair_backend_def pair_futures_def)
  from dropped_task_cancelled [OF pair_futures_laws pair_backend_linked 1 2 3] show ?thesis .
qed

end
