(* ===== verification/File_Traits.thy ===== *)
theory File_Traits
  imports Prelude
begin

text \<open>
  The file traits of \<open>src/src/fs/io.rs\<close>: \<open>seek_position\<close> and the methods that \<open>FileRead\<close>,
  \<open>FileWrite\<close> and \<open>FileSeek\<close> provide on top of one \<open>read\<close>, \<open>write\<close> or \<open>seek\<close>. An asynchronous
  method is its completed call; the loops are partial functions, so that returning is a theorem.
  The contracts of \<open>read\<close> and \<open>write\<close> are the locales \<open>file_reader\<close> and \<open>file_writer\<close>.
\<close>

section \<open>Seeking\<close>

text \<open>\<open>std::io::SeekFrom\<close>; the offsets are \<open>i64\<close>.\<close>

datatype seek_from = Start u64 | End "64 word" | Current "64 word"

text \<open>
  \<open>seek_position\<close>. The sum is computed in \<open>i128\<close>, where a \<open>u64\<close> plus an \<open>i64\<close> cannot overflow;
  \<open>u64::try_from\<close> rejects what does not fit.
\<close>

definition try_from_u64 :: "int \<Rightarrow> u64 io_result" where
  "try_from_u64 p =
     (if 0 \<le> p \<and> p < 2 ^ 64 then Inr (word_of_int p)
      else Inl (IoError InvalidInput ''invalid seek to a negative or overflowing position''))"

fun seek_position :: "u64 \<Rightarrow> u64 \<Rightarrow> seek_from \<Rightarrow> u64 io_result" where
  "seek_position current eof (Start p) = Inr p"
| "seek_position current eof (End off) = try_from_u64 (uint eof + sint off)"
| "seek_position current eof (Current off) = try_from_u64 (uint current + sint off)"

definition rewind :: "(seek_from \<Rightarrow> ('s, u64) io) \<Rightarrow> ('s, unit) io" where
  "rewind seek = try_io (seek (Start 0)) (\<lambda>p. ok_io ())"

definition stream_position :: "(seek_from \<Rightarrow> ('s, u64) io) \<Rightarrow> ('s, u64) io" where
  "stream_position seek = seek (Current 0)"

section \<open>Reading\<close>

text \<open>A \<open>read\<close> changes the buffer and the file, and may panic.\<close>

type_synonym 's reader = "byte list \<Rightarrow> 's \<Rightarrow> nat io_result outcome \<times> byte list \<times> 's"

definition eof_error :: io_error where
  "eof_error = IoError UnexpectedEof ''failed to fill the whole buffer''"

text \<open>
  The loop of \<open>read_exact\<close>: the part of the buffer already filled, and the part still to fill.
  \<open>&mut buffer[read..]\<close> panics when \<open>read\<close> answers more than the buffer holds.
\<close>

partial_function (option) read_exact_loop ::
  "'s reader \<Rightarrow> byte list \<Rightarrow> byte list \<Rightarrow> 's \<Rightarrow>
   (unit io_result outcome \<times> byte list \<times> 's) option" where
  "read_exact_loop read filled buf s =
     (if buf = [] then Some (Returned (Inr ()), filled, s)
      else (case read buf s of
        (Unwound, buf', s') \<Rightarrow> Some (Unwound, filled @ buf', s')
      | (Returned (Inr n), buf', s') \<Rightarrow>
          (if n = 0 then Some (Returned (Inl eof_error), filled @ buf', s')
           else if n \<le> length buf' then
             read_exact_loop read (filled @ take n buf') (drop n buf') s'
           else Some (Unwound, filled @ buf', s'))
      | (Returned (Inl e), buf', s') \<Rightarrow>
          (if err_kind e = Interrupted then read_exact_loop read filled buf' s'
           else Some (Returned (Inl e), filled @ buf', s'))))"

definition read_exact ::
  "'s reader \<Rightarrow> byte list \<Rightarrow> 's \<Rightarrow> (unit io_result outcome \<times> byte list \<times> 's) option" where
  "read_exact read buf s = read_exact_loop read [] buf s"

text \<open>
  The loop of \<open>read_to_end\<close>: the initial length of the output, the scratch buffer, the output.
  \<open>&buffer[..read]\<close> panics when it is too short.
\<close>

partial_function (option) read_to_end_loop ::
  "'s reader \<Rightarrow> nat \<Rightarrow> byte list \<Rightarrow> byte list \<Rightarrow> 's \<Rightarrow>
   (nat io_result outcome \<times> byte list \<times> 's) option" where
  "read_to_end_loop read start buf out s =
     (case read buf s of
        (Unwound, buf', s') \<Rightarrow> Some (Unwound, out, s')
      | (Returned (Inr n), buf', s') \<Rightarrow>
          (if n = 0 then Some (Returned (Inr (length out - start)), out, s')
           else if n \<le> length buf' then read_to_end_loop read start buf' (out @ take n buf') s'
           else Some (Unwound, out, s'))
      | (Returned (Inl e), buf', s') \<Rightarrow>
          (if err_kind e = Interrupted then read_to_end_loop read start buf' out s'
           else Some (Returned (Inl e), out, s')))"

definition read_to_end ::
  "'s reader \<Rightarrow> byte list \<Rightarrow> 's \<Rightarrow> (nat io_result outcome \<times> byte list \<times> 's) option" where
  "read_to_end read out s =
     read_to_end_loop read (length out) (replicate (8 * 1024) 0) out s"

text \<open>
  \<open>String::from_utf8\<close> accepts well-formed UTF-8: no overlong forms, no surrogates, nothing above
  U+10FFFF. A string is its bytes.
\<close>

definition continuation :: "byte \<Rightarrow> bool" where
  "continuation b \<longleftrightarrow> 0x80 \<le> b \<and> b \<le> 0xBF"

fun utf8_valid :: "byte list \<Rightarrow> bool" where
  "utf8_valid [] = True"
| "utf8_valid (a # xs) =
     (if a \<le> 0x7F then utf8_valid xs
      else if 0xC2 \<le> a \<and> a \<le> 0xDF then
        (case xs of b # ys \<Rightarrow> continuation b \<and> utf8_valid ys | _ \<Rightarrow> False)
      else if 0xE0 \<le> a \<and> a \<le> 0xEF then
        (case xs of b # c # ys \<Rightarrow>
           continuation b \<and> continuation c \<and> (a = 0xE0 \<longrightarrow> 0xA0 \<le> b) \<and>
           (a = 0xED \<longrightarrow> b \<le> 0x9F) \<and> utf8_valid ys
         | _ \<Rightarrow> False)
      else if 0xF0 \<le> a \<and> a \<le> 0xF4 then
        (case xs of b # c # d # ys \<Rightarrow>
           continuation b \<and> continuation c \<and> continuation d \<and> (a = 0xF0 \<longrightarrow> 0x90 \<le> b) \<and>
           (a = 0xF4 \<longrightarrow> b \<le> 0x8F) \<and> utf8_valid ys
         | _ \<Rightarrow> False)
      else False)"

definition utf8_error :: io_error where
  "utf8_error = IoError InvalidData ''invalid utf-8''"

definition read_to_string ::
  "'s reader \<Rightarrow> byte list \<Rightarrow> 's \<Rightarrow> (nat io_result outcome \<times> byte list \<times> 's) option" where
  "read_to_string read out s =
     (case read_to_end read [] s of
        None \<Rightarrow> None
      | Some (Unwound, bytes, s') \<Rightarrow> Some (Unwound, out, s')
      | Some (Returned (Inl e), bytes, s') \<Rightarrow> Some (Returned (Inl e), out, s')
      | Some (Returned (Inr n), bytes, s') \<Rightarrow>
          (if utf8_valid bytes then Some (Returned (Inr n), out @ bytes, s')
           else Some (Returned (Inl utf8_error), out, s')))"

section \<open>Writing\<close>

type_synonym 's writer = "byte list \<Rightarrow> 's \<Rightarrow> nat io_result outcome \<times> 's"

definition write_zero_error :: io_error where
  "write_zero_error = IoError WriteZero ''failed to write the whole buffer''"

partial_function (option) write_all ::
  "'s writer \<Rightarrow> byte list \<Rightarrow> 's \<Rightarrow> (unit io_result outcome \<times> 's) option" where
  "write_all write buf s =
     (if buf = [] then Some (Returned (Inr ()), s)
      else (case write buf s of
        (Unwound, s') \<Rightarrow> Some (Unwound, s')
      | (Returned (Inr n), s') \<Rightarrow>
          (if n = 0 then Some (Returned (Inl write_zero_error), s')
           else if n \<le> length buf then write_all write (drop n buf) s'
           else Some (Unwound, s'))
      | (Returned (Inl e), s') \<Rightarrow>
          (if err_kind e = Interrupted then write_all write buf s'
           else Some (Returned (Inl e), s'))))"

section \<open>The contract of \<open>read\<close>\<close>

text \<open>An error that the loops pass on: an answer of \<open>read\<close> other than \<open>Interrupted\<close>.\<close>

definition read_fails :: "'s reader \<Rightarrow> io_error \<Rightarrow> 's \<Rightarrow> bool" where
  "read_fails read e s' \<longleftrightarrow>
     (\<exists>buf s buf'. read buf s = (Returned (Inl e), buf', s') \<and> err_kind e \<noteq> Interrupted)"

text \<open>
  \<open>rest\<close> is what is left to read; \<open>budget\<close> bounds how often \<open>read\<close> can still be interrupted.
\<close>

locale file_reader =
  fixes read :: "'s reader"
    and invar :: "'s \<Rightarrow> bool"
    and rest :: "'s \<Rightarrow> byte list"
    and budget :: "'s \<Rightarrow> nat"
  assumes read_returns: "invar s \<Longrightarrow> read buf s = (out, buf', s') \<Longrightarrow>
      out \<noteq> Unwound \<and> length buf' = length buf \<and> invar s'"
    and read_some: "invar s \<Longrightarrow> read buf s = (Returned (Inr n), buf', s') \<Longrightarrow>
      n \<le> length buf \<and> rest s = take n buf' @ rest s' \<and> budget s' \<le> budget s"
    and read_failure: "invar s \<Longrightarrow> read buf s = (Returned (Inl e), buf', s') \<Longrightarrow> rest s' = rest s"
    and read_zero: "invar s \<Longrightarrow> read buf s = (Returned (Inr 0), buf', s') \<Longrightarrow> buf \<noteq> [] \<Longrightarrow> rest s = []"
    and read_interrupted: "invar s \<Longrightarrow> read buf s = (Returned (Inl e), buf', s') \<Longrightarrow>
      err_kind e = Interrupted \<Longrightarrow> budget s' < budget s"
begin

lemma read_exact_loop_correct:
  assumes "invar s"
  shows "\<exists>r buf' s' k. read_exact_loop read filled buf s = Some (Returned r, filled @ buf', s') \<and>
    length buf' = length buf \<and> invar s' \<and>
    k \<le> length buf \<and> rest s = take k buf' @ rest s' \<and>
    (case r of Inr u \<Rightarrow> k = length buf
     | Inl e \<Rightarrow> (e = eof_error \<and> rest s' = [] \<and> k < length buf) \<or> read_fails read e s')"
  using assms
proof (induction "length buf + budget s" arbitrary: filled buf s rule: less_induct)
  case less
  show ?case
  proof (cases "buf = []")
    case True
    then show ?thesis using less.prems by (subst read_exact_loop.simps) simp
  next
    case ne: False
    obtain out buf1 s1 where r: "read buf s = (out, buf1, s1)" by (cases "read buf s")
    from read_returns [OF less.prems r] have out: "out \<noteq> Unwound" and len: "length buf1 = length buf"
      and inv: "invar s1" by auto
    from out consider n where "out = Returned (Inr n)" | e where "out = Returned (Inl e)"
      by (cases out) (metis old.sum.exhaust)+
    then show ?thesis
    proof cases
      case (1 n)
      from read_some [OF less.prems r [unfolded 1]] have n: "n \<le> length buf"
        and rest: "rest s = take n buf1 @ rest s1" and b: "budget s1 \<le> budget s" by auto
      show ?thesis
      proof (cases "n = 0")
        case True
        with read_zero [OF less.prems _ ne] r 1 have "rest s = []" by simp
        with rest True r 1 ne len inv show ?thesis
          by (subst read_exact_loop.simps) auto
      next
        case False
        with ne n b len have "length (drop n buf1) + budget s1 < length buf + budget s" by simp
        from less.hyps [OF this inv, of "filled @ take n buf1"] obtain r' buf' s' k where
          IH: "read_exact_loop read (filled @ take n buf1) (drop n buf1) s1 =
              Some (Returned r', (filled @ take n buf1) @ buf', s')"
            "length buf' = length (drop n buf1)" "invar s'" "k \<le> length (drop n buf1)"
            "rest s1 = take k buf' @ rest s'"
            "case r' of Inr u \<Rightarrow> k = length (drop n buf1)
             | Inl e \<Rightarrow> (e = eof_error \<and> rest s' = [] \<and> k < length (drop n buf1)) \<or>
                 read_fails read e s'"
          by blast
        have "read_exact_loop read filled buf s =
            read_exact_loop read (filled @ take n buf1) (drop n buf1) s1"
          using ne r 1 n len False by (subst read_exact_loop.simps) simp
        with IH rest n len show ?thesis
          by (intro exI [of _ r'] exI [of _ "take n buf1 @ buf'"] exI [of _ s'] exI [of _ "n + k"])
            (auto split: sum.splits)
      qed
    next
      case (2 e)
      have rest: "rest s1 = rest s" by (rule read_failure [OF less.prems r [unfolded 2]])
      show ?thesis
      proof (cases "err_kind e = Interrupted")
        case True
        from read_interrupted [OF less.prems r [unfolded 2] True] len
        have "length buf1 + budget s1 < length buf + budget s" by simp
        note IH = less.hyps [OF this inv, of filled, unfolded rest len]
        have "read_exact_loop read filled buf s = read_exact_loop read filled buf1 s1"
          using ne r 2 True by (subst read_exact_loop.simps) simp
        with IH show ?thesis by simp
      next
        case False
        then show ?thesis
          using ne r 2 inv len rest by (subst read_exact_loop.simps) (auto simp: read_fails_def)
      qed
    qed
  qed
qed

lemma read_exact_correct:
  assumes "invar s"
  shows "\<exists>r buf' s' k. read_exact read buf s = Some (Returned r, buf', s') \<and>
    length buf' = length buf \<and> invar s' \<and>
    k \<le> length buf \<and> rest s = take k buf' @ rest s' \<and>
    (case r of Inr u \<Rightarrow> k = length buf
     | Inl e \<Rightarrow> (e = eof_error \<and> rest s' = [] \<and> k < length buf) \<or> read_fails read e s')"
  using read_exact_loop_correct [OF assms, of "[]" buf] by (simp add: read_exact_def)

lemma read_to_end_loop_correct:
  assumes "invar s" and "buf \<noteq> []" and "start \<le> length out"
  shows "\<exists>r got s'. read_to_end_loop read start buf out s = Some (Returned r, out @ got, s') \<and>
    invar s' \<and> rest s = got @ rest s' \<and>
    (case r of Inr n \<Rightarrow> rest s' = [] \<and> n = length (out @ got) - start
     | Inl e \<Rightarrow> read_fails read e s')"
  using assms
proof (induction "length (rest s) + budget s" arbitrary: buf out s rule: less_induct)
  case less
  obtain o1 buf1 s1 where r: "read buf s = (o1, buf1, s1)" by (cases "read buf s")
  from read_returns [OF less.prems(1) r] have o1: "o1 \<noteq> Unwound" and len: "length buf1 = length buf"
    and inv: "invar s1" by auto
  with less.prems(2) have ne: "buf1 \<noteq> []" by auto
  from o1 consider n where "o1 = Returned (Inr n)" | e where "o1 = Returned (Inl e)"
    by (cases o1) (metis old.sum.exhaust)+
  then show ?case
  proof cases
    case (1 n)
    from read_some [OF less.prems(1) r [unfolded 1]] have n: "n \<le> length buf"
      and rest: "rest s = take n buf1 @ rest s1" and b: "budget s1 \<le> budget s" by auto
    show ?thesis
    proof (cases "n = 0")
      case True
      with read_zero [OF less.prems(1) _ less.prems(2)] r 1 have "rest s = []" by simp
      with rest True r 1 inv show ?thesis by (subst read_to_end_loop.simps) auto
    next
      case False
      with rest n b len have "length (rest s1) + budget s1 < length (rest s) + budget s" by simp
      moreover from less.prems(3) have "start \<le> length (out @ take n buf1)" by simp
      ultimately obtain r' got s' where IH: "read_to_end_loop read start buf1 (out @ take n buf1) s1 =
            Some (Returned r', (out @ take n buf1) @ got, s')" "invar s'" "rest s1 = got @ rest s'"
          "case r' of Inr m \<Rightarrow> rest s' = [] \<and> m = length ((out @ take n buf1) @ got) - start
           | Inl e \<Rightarrow> read_fails read e s'"
        using less.hyps [OF _ inv ne, of "out @ take n buf1"] by blast
      have "read_to_end_loop read start buf out s =
          read_to_end_loop read start buf1 (out @ take n buf1) s1"
        using r 1 n len False by (subst read_to_end_loop.simps) simp
      with IH rest show ?thesis
        by (intro exI [of _ r'] exI [of _ "take n buf1 @ got"] exI [of _ s'])
          (simp cong: sum.case_cong)
    qed
  next
    case (2 e)
    have rest: "rest s1 = rest s" by (rule read_failure [OF less.prems(1) r [unfolded 2]])
    show ?thesis
    proof (cases "err_kind e = Interrupted")
      case True
      from read_interrupted [OF less.prems(1) r [unfolded 2] True] rest
      have "length (rest s1) + budget s1 < length (rest s) + budget s" by simp
      note IH = less.hyps [OF this inv ne less.prems(3), unfolded rest]
      have "read_to_end_loop read start buf out s = read_to_end_loop read start buf1 out s1"
        using r 2 True by (subst read_to_end_loop.simps) simp
      with IH show ?thesis by simp
    next
      case False
      then show ?thesis
        using r 2 inv rest by (subst read_to_end_loop.simps) (auto simp: read_fails_def)
    qed
  qed
qed

lemma read_to_end_correct:
  assumes "invar s"
  shows "\<exists>r got s'. read_to_end read out s = Some (Returned r, out @ got, s') \<and>
    invar s' \<and> rest s = got @ rest s' \<and>
    (case r of Inr n \<Rightarrow> rest s' = [] \<and> n = length got | Inl e \<Rightarrow> read_fails read e s')"
  using read_to_end_loop_correct [OF assms, of "replicate (8 * 1024) 0" "length out" out]
  by (simp add: read_to_end_def cong: sum.case_cong)

lemma read_to_string_correct:
  assumes "invar s"
  shows "\<exists>r out' s'. read_to_string read out s = Some (Returned r, out', s') \<and> invar s' \<and>
    (case r of Inr n \<Rightarrow> utf8_valid (rest s) \<and> out' = out @ rest s \<and> n = length (rest s)
     | Inl e \<Rightarrow> out' = out \<and>
         ((e = utf8_error \<and> \<not> utf8_valid (rest s)) \<or> read_fails read e s'))"
proof -
  from read_to_end_correct [OF assms, of "[]"] obtain r got s' where
    *: "read_to_end read [] s = Some (Returned r, got, s')" "invar s'" "rest s = got @ rest s'"
      "case r of Inr n \<Rightarrow> rest s' = [] \<and> n = length got | Inl e \<Rightarrow> read_fails read e s'"
    by auto
  then show ?thesis by (cases r) (auto simp: read_to_string_def)
qed

end

section \<open>The contract of \<open>write\<close>\<close>

definition write_fails :: "'s writer \<Rightarrow> io_error \<Rightarrow> 's \<Rightarrow> bool" where
  "write_fails write e s' \<longleftrightarrow>
     (\<exists>buf s. write buf s = (Returned (Inl e), s') \<and> err_kind e \<noteq> Interrupted)"

text \<open>\<open>put\<close> is what the file becomes when bytes are written where its cursor stands.\<close>

locale file_writer =
  fixes wr :: "'s writer"
    and invar :: "'s \<Rightarrow> bool"
    and put :: "byte list \<Rightarrow> 's \<Rightarrow> 'v"
    and budget :: "'s \<Rightarrow> nat"
  assumes write_returns: "invar s \<Longrightarrow> wr buf s = (out, s') \<Longrightarrow> out \<noteq> Unwound \<and> invar s'"
    and write_some: "invar s \<Longrightarrow> wr buf s = (Returned (Inr n), s') \<Longrightarrow>
      n \<le> length buf \<and> (\<forall>more. put (take n buf @ more) s = put more s') \<and> budget s' \<le> budget s"
    and write_interrupted: "invar s \<Longrightarrow> wr buf s = (Returned (Inl e), s') \<Longrightarrow>
      err_kind e = Interrupted \<Longrightarrow> (\<forall>more. put more s' = put more s) \<and> budget s' < budget s"
    and write_failure: "invar s \<Longrightarrow> wr buf s = (Returned (Inl e), s') \<Longrightarrow>
      err_kind e \<noteq> Interrupted \<Longrightarrow> put [] s' = put [] s"
begin

lemma write_all_correct:
  assumes "invar s"
  shows "\<exists>r s' n. write_all wr buf s = Some (Returned r, s') \<and> invar s' \<and> n \<le> length buf \<and>
    put [] s' = put (take n buf) s \<and>
    (case r of Inr u \<Rightarrow> n = length buf
     | Inl e \<Rightarrow> e = write_zero_error \<or> write_fails wr e s')"
  using assms
proof (induction "length buf + budget s" arbitrary: buf s rule: less_induct)
  case less
  show ?case
  proof (cases "buf = []")
    case True
    then show ?thesis using less.prems by (subst write_all.simps) auto
  next
    case ne: False
    obtain o1 s1 where r: "wr buf s = (o1, s1)" by (cases "wr buf s")
    from write_returns [OF less.prems r] have o1: "o1 \<noteq> Unwound" and inv: "invar s1" by auto
    from o1 consider n where "o1 = Returned (Inr n)" | e where "o1 = Returned (Inl e)"
      by (cases o1) (metis old.sum.exhaust)+
    then show ?thesis
    proof cases
      case (1 n)
      from write_some [OF less.prems r [unfolded 1]] have n: "n \<le> length buf"
        and put: "\<And>more. put (take n buf @ more) s = put more s1" and b: "budget s1 \<le> budget s"
        by auto
      show ?thesis
      proof (cases "n = 0")
        case True
        with put [of "[]"] have "put [] s1 = put (take 0 buf) s" by simp
        with True r 1 ne inv show ?thesis by (subst write_all.simps) auto
      next
        case False
        with ne n b have "length (drop n buf) + budget s1 < length buf + budget s" by simp
        from less.hyps [OF this inv] obtain r' s' m where
          IH: "write_all wr (drop n buf) s1 = Some (Returned r', s')" "invar s'"
            "m \<le> length (drop n buf)" "put [] s' = put (take m (drop n buf)) s1"
            "case r' of Inr u \<Rightarrow> m = length (drop n buf)
             | Inl e \<Rightarrow> e = write_zero_error \<or> write_fails wr e s'"
          by blast
        have "write_all wr buf s = write_all wr (drop n buf) s1"
          using ne r 1 n False by (subst write_all.simps) simp
        moreover have "put [] s' = put (take (n + m) buf) s"
          using IH(4) put by (simp add: take_add)
        ultimately show ?thesis using IH n
          by (intro exI [of _ r'] exI [of _ s'] exI [of _ "n + m"]) (auto split: sum.splits)
      qed
    next
      case (2 e)
      show ?thesis
      proof (cases "err_kind e = Interrupted")
        case True
        from write_interrupted [OF less.prems r [unfolded 2] True]
        have "length buf + budget s1 < length buf + budget s"
          and put: "\<And>more. put more s1 = put more s" by auto
        note IH = less.hyps [OF this(1) inv, unfolded put]
        have "write_all wr buf s = write_all wr buf s1"
          using ne r 2 True by (subst write_all.simps) simp
        with IH show ?thesis by simp
      next
        case False
        with write_failure [OF less.prems r [unfolded 2]] have "put [] s1 = put (take 0 buf) s" by simp
        with False ne r 2 inv show ?thesis
          by (subst write_all.simps) (auto simp: write_fails_def)
      qed
    qed
  qed
qed

end

end
