(* ===== verification/File_Handles.thy ===== *)
theory File_Handles
  imports File_Traits Join_Handle
begin

text \<open>
  The file handles \<open>CompioFile\<close> (\<open>src/src/fs/compio.rs\<close>) and \<open>BlockingFile\<close>
  (\<open>src/src/fs/blocking.rs\<close>), with the contracts of \<open>File_Traits\<close> interpreted on them. Compio's
  positional I/O and the standard library's files are operations with laws; the cursor of a
  \<open>CompioFile\<close> is its own field, the cursor of a \<open>BlockingFile\<close> belongs to the operating system.
\<close>

section \<open>Compio\<close>

text \<open>
  \<open>co_read_at\<close> takes the scratch buffer and gives it back (\<open>BufResult\<close>); \<open>co_len\<close> is
  \<open>metadata().len()\<close>.
\<close>

record 'w compio_ops =
  co_read_at :: "byte list \<Rightarrow> u64 \<Rightarrow> 'w \<Rightarrow> nat io_result \<times> byte list \<times> 'w"
  co_write_at :: "byte list \<Rightarrow> u64 \<Rightarrow> 'w \<Rightarrow> nat io_result \<times> 'w"
  co_len :: "'w \<Rightarrow> u64 io_result \<times> 'w"

record 'w compio_file =
  disk :: 'w
  position :: u64

definition compio_file_new :: "'w \<Rightarrow> 'w compio_file" where
  "compio_file_new w = \<lparr>disk = w, position = 0\<rparr>"

definition overflow_error :: io_error where
  "overflow_error = IoError Other ''file position overflowed''"

text \<open>\<open>buffer[..read].copy_from_slice(&scratch[..read])\<close> panics when either is too short.\<close>

definition compio_read :: "'w compio_ops \<Rightarrow> 'w compio_file reader" where
  "compio_read ops buf f =
     (case co_read_at ops (replicate (length buf) 0) (position f) (disk f) of
        (Inl e, scratch, w) \<Rightarrow> (Returned (Inl e), buf, f\<lparr>disk := w\<rparr>)
      | (Inr n, scratch, w) \<Rightarrow>
          (if n \<le> length buf \<and> n \<le> length scratch then
             (case checked_add_u64 (position f) (of_nat n) of
                None \<Rightarrow>
                  (Returned (Inl overflow_error), copy_prefix (take n scratch) buf, f\<lparr>disk := w\<rparr>)
              | Some p \<Rightarrow>
                  (Returned (Inr n), copy_prefix (take n scratch) buf,
                   f\<lparr>disk := w, position := p\<rparr>))
           else (Unwound, buf, f\<lparr>disk := w\<rparr>)))"

definition compio_write :: "'w compio_ops \<Rightarrow> 'w compio_file writer" where
  "compio_write ops buf f =
     (case co_write_at ops buf (position f) (disk f) of
        (Inl e, w) \<Rightarrow> (Returned (Inl e), f\<lparr>disk := w\<rparr>)
      | (Inr n, w) \<Rightarrow>
          (case checked_add_u64 (position f) (of_nat n) of
             None \<Rightarrow> (Returned (Inl overflow_error), f\<lparr>disk := w\<rparr>)
           | Some p \<Rightarrow> (Returned (Inr n), f\<lparr>disk := w, position := p\<rparr>)))"

definition compio_flush :: "('w compio_file, unit) io" where
  "compio_flush = ok_io ()"

text \<open>The length of the file is only asked for when the seek is from the end.\<close>

definition compio_seek :: "'w compio_ops \<Rightarrow> seek_from \<Rightarrow> ('w compio_file, u64) io" where
  "compio_seek ops from f =
     (case (case from of End off \<Rightarrow> co_len ops (disk f) | _ \<Rightarrow> (Inr 0, disk f)) of
        (Inl e, w) \<Rightarrow> (Inl e, f\<lparr>disk := w\<rparr>)
      | (Inr eof, w) \<Rightarrow>
          (case seek_position (position f) eof from of
             Inl e \<Rightarrow> (Inl e, f\<lparr>disk := w\<rparr>)
           | Inr p \<Rightarrow> (Inr p, f\<lparr>disk := w, position := p\<rparr>)))"

text \<open>
  What positional I/O promises while no one else writes the file: reads return a piece of the
  contents, and nothing only at the end or into an empty buffer; writes put a prefix of the buffer
  at the offset or fail without an effect; files are shorter than \<open>2 ^ 64\<close>. \<open>contents\<close> is the file,
  \<open>interrupts\<close> bounds the interruptions to come.
\<close>

definition compio_laws ::
  "'w compio_ops \<Rightarrow> ('w \<Rightarrow> byte list) \<Rightarrow> ('w \<Rightarrow> nat) \<Rightarrow> bool" where
  "compio_laws ops contents interrupts \<longleftrightarrow>
     (\<forall>w. length (contents w) < 2 ^ 64) \<and>
     (\<forall>buf p w r buf' w'. co_read_at ops buf p w = (r, buf', w') \<longrightarrow>
        length buf' = length buf \<and> contents w' = contents w \<and> interrupts w' \<le> interrupts w) \<and>
     (\<forall>buf p w n buf' w'. co_read_at ops buf p w = (Inr n, buf', w') \<longrightarrow>
        n \<le> length buf \<and> n \<le> length (drop (unat p) (contents w)) \<and>
        take n buf' = take n (drop (unat p) (contents w)) \<and>
        (n = 0 \<longrightarrow> buf = [] \<or> drop (unat p) (contents w) = [])) \<and>
     (\<forall>buf p w e buf' w'. co_read_at ops buf p w = (Inl e, buf', w') \<longrightarrow>
        err_kind e = Interrupted \<longrightarrow> interrupts w' < interrupts w) \<and>
     (\<forall>buf p w n w'. co_write_at ops buf p w = (Inr n, w') \<longrightarrow>
        n \<le> length buf \<and> unat p + n < 2 ^ 64 \<and> interrupts w' \<le> interrupts w \<and>
        contents w' = put_at (unat p) (take n buf) (contents w)) \<and>
     (\<forall>buf p w e w'. co_write_at ops buf p w = (Inl e, w') \<longrightarrow>
        contents w' = contents w \<and> (err_kind e = Interrupted \<longrightarrow> interrupts w' < interrupts w)) \<and>
     (\<forall>w r w'. co_len ops w = (r, w') \<longrightarrow> contents w' = contents w) \<and>
     (\<forall>w l w'. co_len ops w = (Inr l, w') \<longrightarrow> unat l = length (contents w))"

lemma compio_read_at:
  assumes "compio_laws ops contents interrupts" and "co_read_at ops buf p w = (r, buf', w')"
  shows "length buf' = length buf \<and> contents w' = contents w \<and> interrupts w' \<le> interrupts w"
    and "r = Inr n \<Longrightarrow> n \<le> length buf \<and> unat p + n < 2 ^ 64 \<and>
      take n buf' = take n (drop (unat p) (contents w)) \<and>
      drop (unat p) (contents w) = take n buf' @ drop (unat p + n) (contents w) \<and>
      (n = 0 \<longrightarrow> buf = [] \<or> drop (unat p) (contents w) = [])"
    and "r = Inl e \<Longrightarrow> err_kind e = Interrupted \<Longrightarrow> interrupts w' < interrupts w"
proof -
  show "length buf' = length buf \<and> contents w' = contents w \<and> interrupts w' \<le> interrupts w"
    using assms unfolding compio_laws_def by (elim conjE) blast
  show "r = Inl e \<Longrightarrow> err_kind e = Interrupted \<Longrightarrow> interrupts w' < interrupts w"
    using assms unfolding compio_laws_def by (elim conjE) blast
  assume "r = Inr n"
  with assms have *: "n \<le> length buf \<and> n \<le> length (drop (unat p) (contents w)) \<and>
      take n buf' = take n (drop (unat p) (contents w)) \<and>
      (n = 0 \<longrightarrow> buf = [] \<or> drop (unat p) (contents w) = [])"
    unfolding compio_laws_def by (elim conjE) blast
  moreover have "length (contents w) < 2 ^ 64" using assms(1) by (simp add: compio_laws_def)
  moreover have "unat p < 2 ^ 64" using unsigned_less [of p] by simp
  ultimately have "unat p + n < 2 ^ 64" by (cases "n = 0") auto
  with * take_drop_split [of n "unat p" "contents w"]
  show "n \<le> length buf \<and> unat p + n < 2 ^ 64 \<and>
      take n buf' = take n (drop (unat p) (contents w)) \<and>
      drop (unat p) (contents w) = take n buf' @ drop (unat p + n) (contents w) \<and>
      (n = 0 \<longrightarrow> buf = [] \<or> drop (unat p) (contents w) = [])" by auto
qed

lemma compio_write_at:
  assumes "compio_laws ops contents interrupts" and "co_write_at ops buf p w = (r, w')"
  shows "r = Inr n \<Longrightarrow> n \<le> length buf \<and> unat p + n < 2 ^ 64 \<and> interrupts w' \<le> interrupts w \<and>
      contents w' = put_at (unat p) (take n buf) (contents w)"
    and "r = Inl e \<Longrightarrow> contents w' = contents w"
    and "r = Inl e \<Longrightarrow> err_kind e = Interrupted \<Longrightarrow> interrupts w' < interrupts w"
  using assms unfolding compio_laws_def by (elim conjE, blast)+

lemma checked_add_position:
  assumes "unat p + n < 2 ^ 64"
  shows "checked_add_u64 p (of_nat n) = Some (p + of_nat n)" and "unat (p + of_nat n) = unat p + n"
proof -
  from assms have "unat (of_nat n :: u64) = n" by (intro unat_of_nat_u64) simp
  with assms show "checked_add_u64 p (of_nat n) = Some (p + of_nat n)"
    and "unat (p + of_nat n) = unat p + n"
    by (simp_all add: checked_add_u64_def unat_add_no_wrap)
qed

text \<open>What is left to read, and what the file becomes.\<close>

definition compio_rest :: "('w \<Rightarrow> byte list) \<Rightarrow> 'w compio_file \<Rightarrow> byte list" where
  "compio_rest contents f = drop (unat (position f)) (contents (disk f))"

definition compio_put :: "('w \<Rightarrow> byte list) \<Rightarrow> byte list \<Rightarrow> 'w compio_file \<Rightarrow> byte list" where
  "compio_put contents b f = put_at (unat (position f)) b (contents (disk f))"

lemma compio_read_Inr:
  assumes "compio_laws ops contents interrupts" and "compio_read ops buf f = (Returned (Inr n), buf', f')"
  shows "n \<le> length buf \<and> compio_rest contents f = take n buf' @ compio_rest contents f' \<and>
    interrupts (disk f') \<le> interrupts (disk f) \<and> length buf' = length buf \<and>
    (n = 0 \<longrightarrow> buf = [] \<or> compio_rest contents f = [])"
proof -
  obtain r scratch w where ra: "co_read_at ops (replicate (length buf) 0) (position f) (disk f) = (r, scratch, w)"
    by (cases "co_read_at ops (replicate (length buf) 0) (position f) (disk f)")
  note c = compio_read_at [OF assms(1) ra]
  from assms(2) ra have r: "r = Inr n" and n: "n \<le> length buf" "n \<le> length scratch"
    by (auto simp: compio_read_def split: sum.splits if_splits option.splits)
  from c(2) [OF r] have "unat (position f) + n < 2 ^ 64" by simp
  note p = checked_add_position [OF this]
  have buf': "buf' = copy_prefix (take n scratch) buf"
    and f': "f' = f\<lparr>disk := w, position := position f + of_nat n\<rparr>"
    using assms(2) ra r n p(1) by (simp_all add: compio_read_def)
  have t: "take n buf' = take n scratch" and "length buf' = length buf"
    using n by (simp_all add: buf' take_copy_prefix_n)
  note c2 = c(2) [OF r]
  have d: "drop (unat (position f)) (contents (disk f)) =
      take n scratch @ drop (unat (position f) + n) (contents (disk f))"
    using c2 by (elim conjE)
  have z: "n = 0 \<longrightarrow> buf = [] \<or> drop (unat (position f)) (contents (disk f)) = []"
    using c2 by (elim conjE) (simp only: replicate_empty length_0_conv)
  have "compio_rest contents f' = drop (unat (position f) + n) (contents (disk f))"
    using p(2) c(1) by (simp add: compio_rest_def f')
  then have "compio_rest contents f = take n buf' @ compio_rest contents f'"
    using d t by (simp only: compio_rest_def)
  moreover have "interrupts (disk f') \<le> interrupts (disk f)" using c(1) by (simp add: f')
  moreover have "n = 0 \<longrightarrow> buf = [] \<or> compio_rest contents f = []"
    using z by (simp only: compio_rest_def)
  ultimately show ?thesis using n(1) \<open>length buf' = length buf\<close> by blast
qed

lemma compio_read_Inl:
  assumes "compio_laws ops contents interrupts" and "compio_read ops buf f = (Returned (Inl e), buf', f')"
  shows "compio_rest contents f' = compio_rest contents f \<and> length buf' = length buf \<and>
    (err_kind e = Interrupted \<longrightarrow> interrupts (disk f') < interrupts (disk f))"
proof -
  obtain r scratch w where ra: "co_read_at ops (replicate (length buf) 0) (position f) (disk f) = (r, scratch, w)"
    by (cases "co_read_at ops (replicate (length buf) 0) (position f) (disk f)")
  note c = compio_read_at [OF assms(1) ra]
  have "r = Inl e"
  proof (cases r)
    case (Inr n)
    from c(2) [OF this] have "unat (position f) + n < 2 ^ 64" by simp
    with assms(2) ra Inr checked_add_position(1) [OF this] show ?thesis
      by (auto simp: compio_read_def split: if_splits)
  qed (use assms(2) ra in \<open>auto simp: compio_read_def\<close>)
  with c assms(2) ra show ?thesis
    by (auto simp: compio_read_def compio_rest_def)
qed

lemma compio_read_not_unwound:
  assumes "compio_laws ops contents interrupts" and "compio_read ops buf f = (out, buf', f')"
  shows "out \<noteq> Unwound"
proof -
  obtain r scratch w where ra: "co_read_at ops (replicate (length buf) 0) (position f) (disk f) = (r, scratch, w)"
    by (cases "co_read_at ops (replicate (length buf) 0) (position f) (disk f)")
  from compio_read_at(1,2) [OF assms(1) ra] assms(2) ra show ?thesis
    by (auto simp: compio_read_def split: sum.splits if_splits option.splits)
qed

interpretation compio_reader: file_reader "compio_read ops"
  "\<lambda>f. compio_laws ops contents interrupts" "compio_rest contents" "\<lambda>f. interrupts (disk f)"
  for ops :: "'w compio_ops" and contents interrupts
proof
  fix f :: "'w compio_file" and buf out buf' f'
  assume laws: "compio_laws ops contents interrupts" and r: "compio_read ops buf f = (out, buf', f')"
  from compio_read_not_unwound [OF this] consider n where "out = Returned (Inr n)"
    | e where "out = Returned (Inl e)"
    by (cases out) (metis old.sum.exhaust)+
  then show "out \<noteq> Unwound \<and> length buf' = length buf \<and> compio_laws ops contents interrupts"
    using compio_read_Inr [OF laws] compio_read_Inl [OF laws] r laws by cases blast+
qed (blast dest: compio_read_Inr compio_read_Inl)+

lemma compio_write_Inr:
  assumes "compio_laws ops contents interrupts" and "compio_write ops buf f = (Returned (Inr n), f')"
  shows "n \<le> length buf \<and> interrupts (disk f') \<le> interrupts (disk f) \<and>
    compio_put contents (take n buf @ later) f = compio_put contents later f'"
proof -
  obtain r w where wa: "co_write_at ops buf (position f) (disk f) = (r, w)"
    by (cases "co_write_at ops buf (position f) (disk f)")
  from assms(2) wa have r: "r = Inr n"
    by (auto simp: compio_write_def split: sum.splits option.splits)
  note c = compio_write_at(1) [OF assms(1) wa r]
  then have "unat (position f) + n < 2 ^ 64" by simp
  note p = checked_add_position [OF this]
  with assms(2) wa r have "f' = f\<lparr>disk := w, position := position f + of_nat n\<rparr>"
    by (simp add: compio_write_def)
  with c p(2) show ?thesis by (simp add: compio_put_def put_at_append min_absorb2)
qed

lemma compio_write_Inl:
  assumes "compio_laws ops contents interrupts" and "compio_write ops buf f = (Returned (Inl e), f')"
  shows "compio_put contents later f' = compio_put contents later f \<and>
    (err_kind e = Interrupted \<longrightarrow> interrupts (disk f') < interrupts (disk f))"
proof -
  obtain r w where wa: "co_write_at ops buf (position f) (disk f) = (r, w)"
    by (cases "co_write_at ops buf (position f) (disk f)")
  note c = compio_write_at [OF assms(1) wa]
  have "r = Inl e"
  proof (cases r)
    case (Inr n)
    from c(1) [OF this] have "unat (position f) + n < 2 ^ 64" by simp
    with assms(2) wa Inr checked_add_position(1) [OF this] show ?thesis
      by (simp add: compio_write_def)
  qed (use assms(2) wa in \<open>auto simp: compio_write_def\<close>)
  with c assms(2) wa show ?thesis by (auto simp: compio_write_def compio_put_def)
qed

interpretation compio_writer: file_writer "compio_write ops"
  "\<lambda>f. compio_laws ops contents interrupts" "compio_put contents" "\<lambda>f. interrupts (disk f)"
  for ops :: "'w compio_ops" and contents interrupts
proof
  fix f :: "'w compio_file" and buf out f'
  assume laws: "compio_laws ops contents interrupts" and r: "compio_write ops buf f = (out, f')"
  then show "out \<noteq> Unwound \<and> compio_laws ops contents interrupts"
    by (auto simp: compio_write_def split: prod.splits sum.splits option.splits)
qed (blast dest: compio_write_Inr compio_write_Inl)+

section \<open>Blocking files\<close>

text \<open>
  The standard library's file behind a shared reference, and the executor: \<open>bl_join\<close> says whether
  the executor runs the job and delivers its result, or loses it before it ran.
\<close>

record 'w blocking_ops =
  bl_read :: "byte list \<Rightarrow> 'w \<Rightarrow> nat io_result \<times> byte list \<times> 'w"
  bl_write :: "byte list \<Rightarrow> 'w \<Rightarrow> nat io_result \<times> 'w"
  bl_flush :: "'w \<Rightarrow> unit io_result \<times> 'w"
  bl_seek :: "seek_from \<Rightarrow> 'w \<Rightarrow> u64 io_result \<times> 'w"
  bl_join :: "'w \<Rightarrow> join_error option \<times> 'w"

fun join_error_text :: "join_error \<Rightarrow> string" where
  "join_error_text Cancelled = ''The task was cancelled''"
| "join_error_text Aborted = ''The task was aborted''"
| "join_error_text Panicked = ''The task panicked''"
| "join_error_text Empty = ''The task was empty''"
| "join_error_text Unknown = ''An unknown error occurred''"

text \<open>\<open>join_error\<close>, and \<open>executor.spawn_blocking(job).await.map_err(join_error)\<close>.\<close>

definition join_io_error :: "join_error \<Rightarrow> io_error" where
  "join_io_error e = IoError Other (join_error_text e)"

definition run_blocking :: "'w blocking_ops \<Rightarrow> ('w \<Rightarrow> 'a \<times> 'w) \<Rightarrow> ('w, 'a) io" where
  "run_blocking ops job w =
     (case bl_join ops w of
        (Some e, w1) \<Rightarrow> (Inl (join_io_error e), w1)
      | (None, w1) \<Rightarrow> (case job w1 of (r, w2) \<Rightarrow> (Inr r, w2)))"

definition blocking_read :: "'w blocking_ops \<Rightarrow> 'w reader" where
  "blocking_read ops buf w =
     (case run_blocking ops (\<lambda>w1. case bl_read ops (replicate (length buf) 0) w1 of
          (r, scratch, w2) \<Rightarrow> ((r, scratch), w2)) w of
        (Inl e, w') \<Rightarrow> (Returned (Inl e), buf, w')
      | (Inr (Inl e, scratch), w') \<Rightarrow> (Returned (Inl e), buf, w')
      | (Inr (Inr n, scratch), w') \<Rightarrow>
          (if n \<le> length buf \<and> n \<le> length scratch then
             (Returned (Inr n), copy_prefix (take n scratch) buf, w')
           else (Unwound, buf, w')))"

text \<open>\<open>map_err(join_error)?\<close> on a nested result.\<close>

definition flatten_io :: "('w, 'a io_result) io \<Rightarrow> ('w, 'a) io" where
  "flatten_io m w = (case m w of (Inl e, w') \<Rightarrow> (Inl e, w') | (Inr r, w') \<Rightarrow> (r, w'))"

definition blocking_write :: "'w blocking_ops \<Rightarrow> 'w writer" where
  "blocking_write ops buf w =
     (case flatten_io (run_blocking ops (bl_write ops buf)) w of (r, w') \<Rightarrow> (Returned r, w'))"

definition blocking_flush :: "'w blocking_ops \<Rightarrow> ('w, unit) io" where
  "blocking_flush ops = flatten_io (run_blocking ops (bl_flush ops))"

definition blocking_seek :: "'w blocking_ops \<Rightarrow> seek_from \<Rightarrow> ('w, u64) io" where
  "blocking_seek ops from = flatten_io (run_blocking ops (bl_seek ops from))"

text \<open>The same promises for the standard library's file; its cursor is \<open>at\<close>.\<close>

definition blocking_laws ::
  "'w blocking_ops \<Rightarrow> ('w \<Rightarrow> byte list) \<Rightarrow> ('w \<Rightarrow> nat) \<Rightarrow> ('w \<Rightarrow> nat) \<Rightarrow> bool" where
  "blocking_laws ops contents at interrupts \<longleftrightarrow>
     (\<forall>w r w'. bl_join ops w = (r, w') \<longrightarrow>
        contents w' = contents w \<and> at w' = at w \<and> interrupts w' \<le> interrupts w) \<and>
     (\<forall>buf w n buf' w'. bl_read ops buf w = (Inr n, buf', w') \<longrightarrow>
        n \<le> length buf \<and> length buf' = length buf \<and> contents w' = contents w \<and> at w' = at w + n \<and>
        n \<le> length (drop (at w) (contents w)) \<and> take n buf' = take n (drop (at w) (contents w)) \<and>
        (n = 0 \<longrightarrow> buf = [] \<or> drop (at w) (contents w) = []) \<and> interrupts w' \<le> interrupts w) \<and>
     (\<forall>buf w e buf' w'. bl_read ops buf w = (Inl e, buf', w') \<longrightarrow>
        contents w' = contents w \<and> at w' = at w \<and>
        (err_kind e = Interrupted \<longrightarrow> interrupts w' < interrupts w)) \<and>
     (\<forall>buf w n w'. bl_write ops buf w = (Inr n, w') \<longrightarrow>
        n \<le> length buf \<and> at w' = at w + n \<and> interrupts w' \<le> interrupts w \<and>
        contents w' = put_at (at w) (take n buf) (contents w)) \<and>
     (\<forall>buf w e w'. bl_write ops buf w = (Inl e, w') \<longrightarrow>
        contents w' = contents w \<and> at w' = at w \<and>
        (err_kind e = Interrupted \<longrightarrow> interrupts w' < interrupts w))"

definition blocking_rest :: "('w \<Rightarrow> byte list) \<Rightarrow> ('w \<Rightarrow> nat) \<Rightarrow> 'w \<Rightarrow> byte list" where
  "blocking_rest contents at w = drop (at w) (contents w)"

definition blocking_put :: "('w \<Rightarrow> byte list) \<Rightarrow> ('w \<Rightarrow> nat) \<Rightarrow> byte list \<Rightarrow> 'w \<Rightarrow> byte list" where
  "blocking_put contents at b w = put_at (at w) b (contents w)"

lemma blocking_join:
  "blocking_laws ops contents at interrupts \<Longrightarrow> bl_join ops w = (r, w') \<Longrightarrow>
   contents w' = contents w \<and> at w' = at w \<and> interrupts w' \<le> interrupts w"
  unfolding blocking_laws_def by (elim conjE) metis

lemma blocking_read_ok:
  "blocking_laws ops contents at interrupts \<Longrightarrow> bl_read ops buf w = (Inr n, buf', w') \<Longrightarrow>
   n \<le> length buf \<and> length buf' = length buf \<and> contents w' = contents w \<and> at w' = at w + n \<and>
   n \<le> length (drop (at w) (contents w)) \<and> take n buf' = take n (drop (at w) (contents w)) \<and>
   (n = 0 \<longrightarrow> buf = [] \<or> drop (at w) (contents w) = []) \<and> interrupts w' \<le> interrupts w"
  unfolding blocking_laws_def by (elim conjE) metis

lemma blocking_read_err:
  "blocking_laws ops contents at interrupts \<Longrightarrow> bl_read ops buf w = (Inl e, buf', w') \<Longrightarrow>
   contents w' = contents w \<and> at w' = at w \<and>
   (err_kind e = Interrupted \<longrightarrow> interrupts w' < interrupts w)"
  unfolding blocking_laws_def by (elim conjE) metis

lemma blocking_write_ok:
  "blocking_laws ops contents at interrupts \<Longrightarrow> bl_write ops buf w = (Inr n, w') \<Longrightarrow>
   n \<le> length buf \<and> at w' = at w + n \<and> interrupts w' \<le> interrupts w \<and>
   contents w' = put_at (at w) (take n buf) (contents w)"
  unfolding blocking_laws_def by (elim conjE) metis

lemma blocking_write_err:
  "blocking_laws ops contents at interrupts \<Longrightarrow> bl_write ops buf w = (Inl e, w') \<Longrightarrow>
   contents w' = contents w \<and> at w' = at w \<and>
   (err_kind e = Interrupted \<longrightarrow> interrupts w' < interrupts w)"
  unfolding blocking_laws_def by (elim conjE) metis

lemma join_io_error_kind [simp]: "err_kind (join_io_error e) = Other"
  by (simp add: join_io_error_def)

text \<open>What one call of \<open>read\<close> does, by cases.\<close>

lemma blocking_read_cases:
  assumes laws: "blocking_laws ops contents at interrupts" and r: "blocking_read ops buf w = (out, buf', w')"
  obtains (lost) e where "out = Returned (Inl (join_io_error e))" "buf' = buf"
      "contents w' = contents w" "at w' = at w"
  | (failed) e where "out = Returned (Inl e)" "buf' = buf" "contents w' = contents w" "at w' = at w"
      "err_kind e = Interrupted \<longrightarrow> interrupts w' < interrupts w"
  | (got) n where "out = Returned (Inr n)" "length buf' = length buf" "n \<le> length buf"
      "contents w' = contents w" "at w' = at w + n" "n \<le> length (drop (at w) (contents w))"
      "take n buf' = take n (drop (at w) (contents w))"
      "n = 0 \<longrightarrow> buf = [] \<or> drop (at w) (contents w) = []" "interrupts w' \<le> interrupts w"
proof (cases "bl_join ops w")
  case (Pair j w1)
  note J = blocking_join [OF laws Pair]
  show ?thesis
  proof (cases j)
    case (Some e)
    with r Pair J show ?thesis by (intro lost [of e]) (auto simp: blocking_read_def run_blocking_def)
  next
    case None
    obtain o1 scratch w2 where b: "bl_read ops (replicate (length buf) 0) w1 = (o1, scratch, w2)"
      by (cases "bl_read ops (replicate (length buf) 0) w1")
    show ?thesis
    proof (cases o1)
      case (Inl e)
      with r Pair None b J blocking_read_err [OF laws b [unfolded Inl]] show ?thesis
        by (intro failed [of e]) (auto simp: blocking_read_def run_blocking_def)
    next
      case (Inr n)
      note ok = blocking_read_ok [OF laws b [unfolded Inr]]
      from ok have n: "n \<le> length buf" "length scratch = length buf" by auto
      have "out = Returned (Inr n)" and buf': "buf' = copy_prefix (take n scratch) buf" and w': "w' = w2"
        using r Pair None b Inr n by (simp_all add: blocking_read_def run_blocking_def)
      moreover have "take n buf' = take n scratch" and "length buf' = length buf"
        using n by (simp_all add: buf' take_copy_prefix_n)
      ultimately show ?thesis using ok J n by (intro got [of n]) simp_all
    qed
  qed
qed

interpretation blocking_reader: file_reader "blocking_read ops"
  "\<lambda>w. blocking_laws ops contents at interrupts" "blocking_rest contents at" interrupts
  for ops :: "'w blocking_ops" and contents at interrupts
proof
  fix w w' :: 'w and buf out buf' n e
  assume laws: "blocking_laws ops contents at interrupts"
  show "out \<noteq> Unwound \<and> length buf' = length buf \<and> blocking_laws ops contents at interrupts"
    if "blocking_read ops buf w = (out, buf', w')"
    using laws that by (auto elim: blocking_read_cases)
  show "n \<le> length buf \<and> blocking_rest contents at w = take n buf' @ blocking_rest contents at w' \<and>
      interrupts w' \<le> interrupts w" if "blocking_read ops buf w = (Returned (Inr n), buf', w')"
    using laws that
    by (rule blocking_read_cases) (auto simp: blocking_rest_def intro: take_drop_split)
  show "blocking_rest contents at w' = blocking_rest contents at w"
    if "blocking_read ops buf w = (Returned (Inl e), buf', w')"
    using laws that by (rule blocking_read_cases) (auto simp: blocking_rest_def)
  show "blocking_rest contents at w = []"
    if "blocking_read ops buf w = (Returned (Inr 0), buf', w')" "buf \<noteq> []"
    using laws that(1) by (rule blocking_read_cases) (use that(2) in \<open>auto simp: blocking_rest_def\<close>)
  show "interrupts w' < interrupts w"
    if "blocking_read ops buf w = (Returned (Inl e), buf', w')" "err_kind e = Interrupted"
    using laws that(1) by (rule blocking_read_cases) (use that(2) in auto)
qed

lemma blocking_write_cases:
  assumes laws: "blocking_laws ops contents at interrupts" and r: "blocking_write ops buf w = (out, w')"
  obtains (failed) e where "out = Returned (Inl e)" "contents w' = contents w" "at w' = at w"
      "err_kind e = Interrupted \<longrightarrow> interrupts w' < interrupts w"
  | (put) n where "out = Returned (Inr n)" "n \<le> length buf" "at w' = at w + n"
      "contents w' = put_at (at w) (take n buf) (contents w)" "interrupts w' \<le> interrupts w"
proof (cases "bl_join ops w")
  case (Pair j w1)
  note J = blocking_join [OF laws Pair]
  show ?thesis
  proof (cases j)
    case (Some e)
    with r Pair J show ?thesis
      by (intro failed [of "join_io_error e"])
        (auto simp: blocking_write_def run_blocking_def flatten_io_def)
  next
    case None
    obtain o1 w2 where b: "bl_write ops buf w1 = (o1, w2)" by (cases "bl_write ops buf w1")
    show ?thesis
    proof (cases o1)
      case (Inl e)
      with r Pair None b J blocking_write_err [OF laws b [unfolded Inl]] show ?thesis
        by (intro failed [of e]) (auto simp: blocking_write_def run_blocking_def flatten_io_def)
    next
      case (Inr n)
      with r Pair None b J blocking_write_ok [OF laws b [unfolded Inr]] show ?thesis
        by (intro put [of n]) (auto simp: blocking_write_def run_blocking_def flatten_io_def)
    qed
  qed
qed

interpretation blocking_writer: file_writer "blocking_write ops"
  "\<lambda>w. blocking_laws ops contents at interrupts" "blocking_put contents at" interrupts
  for ops :: "'w blocking_ops" and contents at interrupts
proof
  fix w w' :: 'w and buf out n e
  assume laws: "blocking_laws ops contents at interrupts"
  show "out \<noteq> Unwound \<and> blocking_laws ops contents at interrupts"
    if "blocking_write ops buf w = (out, w')"
    using laws that by (auto elim: blocking_write_cases)
  show "n \<le> length buf \<and> (\<forall>later. blocking_put contents at (take n buf @ later) w =
      blocking_put contents at later w') \<and> interrupts w' \<le> interrupts w"
    if "blocking_write ops buf w = (Returned (Inr n), w')"
    using laws that
    by (rule blocking_write_cases) (auto simp: blocking_put_def put_at_append min_absorb2)
  show "(\<forall>later. blocking_put contents at later w' = blocking_put contents at later w) \<and>
      interrupts w' < interrupts w"
    if "blocking_write ops buf w = (Returned (Inl e), w')" "err_kind e = Interrupted"
    using laws that(1) by (rule blocking_write_cases) (use that(2) in \<open>auto simp: blocking_put_def\<close>)
  show "blocking_put contents at [] w' = blocking_put contents at [] w"
    if "blocking_write ops buf w = (Returned (Inl e), w')"
    using laws that by (rule blocking_write_cases) (auto simp: blocking_put_def)
qed

end
