(* ===== verification/File_Properties.thy ===== *)
theory File_Properties
  imports File_Handles
begin

text \<open>
  The properties of the file traits on the handles of \<open>File_Handles\<close>, from the facts that the
  interpretations of \<open>file_reader\<close> and \<open>file_writer\<close> give, and the in-memory backend of their
  witnesses.
\<close>

section \<open>An in-memory backend\<close>

text \<open>
  A disk is its bytes, below the size limit; a read returns at most three bytes at a time, a write
  takes at most two.
\<close>

definition mem_contents :: "byte list \<Rightarrow> byte list" where
  "mem_contents w = take (2 ^ 64 - 1) w"

definition mem_compio :: "byte list compio_ops" where
  "mem_compio = \<lparr>
     co_read_at = (\<lambda>buf p w.
       let b = take 3 (take (length buf) (drop (unat p) (mem_contents w)))
       in (Inr (length b), copy_prefix b buf, w)),
     co_write_at = (\<lambda>buf p w.
       let b = take 2 buf
       in if unat p + length b < 2 ^ 64 then (Inr (length b), put_at (unat p) b (mem_contents w))
          else (Inl (IoError Other ''too large''), w)),
     co_len = (\<lambda>w. (Inr (of_nat (length (mem_contents w))), w))\<rparr>"

lemma mem_contents_length: "length (mem_contents w) < 2 ^ 64"
  by (simp add: mem_contents_def)

lemma mem_contents_size [simp]:
  "length (mem_contents w) < 18446744073709551616"
  "unat (of_nat (length (mem_contents w)) :: u64) = length (mem_contents w)"
  using mem_contents_length [of w] by (simp_all add: unat_of_nat_u64)

lemma mem_contents_id: "length w < 2 ^ 64 \<Longrightarrow> mem_contents w = w"
  by (simp add: mem_contents_def)

lemma mem_compio_laws: "compio_laws mem_compio mem_contents (\<lambda>w. 0)"
  unfolding compio_laws_def
proof (intro conjI allI impI)
  fix buf :: "byte list" and p :: u64 and w n w'
  assume "co_write_at mem_compio buf p w = (Inr n, w')"
  then have n: "n = length (take 2 buf)" and lt: "unat p + n < 2 ^ 64"
    and w': "w' = put_at (unat p) (take 2 buf) (mem_contents w)"
    by (auto simp: mem_compio_def Let_def split: if_splits)
  have "take n buf = take 2 buf" by (cases "length buf \<le> 2") (simp_all add: n)
  moreover have "length w' < 2 ^ 64"
    using lt mem_contents_length [of w] n by (simp add: w' put_at_length)
  ultimately show "n \<le> length buf" and "unat p + n < 2 ^ 64"
    and "mem_contents w' = put_at (unat p) (take n buf) (mem_contents w)" and "(0 :: nat) \<le> 0"
    using lt by (simp_all add: n w' mem_contents_id)
qed (auto simp: mem_compio_def Let_def copy_prefix_def min_def split: if_splits)

section \<open>Seeking\<close>

text \<open>Where a seek is to go, as an integer.\<close>

fun seek_target :: "u64 \<Rightarrow> u64 \<Rightarrow> seek_from \<Rightarrow> int" where
  "seek_target current eof (Start p) = uint p"
| "seek_target current eof (End off) = uint eof + sint off"
| "seek_target current eof (Current off) = uint current + sint off"

text \<open>
  C21: \<open>seek_position\<close> is exact. It answers the target of the seek when that is an unsigned 64-bit
  number, and \<open>InvalidInput\<close> exactly when it is negative or too large; the intermediate sum always
  fits an \<open>i128\<close>.
\<close>

theorem seek_position_exact:
  "(\<forall>p. seek_position current eof from = Inr p \<longleftrightarrow> uint p = seek_target current eof from) \<and>
   (err_kind ` {e. seek_position current eof from = Inl e} = {InvalidInput} \<longleftrightarrow>
      seek_target current eof from < 0 \<or> 2 ^ 64 \<le> seek_target current eof from) \<and>
   - (2 ^ 127) \<le> seek_target current eof from \<and> seek_target current eof from < 2 ^ 127"
proof -
  have try_it: "(\<forall>p. try_from_u64 t = Inr p \<longleftrightarrow> uint p = t) \<and>
      (err_kind ` {e. try_from_u64 t = Inl e} = {InvalidInput} \<longleftrightarrow> t < 0 \<or> 2 ^ 64 \<le> t)" for t
  proof (cases "0 \<le> t \<and> t < 2 ^ 64")
    case True
    then have "uint (word_of_int t :: u64) = t" by (simp add: uint_word_of_int take_bit_int_eq_self)
    then have "uint p = t \<longleftrightarrow> p = word_of_int t" for p :: u64 by auto
    with True show ?thesis by (auto simp: try_from_u64_def)
  next
    case False
    moreover have "uint p \<noteq> t" for p :: u64
      using False uint_bounded [of p] by auto
    ultimately show ?thesis by (auto simp: try_from_u64_def)
  qed
  have u: "0 \<le> uint (x :: u64)" "uint x < 2 ^ 64" for x using uint_bounded [of x] by auto
  have s: "- (2 ^ 63) \<le> sint (x :: 64 word)" "sint x < 2 ^ 63" for x
    using sint_range_size [of x] by (simp_all add: word_size)
  have b: "- (2 ^ 127) \<le> uint (x :: u64) + sint (y :: 64 word)"
    "uint x + sint y < 2 ^ 127" for x y
    by (rule order_trans [OF _ add_mono [OF u(1) [of x] s(1) [of y]]], simp)
      (rule order_less_le_trans [OF add_strict_mono [OF u(2) [of x] s(2) [of y]]], simp)
  show ?thesis
  proof (cases "from")
    case (Start p)
    then show ?thesis using u [of p] by (auto simp: word_uint_eq_iff intro: order_trans [of _ 0])
  next
    case (End off)
    then show ?thesis using try_it [of "uint eof + sint off"] b [of eof off] by simp
  next
    case (Current off)
    then show ?thesis using try_it [of "uint current + sint off"] b [of current off] by simp
  qed
qed

section \<open>Reading and writing through a handle\<close>

text \<open>
  \<open>read_exact\<close> on a \<open>CompioFile\<close> returns and takes bytes in order. Whatever short reads and
  interruptions Compio answers, it returns; the bytes that left the file are exactly the first \<open>k\<close>
  bytes of the buffer; on success \<open>k\<close> is the whole buffer, and \<open>UnexpectedEof\<close> of its own comes only
  at the end of the file with the buffer not filled.
\<close>

theorem compio_read_exact:
  assumes "compio_laws ops contents interrupts"
  shows "\<exists>r buf' f' k. read_exact (compio_read ops) buf f = Some (Returned r, buf', f') \<and>
    length buf' = length buf \<and> k \<le> length buf \<and>
    compio_rest contents f = take k buf' @ compio_rest contents f' \<and>
    (case r of Inr u \<Rightarrow> k = length buf
     | Inl e \<Rightarrow> (e = eof_error \<and> compio_rest contents f' = [] \<and> k < length buf) \<or>
         read_fails (compio_read ops) e f')"
  using compio_reader.read_exact_correct [OF assms] by blast

theorem compio_read_exact_witness:
  "\<exists>r buf' f' k. read_exact (compio_read mem_compio) (replicate 5 0)
      \<lparr>disk = [1, 2, 3, 4, 5, 6, 7, 8], position = 1\<rparr> = Some (Returned r, buf', f') \<and>
    length buf' = length (replicate 5 (0 :: byte)) \<and> k \<le> length (replicate 5 (0 :: byte)) \<and>
    compio_rest mem_contents \<lparr>disk = [1, 2, 3, 4, 5, 6, 7, 8], position = 1\<rparr> =
      take k buf' @ compio_rest mem_contents f' \<and>
    (case r of Inr u \<Rightarrow> k = length (replicate 5 (0 :: byte))
     | Inl e \<Rightarrow> (e = eof_error \<and> compio_rest mem_contents f' = [] \<and>
           k < length (replicate 5 (0 :: byte))) \<or>
         read_fails (compio_read mem_compio) e f')"
  by (rule compio_read_exact [OF mem_compio_laws])

text \<open>
  \<open>read_to_string\<close> through a blocking pool returns, and appends the rest of the file exactly
  when it is UTF-8. On success the string grew by what was left of the file and the answer is its
  length; otherwise the string is as it was, and the error is \<open>InvalidData\<close> for bytes that are not
  UTF-8 or an error of \<open>read\<close>, a lost task included.
\<close>

theorem blocking_read_to_string:
  assumes "blocking_laws ops contents at interrupts"
  shows "\<exists>r out' w'. read_to_string (blocking_read ops) out w = Some (Returned r, out', w') \<and>
    (case r of
       Inr n \<Rightarrow> utf8_valid (blocking_rest contents at w) \<and>
         out' = out @ blocking_rest contents at w \<and> n = length (blocking_rest contents at w)
     | Inl e \<Rightarrow> out' = out \<and>
         ((e = utf8_error \<and> \<not> utf8_valid (blocking_rest contents at w)) \<or>
          read_fails (blocking_read ops) e w'))"
  using blocking_reader.read_to_string_correct [OF assms] by blast

text \<open>An in-memory file with a cursor; every fourth job of the executor is lost.\<close>

definition mem_blocking :: "(byte list \<times> nat \<times> nat) blocking_ops" where
  "mem_blocking = \<lparr>
     bl_read = (\<lambda>buf (c, p, k).
       let b = take (length buf) (drop p c) in (Inr (length b), copy_prefix b buf, (c, p + length b, k))),
     bl_write = (\<lambda>buf (c, p, k). (Inr (length buf), (put_at p buf c, p + length buf, k))),
     bl_flush = (\<lambda>w. (Inr (), w)),
     bl_seek = (\<lambda>from (c, p, k). (case from of Start q \<Rightarrow> (Inr q, (c, unat q, k))
        | _ \<Rightarrow> (Inl (IoError Unsupported ''relative seek''), (c, p, k)))),
     bl_join = (\<lambda>(c, p, k). (if k mod 4 = 3 then Some Cancelled else None, (c, p, Suc k)))\<rparr>"

lemma mem_blocking_laws: "blocking_laws mem_blocking fst (fst \<circ> snd) (\<lambda>w. 0)"
  by (auto simp: blocking_laws_def mem_blocking_def Let_def copy_prefix_def min_def
      split: if_splits)

definition mem_file :: "byte list \<times> nat \<times> nat" where
  "mem_file = ([105, 0xC3, 0xA9], 0, 0)"

theorem blocking_read_to_string_witness:
  "\<exists>r out' w'. read_to_string (blocking_read mem_blocking) [72] mem_file =
      Some (Returned r, out', w') \<and>
    (case r of
       Inr n \<Rightarrow> utf8_valid (blocking_rest fst (fst \<circ> snd) mem_file) \<and>
         out' = [72] @ blocking_rest fst (fst \<circ> snd) mem_file \<and>
         n = length (blocking_rest fst (fst \<circ> snd) mem_file)
     | Inl e \<Rightarrow> out' = [72] \<and>
         ((e = utf8_error \<and> \<not> utf8_valid (blocking_rest fst (fst \<circ> snd) mem_file)) \<or>
          read_fails (blocking_read mem_blocking) e w'))"
proof -
  from blocking_read_to_string [OF mem_blocking_laws, of "[72]" mem_file]
  show ?thesis .
qed

lemma compio_seek_start:
  "compio_seek ops (Start p) f = (Inr p, f\<lparr>disk := disk f, position := p\<rparr>)"
  by (simp add: compio_seek_def)

text \<open>
  What \<open>write_all\<close> wrote is what \<open>read_exact\<close> reads back. After a successful \<open>write_all\<close> of
  a non-empty buffer on a \<open>CompioFile\<close> and a seek back to where it started, a successful \<open>read_exact\<close>
  of as many bytes gives the buffer, and the rest of the file is as it was.
\<close>

theorem compio_write_read_roundtrip:
  assumes "compio_laws ops contents interrupts" and "buf \<noteq> []"
    and "write_all (compio_write ops) buf f = Some (Returned (Inr ()), f1)"
    and "compio_seek ops (Start (position f)) f1 = (Inr p, f2)"
    and "read_exact (compio_read ops) (replicate (length buf) 0) f2 = Some (Returned (Inr ()), got, f3)"
  shows "got = buf \<and>
    compio_rest contents f3 = drop (unat (position f) + length buf) (contents (disk f))"
proof -
  from compio_writer.write_all_correct [OF assms(1), of buf f] assms(3)
  have put: "compio_put contents [] f1 = compio_put contents buf f" by auto
  from assms(4) have f2: "disk f2 = disk f1" "position f2 = position f"
    by (auto simp: compio_seek_start)
  from compio_reader.read_exact_correct [OF assms(1), of "replicate (length buf) 0" f2] assms(5)
  have len: "length got = length buf"
    and got: "compio_rest contents f2 = got @ compio_rest contents f3" by auto
  from put have disk: "contents (disk f2) = put_at (unat (position f)) buf (contents (disk f))"
    by (simp add: compio_put_def f2)
  have "compio_rest contents f2 = buf @ drop (unat (position f) + length buf) (contents (disk f))"
    by (simp only: compio_rest_def f2(2) disk put_at_drop [OF assms(2)])
  from trans [OF got [symmetric] this] show ?thesis
    by (simp only: append_eq_append_conv [OF disjI1 [OF len]])
qed

theorem compio_write_read_roundtrip_witness:
  "[7, 8, 9 :: byte] = [7, 8, 9] \<and>
   compio_rest mem_contents \<lparr>disk = [1, 2, 7, 8, 9, 6], position = 5\<rparr> =
     drop (unat (2 :: u64) + length [7, 8, 9 :: byte]) (mem_contents [1, 2, 3, 4, 5, 6])"
proof -
  let ?f = "\<lparr>disk = [1, 2, 3, 4, 5, 6], position = 2\<rparr> :: byte list compio_file"
  let ?f1 = "\<lparr>disk = [1, 2, 7, 8, 9, 6], position = 5\<rparr> :: byte list compio_file"
  let ?f2 = "\<lparr>disk = [1, 2, 7, 8, 9, 6], position = 2\<rparr> :: byte list compio_file"
  note mem_simps = mem_compio_def mem_contents_def checked_add_u64_def
  have 1: "write_all (compio_write mem_compio) [7, 8, 9] ?f = Some (Returned (Inr ()), ?f1)"
    by (simp add: write_all.simps [of _ "[7, 8, 9]"] write_all.simps [of _ "[9]"]
        write_all.simps [of _ "[]"] compio_write_def put_at_def mem_simps)
  have 2: "compio_seek mem_compio (Start (position ?f)) ?f1 = (Inr 2, ?f2)"
    by (simp add: compio_seek_def)
  have zeros: "replicate (length [7, 8, 9 :: byte]) (0 :: byte) = [0, 0, 0]" by simp
  have 3: "read_exact (compio_read mem_compio) (replicate (length [7, 8, 9 :: byte]) 0) ?f2 =
      Some (Returned (Inr ()), [7, 8, 9], ?f1)"
    unfolding zeros
    by (simp add: read_exact_def read_exact_loop.simps [of _ _ "[0, 0, 0]"]
        read_exact_loop.simps [of _ _ "[]"] compio_read_def copy_prefix_def mem_simps)
  from compio_write_read_roundtrip [OF mem_compio_laws _ 1 2 3] show ?thesis by simp
qed

end
