(* ===== verification/File_Poll.thy ===== *)
theory File_Poll
  imports File_Handles
begin

text \<open>
  The poll state machine of \<open>src/src/fs/io.rs\<close>, through which \<open>File\<close> offers the futures and Tokio
  I/O traits: \<open>FileIo\<close>, the single operation in flight, the bytes of a read that did not fit the
  caller's buffer, and the \<open>poll_*\<close> functions. A \<open>File\<close> and its \<open>FileIo\<close> are one record here, with
  the world of the runtimes; in builds without the fields of \<open>FileIo\<close> they keep their defaults.
  The loops are partial functions. Tokio and smol files, and the bodies of the boxed futures (a
  \<open>FileRead::read\<close>, \<open>FileWrite::write\<close> or \<open>FileSeek::seek\<close> on a copy of the file, or a job of a
  blocking pool), are operations.
\<close>

section \<open>State\<close>

text \<open>\<open>FileInner\<close>, with the fields of the crate's own files.\<close>

datatype file_inner =
  TokioFile | SmolFile | CompioFile u64 | BlockingFile
| WasmFile (readable: bool) (writable: bool) (append: bool) (wasm_position: u64)

text \<open>\<open>IoOutput\<close>.\<close>

datatype io_output =
  ReadOut "nat io_result" "byte list" "u64 option"
| WriteOut "nat io_result" "byte list" "u64 option"
| FlushOut "unit io_result"
| SeekOut seek_from "u64 io_result"

text \<open>
  \<open>IoFuture\<close>: what the future will report as, with the copy of the file it works on, and its body.
\<close>

datatype 'f io_future =
  ReadFuture file_inner 'f
| WriteFuture file_inner "byte list" 'f
| FlushFuture "'f option"
| SeekFuture file_inner seek_from 'f

text \<open>
  A finished body: the result, the buffer and the cursor of the copy, or the task was lost.
\<close>

type_synonym read_done = "join_error + nat io_result \<times> byte list \<times> u64"
type_synonym write_done = "join_error + nat io_result \<times> u64"

record ('f, 'w) file_ops =
  fo_read :: "file_inner \<Rightarrow> nat \<Rightarrow> 'w \<Rightarrow> 'f \<times> 'w"
  fo_write :: "file_inner \<Rightarrow> byte list \<Rightarrow> 'w \<Rightarrow> 'f \<times> 'w"
  fo_flush :: "'w \<Rightarrow> 'f \<times> 'w"
  fo_seek :: "file_inner \<Rightarrow> seek_from \<Rightarrow> 'w \<Rightarrow> 'f \<times> 'w"
  fo_poll_read :: "'f \<Rightarrow> 'w \<Rightarrow> read_done poll \<times> 'f \<times> 'w"
  fo_poll_write :: "'f \<Rightarrow> 'w \<Rightarrow> write_done poll \<times> 'f \<times> 'w"
  fo_poll_flush :: "'f \<Rightarrow> 'w \<Rightarrow> (join_error + unit io_result) poll \<times> 'f \<times> 'w"
  fo_poll_seek :: "'f \<Rightarrow> 'w \<Rightarrow> (join_error + u64 io_result) poll \<times> 'f \<times> 'w"
  tk_read :: "nat \<Rightarrow> 'w \<Rightarrow> byte list io_result poll \<times> 'w"
  tk_write :: "byte list \<Rightarrow> 'w \<Rightarrow> nat io_result poll \<times> 'w"
  tk_flush :: "'w \<Rightarrow> unit io_result poll \<times> 'w"
  tk_start_seek :: "seek_from \<Rightarrow> 'w \<Rightarrow> unit io_result \<times> 'w"
  tk_complete :: "'w \<Rightarrow> u64 io_result poll \<times> 'w"
  sm_read :: "byte list \<Rightarrow> 'w \<Rightarrow> nat io_result poll \<times> byte list \<times> 'w"
  sm_write :: "byte list \<Rightarrow> 'w \<Rightarrow> nat io_result poll \<times> 'w"
  sm_flush :: "'w \<Rightarrow> unit io_result poll \<times> 'w"
  sm_seek :: "seek_from \<Rightarrow> 'w \<Rightarrow> u64 io_result poll \<times> 'w"

record ('f, 'w) file_state =
  inner :: file_inner
  operation :: "'f io_future option"
  buffered :: "byte list"
  buffered_position :: nat
  futures_seek :: "seek_from option"
  tokio_seek :: "seek_from option"
  world :: 'w

text \<open>\<open>File::from_inner\<close>.\<close>

definition from_inner :: "file_inner \<Rightarrow> 'w \<Rightarrow> ('f, 'w) file_state" where
  "from_inner fi w = \<lparr>inner = fi, operation = None, buffered = [], buffered_position = 0,
     futures_seek = None, tokio_seek = None, world = w\<rparr>"

section \<open>Operations in flight\<close>

text \<open>
  \<open>read_operation\<close>, \<open>write_operation\<close>, \<open>flush_operation\<close>, \<open>seek_operation\<close>: the future is boxed
  around the body; only a blocking pool has anything to flush.
\<close>

definition read_operation :: "('f, 'w) file_ops \<Rightarrow> file_inner \<Rightarrow> nat \<Rightarrow> 'w \<Rightarrow> 'f io_future \<times> 'w" where
  "read_operation ops fi capacity w =
     (case fo_read ops fi capacity w of (f, w') \<Rightarrow> (ReadFuture fi f, w'))"

definition write_operation ::
  "('f, 'w) file_ops \<Rightarrow> file_inner \<Rightarrow> byte list \<Rightarrow> 'w \<Rightarrow> 'f io_future \<times> 'w" where
  "write_operation ops fi buf w =
     (case fo_write ops fi buf w of (f, w') \<Rightarrow> (WriteFuture fi buf f, w'))"

definition flush_operation :: "('f, 'w) file_ops \<Rightarrow> file_inner \<Rightarrow> 'w \<Rightarrow> 'f io_future \<times> 'w" where
  "flush_operation ops fi w =
     (case fi of BlockingFile \<Rightarrow> (case fo_flush ops w of (f, w') \<Rightarrow> (FlushFuture (Some f), w'))
      | _ \<Rightarrow> (FlushFuture None, w))"

definition seek_operation ::
  "('f, 'w) file_ops \<Rightarrow> file_inner \<Rightarrow> seek_from \<Rightarrow> 'w \<Rightarrow> 'f io_future \<times> 'w" where
  "seek_operation ops fi from w =
     (case fo_seek ops fi from w of (f, w') \<Rightarrow> (SeekFuture fi from f, w'))"

text \<open>
  What a finished body becomes: a file with its own cursor reports the cursor after a success, a
  lost task of a blocking pool is an error with an empty buffer.
\<close>

fun reported_position :: "file_inner \<Rightarrow> 'a io_result \<Rightarrow> u64 \<Rightarrow> u64 option" where
  "reported_position BlockingFile r p = None"
| "reported_position fi (Inl e) p = None"
| "reported_position fi (Inr n) p = Some p"

fun read_output :: "file_inner \<Rightarrow> read_done \<Rightarrow> io_output" where
  "read_output fi (Inl e) = ReadOut (Inl (join_io_error e)) [] None"
| "read_output fi (Inr (r, buf, p)) = ReadOut r buf (reported_position fi r p)"

fun write_output :: "file_inner \<Rightarrow> byte list \<Rightarrow> write_done \<Rightarrow> io_output" where
  "write_output fi buf (Inl e) = WriteOut (Inl (join_io_error e)) [] None"
| "write_output fi buf (Inr (r, p)) = WriteOut r buf (reported_position fi r p)"

fun joined :: "join_error + 'a io_result \<Rightarrow> 'a io_result" where
  "joined (Inl e) = Inl (join_io_error e)"
| "joined (Inr r) = r"

fun future_poll ::
  "('f, 'w) file_ops \<Rightarrow> 'f io_future \<Rightarrow> 'w \<Rightarrow> io_output poll \<times> 'f io_future \<times> 'w" where
  "future_poll ops (ReadFuture fi f) w =
     (case fo_poll_read ops f w of
        (Pending, f', w') \<Rightarrow> (Pending, ReadFuture fi f', w')
      | (Ready d, f', w') \<Rightarrow> (Ready (read_output fi d), ReadFuture fi f', w'))"
| "future_poll ops (WriteFuture fi buf f) w =
     (case fo_poll_write ops f w of
        (Pending, f', w') \<Rightarrow> (Pending, WriteFuture fi buf f', w')
      | (Ready d, f', w') \<Rightarrow> (Ready (write_output fi buf d), WriteFuture fi buf f', w'))"
| "future_poll ops (FlushFuture None) w = (Ready (FlushOut (Inr ())), FlushFuture None, w)"
| "future_poll ops (FlushFuture (Some f)) w =
     (case fo_poll_flush ops f w of
        (Pending, f', w') \<Rightarrow> (Pending, FlushFuture (Some f'), w')
      | (Ready d, f', w') \<Rightarrow> (Ready (FlushOut (joined d)), FlushFuture (Some f'), w'))"
| "future_poll ops (SeekFuture fi from f) w =
     (case fo_poll_seek ops f w of
        (Pending, f', w') \<Rightarrow> (Pending, SeekFuture fi from f', w')
      | (Ready d, f', w') \<Rightarrow> (Ready (SeekOut from (joined d)), SeekFuture fi from f', w'))"

text \<open>\<open>apply_position\<close>, \<open>poll_operation\<close> (which unwraps the operation), \<open>finish_discarded\<close>.\<close>

fun moved_to :: "file_inner \<Rightarrow> u64 option \<Rightarrow> file_inner" where
  "moved_to fi None = fi"
| "moved_to (CompioFile q) (Some p) = CompioFile p"
| "moved_to (WasmFile r w a q) (Some p) = WasmFile r w a p"
| "moved_to fi (Some p) = fi"

definition apply_position :: "u64 option \<Rightarrow> ('f, 'w) file_state \<Rightarrow> ('f, 'w) file_state" where
  "apply_position p st = st\<lparr>inner := moved_to (inner st) p\<rparr>"

definition poll_operation ::
  "('f, 'w) file_ops \<Rightarrow> ('f, 'w) file_state \<Rightarrow> io_output poll outcome \<times> ('f, 'w) file_state" where
  "poll_operation ops st =
     (case operation st of
        None \<Rightarrow> (Unwound, st)
      | Some fut \<Rightarrow>
          (case future_poll ops fut (world st) of
             (Pending, fut', w) \<Rightarrow> (Returned Pending, st\<lparr>operation := Some fut', world := w\<rparr>)
           | (Ready out, fut', w) \<Rightarrow>
               (Returned (Ready out), st\<lparr>operation := None, world := w\<rparr>)))"

fun finish_discarded :: "io_output \<Rightarrow> ('f, 'w) file_state \<Rightarrow> unit io_result \<times> ('f, 'w) file_state" where
  "finish_discarded (ReadOut r buf p) st = (map_sum id (\<lambda>n. ()) r, apply_position p st)"
| "finish_discarded (WriteOut r buf p) st = (map_sum id (\<lambda>n. ()) r, apply_position p st)"
| "finish_discarded (FlushOut r) st = (r, st)"
| "finish_discarded (SeekOut from r) st =
     (case r of Inr p \<Rightarrow> (Inr (), apply_position (Some p) st) | Inl e \<Rightarrow> (Inl e, st))"

text \<open>\<open>if state.operation.is_none() { state.operation = Some(...) }\<close>.\<close>

definition ensure_operation ::
  "(file_inner \<Rightarrow> 'w \<Rightarrow> 'f io_future \<times> 'w) \<Rightarrow> ('f, 'w) file_state \<Rightarrow> ('f, 'w) file_state" where
  "ensure_operation start st =
     (case operation st of
        Some fut \<Rightarrow> st
      | None \<Rightarrow> (case start (inner st) (world st) of
          (fut, w) \<Rightarrow> st\<lparr>operation := Some fut, world := w\<rparr>))"

section \<open>The poll loops\<close>

definition invalid_length_error :: io_error where
  "invalid_length_error = IoError InvalidData ''the filesystem returned an invalid read length''"

partial_function (option) poll_internal_read ::
  "('f, 'w) file_ops \<Rightarrow> byte list \<Rightarrow> ('f, 'w) file_state \<Rightarrow>
   (nat io_result poll outcome \<times> byte list \<times> ('f, 'w) file_state) option" where
  "poll_internal_read ops buf st0 =
     (case poll_operation ops
         (ensure_operation (\<lambda>fi. read_operation ops fi (length buf)) st0) of
        (Unwound, st) \<Rightarrow> Some (Unwound, buf, st)
      | (Returned Pending, st) \<Rightarrow> Some (Returned Pending, buf, st)
      | (Returned (Ready (ReadOut r owned p)), st) \<Rightarrow>
          (let st1 = apply_position p st
           in case r of
               Inl e \<Rightarrow> Some (Returned (Ready (Inl e)), buf, st1)
             | Inr n \<Rightarrow>
                 (if length owned < n then
                    Some (Returned (Ready (Inl invalid_length_error)), buf, st1)
                  else let c = min (length buf) n
                    in Some (Returned (Ready (Inr c)), copy_prefix (take c owned) buf,
                      (if c < n then st1\<lparr>buffered := take n owned, buffered_position := c\<rparr>
                       else st1))))
      | (Returned (Ready out), st) \<Rightarrow>
          (case finish_discarded out st of
             (Inl e, st1) \<Rightarrow> Some (Returned (Ready (Inl e)), buf, st1)
           | (Inr u, st1) \<Rightarrow> poll_internal_read ops buf st1))"

partial_function (option) poll_internal_write ::
  "('f, 'w) file_ops \<Rightarrow> byte list \<Rightarrow> ('f, 'w) file_state \<Rightarrow>
   (nat io_result poll outcome \<times> ('f, 'w) file_state) option" where
  "poll_internal_write ops buf st0 =
     (case poll_operation ops (ensure_operation (\<lambda>fi. write_operation ops fi buf) st0) of
        (Unwound, st) \<Rightarrow> Some (Unwound, st)
      | (Returned Pending, st) \<Rightarrow> Some (Returned Pending, st)
      | (Returned (Ready (WriteOut r written p)), st) \<Rightarrow>
          (let st1 = apply_position p st
           in if written = buf then Some (Returned (Ready r), st1)
              else case r of
                Inl e \<Rightarrow> Some (Returned (Ready (Inl e)), st1)
              | Inr n \<Rightarrow> poll_internal_write ops buf st1)
      | (Returned (Ready out), st) \<Rightarrow>
          (case finish_discarded out st of
             (Inl e, st1) \<Rightarrow> Some (Returned (Ready (Inl e)), st1)
           | (Inr u, st1) \<Rightarrow> poll_internal_write ops buf st1))"

partial_function (option) poll_internal_flush ::
  "('f, 'w) file_ops \<Rightarrow> ('f, 'w) file_state \<Rightarrow>
   (unit io_result poll outcome \<times> ('f, 'w) file_state) option" where
  "poll_internal_flush ops st0 =
     (case poll_operation ops (ensure_operation (flush_operation ops) st0) of
        (Unwound, st) \<Rightarrow> Some (Unwound, st)
      | (Returned Pending, st) \<Rightarrow> Some (Returned Pending, st)
      | (Returned (Ready (FlushOut r)), st) \<Rightarrow> Some (Returned (Ready r), st)
      | (Returned (Ready out), st) \<Rightarrow>
          (case finish_discarded out st of
             (Inl e, st1) \<Rightarrow> Some (Returned (Ready (Inl e)), st1)
           | (Inr u, st1) \<Rightarrow> poll_internal_flush ops st1))"

partial_function (option) poll_internal_seek ::
  "('f, 'w) file_ops \<Rightarrow> seek_from \<Rightarrow> ('f, 'w) file_state \<Rightarrow>
   (u64 io_result poll outcome \<times> ('f, 'w) file_state) option" where
  "poll_internal_seek ops from st0 =
     (case poll_operation ops (ensure_operation (\<lambda>fi. seek_operation ops fi from) st0) of
        (Unwound, st) \<Rightarrow> Some (Unwound, st)
      | (Returned Pending, st) \<Rightarrow> Some (Returned Pending, st)
      | (Returned (Ready (SeekOut requested r)), st) \<Rightarrow>
          (case r of
             Inr p \<Rightarrow>
               (let st1 = apply_position (Some p) st
                in if requested = from then Some (Returned (Ready (Inr p)), st1)
                   else poll_internal_seek ops from st1)
           | Inl e \<Rightarrow> Some (Returned (Ready (Inl e)), st))
      | (Returned (Ready out), st) \<Rightarrow>
          (case finish_discarded out st of
             (Inl e, st1) \<Rightarrow> Some (Returned (Ready (Inl e)), st1)
           | (Inr u, st1) \<Rightarrow> poll_internal_seek ops from st1))"

section \<open>The entry points\<close>

definition poll_read ::
  "('f, 'w) file_ops \<Rightarrow> byte list \<Rightarrow> ('f, 'w) file_state \<Rightarrow>
   (nat io_result poll outcome \<times> byte list \<times> ('f, 'w) file_state) option" where
  "poll_read ops buf st =
     (if buf = [] then Some (Returned (Ready (Inr 0)), buf, st)
      else if buffered_position st < length (buffered st) then
        (let available = drop (buffered_position st) (buffered st);
             n = min (length buf) (length available);
             st1 = st\<lparr>buffered_position := buffered_position st + n\<rparr>
         in Some (Returned (Ready (Inr n)), copy_prefix (take n available) buf,
              (if buffered_position st1 = length (buffered st1)
               then st1\<lparr>buffered := [], buffered_position := 0\<rparr> else st1)))
      else (case inner st of
        TokioFile \<Rightarrow>
          (case tk_read ops (length buf) (world st) of
             (Pending, w) \<Rightarrow> Some (Returned Pending, buf, st\<lparr>world := w\<rparr>)
           | (Ready (Inl e), w) \<Rightarrow> Some (Returned (Ready (Inl e)), buf, st\<lparr>world := w\<rparr>)
           | (Ready (Inr b), w) \<Rightarrow>
               Some (Returned (Ready (Inr (length b))), copy_prefix b buf, st\<lparr>world := w\<rparr>))
      | SmolFile \<Rightarrow>
          (case sm_read ops buf (world st) of
             (r, buf', w) \<Rightarrow> Some (Returned r, buf', st\<lparr>world := w\<rparr>))
      | _ \<Rightarrow> poll_internal_read ops buf st))"

definition clear_buffered :: "('f, 'w) file_state \<Rightarrow> ('f, 'w) file_state" where
  "clear_buffered st = st\<lparr>buffered := [], buffered_position := 0\<rparr>"

definition poll_write ::
  "('f, 'w) file_ops \<Rightarrow> byte list \<Rightarrow> ('f, 'w) file_state \<Rightarrow>
   (nat io_result poll outcome \<times> ('f, 'w) file_state) option" where
  "poll_write ops buf st0 =
     (if buf = [] then Some (Returned (Ready (Inr 0)), st0)
      else let st = clear_buffered st0
        in case inner st of
          TokioFile \<Rightarrow> (case tk_write ops buf (world st) of (r, w) \<Rightarrow> Some (Returned r, st\<lparr>world := w\<rparr>))
        | SmolFile \<Rightarrow> (case sm_write ops buf (world st) of (r, w) \<Rightarrow> Some (Returned r, st\<lparr>world := w\<rparr>))
        | _ \<Rightarrow> poll_internal_write ops buf st)"

definition poll_flush ::
  "('f, 'w) file_ops \<Rightarrow> ('f, 'w) file_state \<Rightarrow>
   (unit io_result poll outcome \<times> ('f, 'w) file_state) option" where
  "poll_flush ops st =
     (case inner st of
        TokioFile \<Rightarrow> (case tk_flush ops (world st) of (r, w) \<Rightarrow> Some (Returned r, st\<lparr>world := w\<rparr>))
      | SmolFile \<Rightarrow> (case sm_flush ops (world st) of (r, w) \<Rightarrow> Some (Returned r, st\<lparr>world := w\<rparr>))
      | _ \<Rightarrow> poll_internal_flush ops st)"

text \<open>
  Seeking a Tokio file: the first half of the loop body completes a pending seek, and answers if it
  was for this position or failed; the second half starts this seek.
\<close>

definition tokio_finish_seek ::
  "('f, 'w) file_ops \<Rightarrow> seek_from \<Rightarrow> ('f, 'w) file_state \<Rightarrow>
   (u64 io_result poll outcome \<times> ('f, 'w) file_state) + ('f, 'w) file_state" where
  "tokio_finish_seek ops from st =
     (case futures_seek st of
        None \<Rightarrow> Inr st
      | Some pending \<Rightarrow>
          (case tk_complete ops (world st) of
             (Pending, w) \<Rightarrow> Inl (Returned Pending, st\<lparr>world := w\<rparr>)
           | (Ready r, w) \<Rightarrow>
               (let s = st\<lparr>world := w, futures_seek := None\<rparr>
                in if pending = from then Inl (Returned (Ready r), s)
                   else case r of Inl e \<Rightarrow> Inl (Returned (Ready (Inl e)), s) | Inr p \<Rightarrow> Inr s)))"

partial_function (option) poll_tokio_seek ::
  "('f, 'w) file_ops \<Rightarrow> seek_from \<Rightarrow> ('f, 'w) file_state \<Rightarrow>
   (u64 io_result poll outcome \<times> ('f, 'w) file_state) option" where
  "poll_tokio_seek ops from st =
     (case tokio_finish_seek ops from st of
        Inl res \<Rightarrow> Some res
      | Inr s \<Rightarrow>
          (case tk_start_seek ops from (world s) of
             (Inl e, w) \<Rightarrow> Some (Returned (Ready (Inl e)), s\<lparr>world := w\<rparr>)
           | (Inr u, w) \<Rightarrow>
               poll_tokio_seek ops from (s\<lparr>world := w, futures_seek := Some from\<rparr>)))"

definition poll_seek ::
  "('f, 'w) file_ops \<Rightarrow> seek_from \<Rightarrow> ('f, 'w) file_state \<Rightarrow>
   (u64 io_result poll outcome \<times> ('f, 'w) file_state) option" where
  "poll_seek ops from st0 =
     (let st = clear_buffered st0
      in case inner st of
          TokioFile \<Rightarrow> poll_tokio_seek ops from st
        | SmolFile \<Rightarrow> (case sm_seek ops from (world st) of (r, w) \<Rightarrow> Some (Returned r, st\<lparr>world := w\<rparr>))
        | _ \<Rightarrow> poll_internal_seek ops from st)"

text \<open>Tokio's \<open>AsyncSeek\<close> for \<open>File\<close>: \<open>start_seek\<close> and \<open>poll_complete\<close>.\<close>

definition seek_busy_error :: io_error where
  "seek_busy_error = IoError Other ''another seek operation is in progress''"

definition start_seek :: "seek_from \<Rightarrow> (('f, 'w) file_state, unit) io" where
  "start_seek from st =
     (if tokio_seek st \<noteq> None then (Inl seek_busy_error, st)
      else (Inr (), st\<lparr>tokio_seek := Some from\<rparr>))"

definition poll_complete ::
  "('f, 'w) file_ops \<Rightarrow> ('f, 'w) file_state \<Rightarrow>
   (u64 io_result poll outcome \<times> ('f, 'w) file_state) option" where
  "poll_complete ops st0 =
     (let from = (case tokio_seek st0 of Some f \<Rightarrow> f | None \<Rightarrow> Current 0);
          st = st0\<lparr>tokio_seek := Some from\<rparr>
      in case poll_seek ops from st of
          Some (Returned (Ready r), st') \<Rightarrow> Some (Returned (Ready r), st'\<lparr>tokio_seek := None\<rparr>)
        | other \<Rightarrow> other)"

section \<open>One step of a loop\<close>

text \<open>The future that a loop polls, and the world it starts from.\<close>

definition current_future ::
  "(file_inner \<Rightarrow> 'w \<Rightarrow> 'f io_future \<times> 'w) \<Rightarrow> ('f, 'w) file_state \<Rightarrow> 'f io_future \<times> 'w" where
  "current_future start st =
     (case operation st of Some fut \<Rightarrow> (fut, world st) | None \<Rightarrow> start (inner st) (world st))"

lemma poll_ensured:
  assumes "current_future start st = (fut, w)" and "future_poll ops fut w = (r, fut', w')"
  shows "poll_operation ops (ensure_operation start st) =
    (Returned r, st\<lparr>operation := (if r = Pending then Some fut' else None), world := w'\<rparr>)"
  using assms
  by (auto simp: current_future_def poll_operation_def ensure_operation_def
      split: option.splits prod.splits poll.splits)

text \<open>A future reports as what it was made for.\<close>

fun answers :: "'f io_future \<Rightarrow> io_output \<Rightarrow> bool" where
  "answers (ReadFuture fi f) (ReadOut r owned p) = True"
| "answers (WriteFuture fi buf f) (WriteOut r written p) = (written = buf \<or> (\<exists>e. r = Inl e))"
| "answers (FlushFuture f) (FlushOut r) = True"
| "answers (SeekFuture fi from f) (SeekOut requested r) = (requested = from)"
| "answers fut out = False"

lemma write_output_answers: "answers (WriteFuture fi buf f) (write_output fi buf d)"
  by (cases d) auto

lemma read_output_answers: "answers (ReadFuture fi f) (read_output fi d)"
  by (cases d) auto

lemma future_answers:
  "future_poll ops fut w = (Ready out, fut', w') \<Longrightarrow> answers fut out"
  by (cases "(ops, fut, w)" rule: future_poll.cases)
    (auto simp: write_output_answers read_output_answers split: prod.splits poll.splits)

lemma answers_cases:
  assumes "answers fut out"
  obtains fi f r owned p where "fut = ReadFuture fi f" and "out = ReadOut r owned p"
  | fi buf f r p where "fut = WriteFuture fi buf f" and "out = WriteOut r buf p"
  | fi buf f e written p where "fut = WriteFuture fi buf f" and "out = WriteOut (Inl e) written p"
  | f r where "fut = FlushFuture f" and "out = FlushOut r"
  | fi q f r where "fut = SeekFuture fi q f" and "out = SeekOut q r"
  using assms by (cases fut; cases out) auto

text \<open>The four ways an iteration goes on, by the future it polled.\<close>

lemma apply_position_fields [simp]:
  "operation (apply_position p st) = operation st"
  "world (apply_position p st) = world st"
  "inner (apply_position p st) = moved_to (inner st) p"
  "buffered (apply_position p st) = buffered st"
  "buffered_position (apply_position p st) = buffered_position st"
  "futures_seek (apply_position p st) = futures_seek st"
  "tokio_seek (apply_position p st) = tokio_seek st"
  by (simp_all add: apply_position_def)

lemma discarded_operation:
  "finish_discarded out st = (r, st') \<Longrightarrow> operation st' = operation st"
  by (cases "(out, st)" rule: finish_discarded.cases) (auto split: sum.splits)

definition same_buffer :: "('f, 'w) file_state \<Rightarrow> ('f, 'w) file_state \<Rightarrow> bool" where
  "same_buffer s t \<longleftrightarrow> buffered s = buffered t \<and> buffered_position s = buffered_position t"

lemma discarded_buffer:
  "finish_discarded out st = (r, st') \<Longrightarrow> same_buffer st' st"
  by (cases "(out, st)" rule: finish_discarded.cases) (auto simp: same_buffer_def split: sum.splits)

lemma fresh_future:
  "operation st = None \<Longrightarrow> current_future start st = start (inner st) (world st)"
  by (simp add: current_future_def)

section \<open>Every poll returns\<close>

lemma write_fresh:
  assumes "operation st = None"
  shows "\<exists>r st'. poll_internal_write ops buf st = Some (Returned r, st') \<and>
    (operation st' = None \<longleftrightarrow> r \<noteq> Pending) \<and>
    (\<forall>n. r = Ready (Inr n) \<longrightarrow> (\<exists>fi f w p fut.
       future_poll ops (WriteFuture fi buf f) w = (Ready (WriteOut (Inr n) buf p), fut, world st') \<and>
       inner st' = moved_to (inner st) p))"
proof -
  obtain f w where f: "fo_write ops (inner st) buf (world st) = (f, w)"
    by (cases "fo_write ops (inner st) buf (world st)")
  then have cur: "current_future (\<lambda>fi. write_operation ops fi buf) st = (WriteFuture (inner st) buf f, w)"
    by (simp add: fresh_future [OF assms] write_operation_def)
  obtain r fut' w' where p: "future_poll ops (WriteFuture (inner st) buf f) w = (r, fut', w')"
    by (cases "future_poll ops (WriteFuture (inner st) buf f) w")
  note step = poll_ensured [OF cur p]
  show ?thesis
  proof (cases r)
    case Pending
    with step show ?thesis by (subst poll_internal_write.simps) auto
  next
    case (Ready out)
    from future_answers [OF p [unfolded Ready]] consider r' q where "out = WriteOut r' buf q"
      | e written q where "out = WriteOut (Inl e) written q" by (cases rule: answers_cases) auto
    then show ?thesis
      using step Ready p by cases (subst poll_internal_write.simps, fastforce simp: Let_def)+
  qed
qed

lemma write_discarded:
  assumes "poll_operation ops (ensure_operation (\<lambda>fi. write_operation ops fi buf) st) = (Returned (Ready out), s)"
    and "operation s = None" and "\<And>r b p. out \<noteq> WriteOut r b p"
    and "\<And>s1. operation s1 = None \<Longrightarrow> same_buffer s1 s \<Longrightarrow> Q (poll_internal_write ops buf s1)"
    and "\<And>e s1. operation s1 = None \<Longrightarrow> same_buffer s1 s \<Longrightarrow> Q (Some (Returned (Ready (Inl e)), s1))"
  shows "Q (poll_internal_write ops buf st)"
proof (cases "finish_discarded out s")
  case (Pair res s1)
  with assms(2) have s1: "operation s1 = None" "same_buffer s1 s"
    by (auto simp: discarded_operation dest: discarded_buffer)
  have "poll_internal_write ops buf st = (case res of Inl e \<Rightarrow> Some (Returned (Ready (Inl e)), s1) | Inr u \<Rightarrow> poll_internal_write ops buf s1)"
    using assms(1,3) Pair by (subst poll_internal_write.simps) (cases out; auto split: sum.splits)
  with assms(4,5) s1 show ?thesis by (cases res) simp_all
qed

lemma write_returns:
  "\<exists>r st'. poll_internal_write ops buf st = Some (Returned r, st') \<and>
    (operation st' = None \<longleftrightarrow> r \<noteq> Pending) \<and>
    (\<forall>n. r = Ready (Inr n) \<longrightarrow> (\<exists>fi f w p fut fj.
       future_poll ops (WriteFuture fi buf f) w = (Ready (WriteOut (Inr n) buf p), fut, world st') \<and>
       inner st' = moved_to fj p))"
proof -
  let ?G = "\<lambda>res. \<exists>r st'. res = Some (Returned r, st') \<and>
    (operation st' = None \<longleftrightarrow> r \<noteq> Pending) \<and>
    (\<forall>n. r = Ready (Inr n) \<longrightarrow> (\<exists>fi f w p fut fj.
       future_poll ops (WriteFuture fi buf f) w = (Ready (WriteOut (Inr n) buf p), fut, world st') \<and>
       inner st' = moved_to fj p))"
  have again: "?G (poll_internal_write ops buf s)" if "operation s = None" for s
    using write_fresh [OF that, of ops buf] by metis
  obtain fut w where cur: "current_future (\<lambda>fi. write_operation ops fi buf) st = (fut, w)"
    by (cases "current_future (\<lambda>fi. write_operation ops fi buf) st")
  obtain r fut' w' where p: "future_poll ops fut w = (r, fut', w')"
    by (cases "future_poll ops fut w")
  note step = poll_ensured [OF cur p]
  show ?thesis
  proof (cases r)
    case Pending
    with step show ?thesis by (subst poll_internal_write.simps) auto
  next
    case (Ready out)
    show ?thesis
      using future_answers [OF p [unfolded Ready]]
    proof (cases rule: answers_cases)
      case (2 fi buf' f r' q)
      show ?thesis
      proof (cases "buf' = buf")
        case True
        with step Ready p 2 show ?thesis by (subst poll_internal_write.simps) (fastforce simp: Let_def)
      next
        case False
        with step Ready p 2 again show ?thesis
          by (subst poll_internal_write.simps) (auto simp: Let_def split: sum.splits)
      qed
    next
      case (3 fi buf' f e written q)
      with step Ready p show ?thesis by (subst poll_internal_write.simps) (auto simp: Let_def)
    qed (rule write_discarded [OF step [unfolded Ready poll.distinct if_False]], simp, force,
        rule again, simp, simp)+
  qed
qed

lemma seek_discarded:
  assumes "poll_operation ops (ensure_operation (\<lambda>fi. seek_operation ops fi from) st) = (Returned (Ready out), s)"
    and "operation s = None" and "\<And>q r. out \<noteq> SeekOut q r"
    and "\<And>s1. operation s1 = None \<Longrightarrow> same_buffer s1 s \<Longrightarrow> Q (poll_internal_seek ops from s1)"
    and "\<And>e s1. operation s1 = None \<Longrightarrow> same_buffer s1 s \<Longrightarrow> Q (Some (Returned (Ready (Inl e)), s1))"
  shows "Q (poll_internal_seek ops from st)"
proof (cases "finish_discarded out s")
  case (Pair res s1)
  with assms(2) have s1: "operation s1 = None" "same_buffer s1 s"
    by (auto simp: discarded_operation dest: discarded_buffer)
  have "poll_internal_seek ops from st = (case res of Inl e \<Rightarrow> Some (Returned (Ready (Inl e)), s1) | Inr u \<Rightarrow> poll_internal_seek ops from s1)"
    using assms(1,3) Pair by (subst poll_internal_seek.simps) (cases out; auto split: sum.splits)
  with assms(4,5) s1 show ?thesis by (cases res) simp_all
qed

lemma flush_discarded:
  assumes "poll_operation ops (ensure_operation (flush_operation ops) st) = (Returned (Ready out), s)"
    and "operation s = None" and "\<And>r. out \<noteq> FlushOut r"
    and "\<And>s1. operation s1 = None \<Longrightarrow> same_buffer s1 s \<Longrightarrow> Q (poll_internal_flush ops s1)"
    and "\<And>e s1. operation s1 = None \<Longrightarrow> same_buffer s1 s \<Longrightarrow> Q (Some (Returned (Ready (Inl e)), s1))"
  shows "Q (poll_internal_flush ops st)"
proof (cases "finish_discarded out s")
  case (Pair res s1)
  with assms(2) have s1: "operation s1 = None" "same_buffer s1 s"
    by (auto simp: discarded_operation dest: discarded_buffer)
  have "poll_internal_flush ops st = (case res of Inl e \<Rightarrow> Some (Returned (Ready (Inl e)), s1) | Inr u \<Rightarrow> poll_internal_flush ops s1)"
    using assms(1,3) Pair by (subst poll_internal_flush.simps) (cases out; auto split: sum.splits)
  with assms(4,5) s1 show ?thesis by (cases res) simp_all
qed

lemma read_discarded:
  assumes "poll_operation ops (ensure_operation (\<lambda>fi. read_operation ops fi (length buf)) st) = (Returned (Ready out), s)"
    and "operation s = None" and "\<And>r b p. out \<noteq> ReadOut r b p"
    and "\<And>s1. operation s1 = None \<Longrightarrow> same_buffer s1 s \<Longrightarrow> Q (poll_internal_read ops buf s1)"
    and "\<And>e s1. operation s1 = None \<Longrightarrow> same_buffer s1 s \<Longrightarrow> Q (Some (Returned (Ready (Inl e)), buf, s1))"
  shows "Q (poll_internal_read ops buf st)"
proof (cases "finish_discarded out s")
  case (Pair res s1)
  with assms(2) have s1: "operation s1 = None" "same_buffer s1 s"
    by (auto simp: discarded_operation dest: discarded_buffer)
  have "poll_internal_read ops buf st = (case res of Inl e \<Rightarrow> Some (Returned (Ready (Inl e)), buf, s1) | Inr u \<Rightarrow> poll_internal_read ops buf s1)"
    using assms(1,3) Pair by (subst poll_internal_read.simps) (cases out; auto split: sum.splits)
  with assms(4,5) s1 show ?thesis by (cases res) simp_all
qed

text \<open>What a seek that returned did: it failed, is under way, or answers this very position.\<close>

definition seek_result ::
  "('f, 'w) file_ops \<Rightarrow> seek_from \<Rightarrow>
   (u64 io_result poll outcome \<times> ('f, 'w) file_state) option \<Rightarrow> bool" where
  "seek_result ops q res \<longleftrightarrow>
     (\<exists>r st'. res = Some (Returned r, st') \<and> (operation st' = None \<longleftrightarrow> r \<noteq> Pending) \<and>
       (\<forall>p. r = Ready (Inr p) \<longrightarrow> (\<exists>fi f w fut fj.
          future_poll ops (SeekFuture fi q f) w = (Ready (SeekOut q (Inr p)), fut, world st') \<and>
          inner st' = moved_to fj (Some p))))"

lemma seek_result_error: "operation s = None \<Longrightarrow> seek_result ops q (Some (Returned (Ready (Inl e)), s))"
  by (simp add: seek_result_def)

lemma seek_own:
  assumes step: "poll_operation ops (ensure_operation (\<lambda>fi. seek_operation ops fi q) st) =
      (Returned (Ready (SeekOut q' r)), s)"
    and p: "future_poll ops (SeekFuture fi q' f) w = (Ready (SeekOut q' r), fut', world s)"
    and "operation s = None"
    and "\<And>s1. operation s1 = None \<Longrightarrow> q' \<noteq> q \<Longrightarrow> seek_result ops q (poll_internal_seek ops q s1)"
  shows "seek_result ops q (poll_internal_seek ops q st)"
proof (cases r)
  case (Inl e)
  with step assms(3) show ?thesis
    by (subst poll_internal_seek.simps) (simp add: seek_result_error)
next
  case (Inr n)
  show ?thesis
  proof (cases "q' = q")
    case True
    with step Inr assms(3) p show ?thesis
      by (subst poll_internal_seek.simps) (fastforce simp: seek_result_def Let_def)
  next
    case False
    with step Inr assms(3,4) show ?thesis
      by (subst poll_internal_seek.simps) (simp add: Let_def)
  qed
qed

lemma seek_fresh:
  assumes "operation st = None"
  shows "seek_result ops q (poll_internal_seek ops q st)"
proof -
  obtain f w where f: "fo_seek ops (inner st) q (world st) = (f, w)"
    by (cases "fo_seek ops (inner st) q (world st)")
  then have cur: "current_future (\<lambda>fi. seek_operation ops fi q) st = (SeekFuture (inner st) q f, w)"
    by (simp add: fresh_future [OF assms] seek_operation_def)
  obtain r fut' w' where p: "future_poll ops (SeekFuture (inner st) q f) w = (r, fut', w')"
    by (cases "future_poll ops (SeekFuture (inner st) q f) w")
  note step = poll_ensured [OF cur p]
  show ?thesis
  proof (cases r)
    case Pending
    with step show ?thesis by (subst poll_internal_seek.simps) (simp add: seek_result_def)
  next
    case (Ready out)
    from future_answers [OF p [unfolded Ready]] obtain r' where out: "out = SeekOut q r'"
      by (cases rule: answers_cases) auto
    show ?thesis
      by (rule seek_own [OF step [unfolded Ready out poll.distinct if_False]])
        (use p Ready out in \<open>simp_all del: future_poll.simps\<close>)
  qed
qed

lemma seek_returns: "seek_result ops q (poll_internal_seek ops q st)"
proof -
  obtain fut w where cur: "current_future (\<lambda>fi. seek_operation ops fi q) st = (fut, w)"
    by (cases "current_future (\<lambda>fi. seek_operation ops fi q) st")
  obtain r fut' w' where p: "future_poll ops fut w = (r, fut', w')"
    by (cases "future_poll ops fut w")
  note step = poll_ensured [OF cur p]
  show ?thesis
  proof (cases r)
    case Pending
    with step show ?thesis by (subst poll_internal_seek.simps) (simp add: seek_result_def)
  next
    case (Ready out)
    note step' = step [unfolded Ready poll.distinct if_False]
    show ?thesis
    proof (cases "\<exists>q' r'. out = SeekOut q' r'")
      case True
      then obtain q' r' where out: "out = SeekOut q' r'" by blast
      with future_answers [OF p [unfolded Ready]] obtain fi f where "fut = SeekFuture fi q' f"
        by (cases rule: answers_cases) auto
      with p Ready out show ?thesis
        by (intro seek_own [OF step' [unfolded out]]) (simp_all add: seek_fresh del: future_poll.simps)
    next
      case False
      then show ?thesis
        by (intro seek_discarded [OF step', where Q = "seek_result ops q"])
          (auto simp: seek_fresh seek_result_error)
    qed
  qed
qed

definition flush_result ::
  "('f, 'w) file_ops \<Rightarrow> (unit io_result poll outcome \<times> ('f, 'w) file_state) option \<Rightarrow> bool" where
  "flush_result ops res \<longleftrightarrow>
     (\<exists>r st'. res = Some (Returned r, st') \<and> (operation st' = None \<longleftrightarrow> r \<noteq> Pending) \<and>
       (r = Ready (Inr ()) \<longrightarrow> (\<exists>f w fut.
          future_poll ops (FlushFuture f) w = (Ready (FlushOut (Inr ())), fut, world st'))))"

lemma flush_result_error: "operation s = None \<Longrightarrow> flush_result ops (Some (Returned (Ready (Inl e)), s))"
  by (simp add: flush_result_def)

lemma flush_own:
  assumes "poll_operation ops (ensure_operation (flush_operation ops) st) =
      (Returned (Ready (FlushOut r)), s)"
    and "future_poll ops (FlushFuture f) w = (Ready (FlushOut r), fut', world s)"
    and "operation s = None"
  shows "flush_result ops (poll_internal_flush ops st)"
  using assms
  by (subst poll_internal_flush.simps) (fastforce simp: flush_result_def simp del: future_poll.simps)

lemma flush_fresh:
  assumes "operation st = None"
  shows "flush_result ops (poll_internal_flush ops st)"
proof -
  obtain f w where cur: "current_future (flush_operation ops) st = (FlushFuture f, w)"
    by (cases "inner st"; cases "fo_flush ops (world st)")
      (auto simp: fresh_future [OF assms] flush_operation_def)
  obtain r fut' w' where p: "future_poll ops (FlushFuture f) w = (r, fut', w')"
    by (cases "future_poll ops (FlushFuture f) w")
  note step = poll_ensured [OF cur p]
  show ?thesis
  proof (cases r)
    case Pending
    with step show ?thesis by (subst poll_internal_flush.simps) (simp add: flush_result_def)
  next
    case (Ready out)
    from future_answers [OF p [unfolded Ready]] obtain r' where out: "out = FlushOut r'"
      by (cases rule: answers_cases) auto
    show ?thesis
      by (rule flush_own [OF step [unfolded Ready out poll.distinct if_False]])
        (use p Ready out in \<open>simp_all del: future_poll.simps\<close>)
  qed
qed

lemma flush_returns: "flush_result ops (poll_internal_flush ops st)"
proof -
  obtain fut w where cur: "current_future (flush_operation ops) st = (fut, w)"
    by (cases "current_future (flush_operation ops) st")
  obtain r fut' w' where p: "future_poll ops fut w = (r, fut', w')"
    by (cases "future_poll ops fut w")
  note step = poll_ensured [OF cur p]
  show ?thesis
  proof (cases r)
    case Pending
    with step show ?thesis by (subst poll_internal_flush.simps) (simp add: flush_result_def)
  next
    case (Ready out)
    note step' = step [unfolded Ready poll.distinct if_False]
    show ?thesis
    proof (cases "\<exists>r'. out = FlushOut r'")
      case True
      then obtain r' where out: "out = FlushOut r'" by blast
      with future_answers [OF p [unfolded Ready]] obtain f where "fut = FlushFuture f"
        by (cases rule: answers_cases) auto
      with p Ready out show ?thesis
        by (intro flush_own [OF step' [unfolded out]]) (simp_all del: future_poll.simps)
    next
      case False
      then show ?thesis
        by (intro flush_discarded [OF step', where Q = "flush_result ops"])
          (auto simp: flush_fresh flush_result_error)
    qed
  qed
qed

text \<open>
  What a read that returned did: it failed, is under way, or shares the bytes of one finished read
  between the caller's buffer and the leftovers.
\<close>

definition leftover :: "('f, 'w) file_state \<Rightarrow> byte list" where
  "leftover st = drop (buffered_position st) (buffered st)"

definition read_result ::
  "('f, 'w) file_ops \<Rightarrow> byte list \<Rightarrow>
   (nat io_result poll outcome \<times> byte list \<times> ('f, 'w) file_state) option \<Rightarrow> bool" where
  "read_result ops buf res \<longleftrightarrow>
     (\<exists>r buf' st'. res = Some (Returned r, buf', st') \<and> length buf' = length buf \<and>
       (operation st' = None \<longleftrightarrow> r \<noteq> Pending) \<and>
       (\<forall>n. r = Ready (Inr n) \<longrightarrow> (\<exists>fi f w m owned p fut.
          future_poll ops (ReadFuture fi f) w = (Ready (ReadOut (Inr m) owned p), fut, world st') \<and>
          m \<le> length owned \<and> n = min (length buf) m \<and>
          take m owned = take n buf' @ leftover st')))"

lemma same_buffer_leftover: "same_buffer s t \<Longrightarrow> leftover s = leftover t"
  by (simp add: same_buffer_def leftover_def)

lemma read_result_error:
  "operation s = None \<Longrightarrow> read_result ops buf (Some (Returned (Ready (Inl e)), buf, s))"
  by (simp add: read_result_def)

lemma read_resultI:
  assumes "res = Some (Returned (Ready (Inr (min (length buf) m))), buf', st')"
    and "length buf' = length buf" and "operation st' = None"
    and "future_poll ops (ReadFuture fi f) w = (Ready (ReadOut (Inr m) owned p), fut, world st')"
    and "m \<le> length owned" and "take m owned = take (min (length buf) m) buf' @ leftover st'"
  shows "read_result ops buf res"
  unfolding read_result_def
proof (intro exI conjI allI impI)
  show "res = Some (Returned (Ready (Inr (min (length buf) m))), buf', st')" by (rule assms(1))
  fix n
  assume "Ready (Inr (min (length buf) m)) = Ready (Inr n)"
  then have n: "n = min (length buf) m" by auto
  show "future_poll ops (ReadFuture fi f) w = (Ready (ReadOut (Inr m) owned p), fut, world st')"
    by (rule assms(4))
  show "m \<le> length owned" and "n = min (length buf) m" and "take m owned = take n buf' @ leftover st'"
    using assms n by simp_all
qed (use assms in simp_all)

lemma read_own:
  assumes step: "poll_operation ops (ensure_operation (\<lambda>fi. read_operation ops fi (length buf)) st) =
      (Returned (Ready (ReadOut r owned p)), s)"
    and fp: "future_poll ops (ReadFuture fi f) w = (Ready (ReadOut r owned p), fut', world s)"
    and "operation s = None" and "leftover s = []"
  shows "read_result ops buf (poll_internal_read ops buf st)"
proof (cases r)
  case (Inl e)
  with step assms(3) show ?thesis
    by (subst poll_internal_read.simps) (simp add: read_result_error)
next
  case (Inr m)
  show ?thesis
  proof (cases "length owned < m")
    case True
    with step Inr assms(3) show ?thesis
      by (subst poll_internal_read.simps) (simp add: read_result_error)
  next
    case False
    let ?c = "min (length buf) m"
    let ?s1 = "apply_position p s"
    let ?st' = "if ?c < m then ?s1\<lparr>buffered := take m owned, buffered_position := ?c\<rparr> else ?s1"
    let ?buf' = "copy_prefix (take ?c owned) buf"
    have res: "poll_internal_read ops buf st = Some (Returned (Ready (Inr ?c)), ?buf', ?st')"
      using step Inr False by (subst poll_internal_read.simps) (simp add: Let_def)
    have len: "length ?buf' = length buf" using False by simp
    have "take ?c ?buf' = take ?c owned" using False by (simp add: take_copy_prefix_n)
    moreover have "leftover ?st' = drop ?c (take m owned)"
      using assms(4) False by (cases "?c < m") (simp_all add: leftover_def)
    moreover have "take m owned = take ?c owned @ drop ?c (take m owned)"
      using append_take_drop_id [of ?c "take m owned"] by (simp add: min_def split: if_splits)
    ultimately have split: "take m owned = take ?c ?buf' @ leftover ?st'" by simp
    have "world ?st' = world s" and op: "operation ?st' = None" using assms(3) by simp_all
    with fp Inr have "future_poll ops (ReadFuture fi f) w =
        (Ready (ReadOut (Inr m) owned p), fut', world ?st')" by (simp del: future_poll.simps)
    from read_resultI [OF res len op this _ split] False show ?thesis by simp
  qed
qed

lemma read_fresh:
  assumes "operation st = None" and "leftover st = []"
  shows "read_result ops buf (poll_internal_read ops buf st)"
proof -
  obtain f w where f: "fo_read ops (inner st) (length buf) (world st) = (f, w)"
    by (cases "fo_read ops (inner st) (length buf) (world st)")
  then have cur: "current_future (\<lambda>fi. read_operation ops fi (length buf)) st =
      (ReadFuture (inner st) f, w)"
    by (simp add: fresh_future [OF assms(1)] read_operation_def)
  obtain r fut' w' where p: "future_poll ops (ReadFuture (inner st) f) w = (r, fut', w')"
    by (cases "future_poll ops (ReadFuture (inner st) f) w")
  note step = poll_ensured [OF cur p]
  show ?thesis
  proof (cases r)
    case Pending
    with step show ?thesis by (subst poll_internal_read.simps) (simp add: read_result_def)
  next
    case (Ready out)
    from future_answers [OF p [unfolded Ready]] obtain r' owned q where out: "out = ReadOut r' owned q"
      by (cases rule: answers_cases) auto
    show ?thesis
      by (rule read_own [OF step [unfolded Ready out poll.distinct if_False]])
        (use p Ready out assms(2) in \<open>simp_all add: leftover_def del: future_poll.simps\<close>)
  qed
qed

lemma read_returns:
  assumes "leftover st = []"
  shows "read_result ops buf (poll_internal_read ops buf st)"
proof -
  obtain fut w where cur: "current_future (\<lambda>fi. read_operation ops fi (length buf)) st = (fut, w)"
    by (cases "current_future (\<lambda>fi. read_operation ops fi (length buf)) st")
  obtain r fut' w' where p: "future_poll ops fut w = (r, fut', w')"
    by (cases "future_poll ops fut w")
  note step = poll_ensured [OF cur p]
  show ?thesis
  proof (cases r)
    case Pending
    with step show ?thesis by (subst poll_internal_read.simps) (simp add: read_result_def)
  next
    case (Ready out)
    note step' = step [unfolded Ready poll.distinct if_False]
    show ?thesis
    proof (cases "\<exists>r' owned q. out = ReadOut r' owned q")
      case True
      then obtain r' owned q where out: "out = ReadOut r' owned q" by blast
      with future_answers [OF p [unfolded Ready]] obtain fi f where "fut = ReadFuture fi f"
        by (cases rule: answers_cases) auto
      with p Ready out assms show ?thesis
        by (intro read_own [OF step' [unfolded out]])
          (simp_all add: leftover_def del: future_poll.simps)
    next
      case False
      have left: "same_buffer s1 (st\<lparr>operation := None, world := w'\<rparr>) \<Longrightarrow> leftover s1 = []" for s1
        using assms by (simp add: same_buffer_def leftover_def)
      show ?thesis
        by (rule read_discarded [OF step', where Q = "read_result ops buf"])
          (use False left in \<open>auto simp: read_fresh read_result_error\<close>)
    qed
  qed
qed

lemma tokio_seek_started:
  "futures_seek st = Some q \<Longrightarrow> \<exists>res. tokio_finish_seek ops q st = Inl (Returned (fst res), snd res)"
  by (auto simp: tokio_finish_seek_def Let_def split: prod.splits poll.splits)

lemma tokio_seek_returns: "\<exists>r st'. poll_tokio_seek ops q st = Some (Returned r, st')"
proof (cases "tokio_finish_seek ops q st")
  case (Inl res)
  then have "\<exists>r st'. res = (Returned r, st')"
    by (auto simp: tokio_finish_seek_def Let_def split: option.splits prod.splits poll.splits sum.splits if_splits)
  with Inl show ?thesis by (subst poll_tokio_seek.simps) auto
next
  case (Inr s)
  obtain r w where start: "tk_start_seek ops q (world s) = (r, w)" by (cases "tk_start_seek ops q (world s)")
  show ?thesis
  proof (cases r)
    case (Inl e)
    with start Inr \<open>tokio_finish_seek ops q st = Inr s\<close> show ?thesis
      by (subst poll_tokio_seek.simps) simp
  next
    case (Inr u)
    let ?s = "s\<lparr>world := w, futures_seek := Some q\<rparr>"
    from tokio_seek_started [of ?s q ops] obtain res
      where "tokio_finish_seek ops q ?s = Inl (Returned (fst res), snd res)" by auto
    then have "poll_tokio_seek ops q ?s = Some (Returned (fst res), snd res)"
      by (subst poll_tokio_seek.simps) simp
    with start Inr \<open>tokio_finish_seek ops q st = Inr s\<close> show ?thesis
      by (subst poll_tokio_seek.simps) simp
  qed
qed

end
