(* ===== verification/File_Poll_Properties.thy ===== *)
theory File_Poll_Properties
  imports File_Poll File_Properties
begin

text \<open>
  The properties of the poll state machine of \<open>File_Poll\<close>: every poll returns, an answer belongs to
  the request of the caller, no byte of a sequence of reads is lost or repeated, and what asking for
  the position does to bytes that were read ahead.
\<close>

section \<open>The bodies of the Compio operations\<close>

text \<open>
  \<open>read_operation\<close>, \<open>write_operation\<close> and \<open>seek_operation\<close> run \<open>read\<close>, \<open>write\<close> and \<open>seek\<close> of a copy
  of the \<open>CompioFile\<close>. A body is pending a number of times that \<open>delay\<close> chooses, and then runs.
\<close>

datatype compio_body =
  RunRead u64 nat nat | RunWrite u64 "byte list" nat | RunSeek u64 seek_from nat | Idle

fun cursor :: "file_inner \<Rightarrow> u64" where
  "cursor (CompioFile p) = p"
| "cursor (WasmFile r w a p) = p"
| "cursor fi = 0"

fun compio_body_read :: "'w compio_ops \<Rightarrow> compio_body \<Rightarrow> 'w \<Rightarrow> read_done poll \<times> compio_body \<times> 'w" where
  "compio_body_read ops (RunRead p n 0) w =
     (case compio_read ops (replicate n 0) \<lparr>disk = w, position = p\<rparr> of
        (Returned r, buf, f) \<Rightarrow> (Ready (Inr (r, buf, position f)), Idle, disk f)
      | (Unwound, buf, f) \<Rightarrow> (Ready (Inl Panicked), Idle, disk f))"
| "compio_body_read ops (RunRead p n (Suc k)) w = (Pending, RunRead p n k, w)"
| "compio_body_read ops b w = (Pending, b, w)"

fun compio_body_write :: "'w compio_ops \<Rightarrow> compio_body \<Rightarrow> 'w \<Rightarrow> write_done poll \<times> compio_body \<times> 'w" where
  "compio_body_write ops (RunWrite p b 0) w =
     (case compio_write ops b \<lparr>disk = w, position = p\<rparr> of
        (Returned r, f) \<Rightarrow> (Ready (Inr (r, position f)), Idle, disk f)
      | (Unwound, f) \<Rightarrow> (Ready (Inl Panicked), Idle, disk f))"
| "compio_body_write ops (RunWrite p b (Suc k)) w = (Pending, RunWrite p b k, w)"
| "compio_body_write ops b w = (Pending, b, w)"

fun compio_body_seek ::
  "'w compio_ops \<Rightarrow> compio_body \<Rightarrow> 'w \<Rightarrow> (join_error + u64 io_result) poll \<times> compio_body \<times> 'w" where
  "compio_body_seek ops (RunSeek p q 0) w =
     (case compio_seek ops q \<lparr>disk = w, position = p\<rparr> of (r, f) \<Rightarrow> (Ready (Inr r), Idle, disk f))"
| "compio_body_seek ops (RunSeek p q (Suc k)) w = (Pending, RunSeek p q k, w)"
| "compio_body_seek ops b w = (Pending, b, w)"

definition compio_file_ops :: "'w compio_ops \<Rightarrow> (nat \<Rightarrow> nat) \<Rightarrow> (compio_body, 'w) file_ops" where
  "compio_file_ops ops delay = \<lparr>
     fo_read = (\<lambda>fi n w. (RunRead (cursor fi) n (delay n), w)),
     fo_write = (\<lambda>fi b w. (RunWrite (cursor fi) b (delay (length b)), w)),
     fo_flush = (\<lambda>w. (Idle, w)),
     fo_seek = (\<lambda>fi q w. (RunSeek (cursor fi) q (delay 0), w)),
     fo_poll_read = compio_body_read ops, fo_poll_write = compio_body_write ops,
     fo_poll_flush = (\<lambda>b w. (Ready (Inr (Inr ())), b, w)),
     fo_poll_seek = compio_body_seek ops,
     tk_read = (\<lambda>n w. (Pending, w)), tk_write = (\<lambda>b w. (Pending, w)), tk_flush = (\<lambda>w. (Pending, w)),
     tk_start_seek = (\<lambda>q w. (Inr (), w)), tk_complete = (\<lambda>w. (Pending, w)),
     sm_read = (\<lambda>b w. (Pending, b, w)), sm_write = (\<lambda>b w. (Pending, w)),
     sm_flush = (\<lambda>w. (Pending, w)), sm_seek = (\<lambda>q w. (Pending, w))\<rparr>"

section \<open>Polls return\<close>

text \<open>
  C18: no poll of a file loops or unwinds. For every file, every state of its \<open>FileIo\<close> (any operation
  in flight, any leftovers) and every behaviour of the runtimes, \<open>poll_read\<close>, \<open>poll_write\<close>,
  \<open>poll_flush\<close>, \<open>poll_seek\<close> and \<open>poll_complete\<close> return; the unwrap of the operation never fails.
\<close>

theorem file_polls_return:
  "(\<exists>r buf' st'. poll_read ops buf st = Some (Returned r, buf', st')) \<and>
   (\<exists>r st'. poll_write ops buf st = Some (Returned r, st')) \<and>
   (\<exists>r st'. poll_flush ops st = Some (Returned r, st')) \<and>
   (\<exists>r st'. poll_seek ops q st = Some (Returned r, st')) \<and>
   (\<exists>r st'. poll_complete ops st = Some (Returned r, st'))"
proof -
  have read: "\<exists>r buf' st'. poll_read ops buf st = Some (Returned r, buf', st')"
  proof (cases "buf = [] \<or> buffered_position st < length (buffered st)")
    case True
    then show ?thesis by (auto simp: poll_read_def Let_def)
  next
    case False
    then have "leftover st = []" by (simp add: leftover_def)
    from read_returns [OF this, of ops buf] have "\<exists>r buf' st'. poll_internal_read ops buf st = Some (Returned r, buf', st')"
      by (auto simp: read_result_def)
    with False show ?thesis
      by (auto simp: poll_read_def split: file_inner.splits prod.splits poll.splits sum.splits)
  qed
  have wr: "\<exists>r st'. poll_write ops buf st = Some (Returned r, st')"
    using write_returns [of ops buf "clear_buffered st"]
    by (auto simp: poll_write_def Let_def split: file_inner.splits prod.splits)
  have flush: "\<exists>r st'. poll_flush ops st = Some (Returned r, st')"
    using flush_returns [of ops st]
    by (auto simp: poll_flush_def flush_result_def split: file_inner.splits prod.splits)
  have seek: "\<exists>r s'. poll_seek ops q s = Some (Returned r, s')" for q s
    using seek_returns [of ops q "clear_buffered s"] tokio_seek_returns [of ops q "clear_buffered s"]
    by (auto simp: poll_seek_def seek_result_def Let_def split: file_inner.splits prod.splits)
  have "\<exists>r st'. poll_complete ops st = Some (Returned r, st')"
  proof -
    let ?q = "case tokio_seek st of Some f \<Rightarrow> f | None \<Rightarrow> Current 0"
    from seek [of ?q "st\<lparr>tokio_seek := Some ?q\<rparr>"] show ?thesis
      unfolding poll_complete_def by (auto simp: Let_def split: poll.splits)
  qed
  with read wr flush seek show ?thesis by blast
qed

section \<open>Answers belong to requests\<close>

definition own_io :: "file_inner \<Rightarrow> bool" where
  "own_io fi \<longleftrightarrow> fi \<noteq> TokioFile \<and> fi \<noteq> SmolFile"


definition demo_ops :: "(compio_body, byte list) file_ops" where
  "demo_ops = compio_file_ops mem_compio (\<lambda>n. 0)"

text \<open>A file of six bytes; a read of another caller is in flight at the start of the write.\<close>

definition demo_file :: "(compio_body, byte list) file_state" where
  "demo_file = (from_inner (CompioFile 2) [1, 2, 3, 4, 5, 6])
     \<lparr>operation := Some (ReadFuture (CompioFile 2) (RunRead 2 1 0))\<rparr>"

lemma demo_ops_fields:
  "fo_read demo_ops = (\<lambda>fi n w. (RunRead (cursor fi) n 0, w))"
  "fo_write demo_ops = (\<lambda>fi b w. (RunWrite (cursor fi) b 0, w))"
  "fo_seek demo_ops = (\<lambda>fi q w. (RunSeek (cursor fi) q 0, w))"
  "fo_poll_read demo_ops = compio_body_read mem_compio"
  "fo_poll_write demo_ops = compio_body_write mem_compio"
  "fo_poll_seek demo_ops = compio_body_seek mem_compio"
  by (simp_all add: demo_ops_def compio_file_ops_def)

lemmas demo_steps = demo_ops_fields demo_file_def from_inner_def mem_compio_def mem_contents_def
  checked_add_u64_def compio_read_def compio_write_def compio_seek_def copy_prefix_def
  poll_operation_def ensure_operation_def read_operation_def write_operation_def
  seek_operation_def apply_position_def clear_buffered_def put_at_def try_from_u64_def


text \<open>
  A seek is answered for the caller's position. When \<open>poll_seek\<close> of a Compio, blocking or Wasm
  file answers a position, a seek operation to exactly the caller's target has just completed with
  it, whatever was in flight before, and a file with its own cursor stands there.
\<close>

theorem seek_answers_caller:
  assumes "own_io (inner st)" and "poll_seek ops q st = Some (Returned (Ready (Inr p)), st')"
  shows "operation st' = None \<and> (\<exists>fi f w fut fj.
    future_poll ops (SeekFuture fi q f) w = (Ready (SeekOut q (Inr p)), fut, world st') \<and>
    inner st' = moved_to fj (Some p))"
proof -
  from assms have "poll_internal_seek ops q (clear_buffered st) = Some (Returned (Ready (Inr p)), st')"
    by (auto simp: poll_seek_def own_io_def Let_def clear_buffered_def split: file_inner.splits)
  with seek_returns [of ops q "clear_buffered st"] show ?thesis by (auto simp: seek_result_def)
qed

theorem seek_answers_caller_witness:
  "\<exists>fi f w fut fj. future_poll demo_ops (SeekFuture fi (End (- 1)) f) w =
      (Ready (SeekOut (End (- 1)) (Inr 5)), fut, [1, 2, 3, 4, 5, 6]) \<and>
    CompioFile 5 = moved_to fj (Some 5)"
proof -
  let ?st = "\<lparr>inner = CompioFile 5, operation = None, buffered = [], buffered_position = 0,
     futures_seek = None, tokio_seek = None, world = [1, 2, 3, 4, 5, 6]\<rparr> ::
     (compio_body, byte list) file_state"
  have 1: "own_io (inner demo_file)" by (simp add: own_io_def demo_file_def from_inner_def)
  have 2: "poll_seek demo_ops (End (- 1)) demo_file = Some (Returned (Ready (Inr 5)), ?st)"
    by (simp add: poll_seek_def poll_internal_seek.simps [of demo_ops] demo_steps)
  from seek_answers_caller [OF 1 2] show ?thesis by simp
qed

section \<open>The stream of bytes\<close>

text \<open>
  \<open>und b fi w\<close>: the bytes of the file that no finished read has taken yet, when the body \<open>b\<close> of a
  read may be in flight. A read in flight changes nothing about them until it finishes, and then
  takes the bytes it reports, and none when it fails. \<open>k\<close> says which files, with which bodies in
  flight, this is about.
\<close>

definition stream_laws ::
  "('f, 'w) file_ops \<Rightarrow> ('f option \<Rightarrow> file_inner \<Rightarrow> 'w \<Rightarrow> byte list) \<Rightarrow> (file_inner \<Rightarrow> 'f option \<Rightarrow> bool) \<Rightarrow> bool" where
  "stream_laws ops und k \<longleftrightarrow>
     (\<forall>fi b p. k fi b \<longrightarrow> own_io fi \<and> k (moved_to fi p) None) \<and>
     (\<forall>fi n w f w'. k fi None \<longrightarrow> fo_read ops fi n w = (f, w') \<longrightarrow>
        k fi (Some f) \<and> und (Some f) fi w' = und None fi w) \<and>
     (\<forall>fi f w f' w'. k fi (Some f) \<longrightarrow> fo_poll_read ops f w = (Pending, f', w') \<longrightarrow>
        k fi (Some f') \<and> und (Some f') fi w' = und (Some f) fi w) \<and>
     (\<forall>fi f w m owned p f' w'. k fi (Some f) \<longrightarrow> fo_poll_read ops f w = (Ready (Inr (Inr m, owned, p)), f', w') \<longrightarrow>
        m \<le> length owned \<and>
        und (Some f) fi w = take m owned @ und None (moved_to fi (reported_position fi (Inr m :: nat io_result) p)) w') \<and>
     (\<forall>fi f w e owned p f' w'. k fi (Some f) \<longrightarrow> fo_poll_read ops f w = (Ready (Inr (Inl e, owned, p)), f', w') \<longrightarrow>
        und (Some f) fi w = und None fi w') \<and>
     (\<forall>fi f w e f' w'. k fi (Some f) \<longrightarrow> fo_poll_read ops f w = (Ready (Inl e), f', w') \<longrightarrow>
        und (Some f) fi w = und None fi w')"

text \<open>Only reads in flight, on a copy of the file as it is.\<close>

definition reading :: "('f, 'w) file_state \<Rightarrow> bool" where
  "reading st \<longleftrightarrow> (case operation st of None \<Rightarrow> True | Some (ReadFuture fi f) \<Rightarrow> fi = inner st | _ \<Rightarrow> False)"

fun body_of :: "'f io_future option \<Rightarrow> 'f option" where
  "body_of (Some (ReadFuture fi f)) = Some f"
| "body_of _ = None"

text \<open>What the callers of the file are still to get: the leftovers and then the rest.\<close>

definition owed :: "('f option \<Rightarrow> file_inner \<Rightarrow> 'w \<Rightarrow> byte list) \<Rightarrow> ('f, 'w) file_state \<Rightarrow> byte list" where
  "owed und st = leftover st @ und (body_of (operation st)) (inner st) (world st)"

fun delivered :: "nat io_result poll \<Rightarrow> nat" where
  "delivered (Ready (Inr n)) = n"
| "delivered _ = 0"

text \<open>A sequence of polls with the given buffers, and the bytes they delivered.\<close>

fun read_run ::
  "('f, 'w) file_ops \<Rightarrow> byte list list \<Rightarrow> ('f, 'w) file_state \<Rightarrow> (byte list \<times> ('f, 'w) file_state) option"
where
  "read_run ops [] st = Some ([], st)"
| "read_run ops (buf # bufs) st =
     (case poll_read ops buf st of
        Some (Returned r, buf', st') \<Rightarrow>
          map_option (apfst ((@) (take (delivered r) buf'))) (read_run ops bufs st')
      | _ \<Rightarrow> None)"

lemma stream_start:
  "stream_laws ops und k \<Longrightarrow> k fi None \<Longrightarrow> fo_read ops fi n w = (f, w') \<Longrightarrow>
   k fi (Some f) \<and> und (Some f) fi w' = und None fi w"
  unfolding stream_laws_def by (elim conjE) metis

lemma stream_pending:
  "stream_laws ops und k \<Longrightarrow> k fi (Some f) \<Longrightarrow> fo_poll_read ops f w = (Pending, f', w') \<Longrightarrow>
   k fi (Some f') \<and> und (Some f') fi w' = und (Some f) fi w"
  unfolding stream_laws_def by (elim conjE) metis

lemma stream_got:
  "stream_laws ops und k \<Longrightarrow> k fi (Some f) \<Longrightarrow> fo_poll_read ops f w = (Ready (Inr (Inr m, owned, p)), f', w') \<Longrightarrow>
   m \<le> length owned \<and>
   und (Some f) fi w = take m owned @ und None (moved_to fi (reported_position fi (Inr m :: nat io_result) p)) w'"
  unfolding stream_laws_def by (elim conjE) metis

lemma stream_failed:
  "stream_laws ops und k \<Longrightarrow> k fi (Some f) \<Longrightarrow> fo_poll_read ops f w = (Ready (Inr (Inl e, owned, p)), f', w') \<Longrightarrow>
   und (Some f) fi w = und None fi w'"
  "stream_laws ops und k \<Longrightarrow> k fi (Some f) \<Longrightarrow> fo_poll_read ops f w = (Ready (Inl e'), f', w') \<Longrightarrow>
   und (Some f) fi w = und None fi w'"
  unfolding stream_laws_def by (elim conjE, metis)+

lemma stream_files: "stream_laws ops und k \<Longrightarrow> k fi b \<Longrightarrow> own_io fi \<and> k (moved_to fi p) None"
  unfolding stream_laws_def by (elim conjE) metis

text \<open>The future that a reading file polls.\<close>

lemma reading_current:
  assumes "stream_laws ops und k" and "k (inner st) (body_of (operation st))" and "reading st" and "leftover st = []"
  obtains f w where "current_future (\<lambda>fi. read_operation ops fi n) st = (ReadFuture (inner st) f, w)"
    and "und (Some f) (inner st) w = owed und st" and "k (inner st) (Some f)"
proof (cases "operation st")
  case None
  obtain f w where f: "fo_read ops (inner st) n (world st) = (f, w)"
    by (cases "fo_read ops (inner st) n (world st)")
  show ?thesis
    by (rule that [of f w])
      (use None f stream_start [OF assms(1) _ f] assms(2,4) in
        \<open>auto simp: current_future_def read_operation_def owed_def\<close>)
next
  case (Some fut)
  with assms(3) obtain f where f: "fut = ReadFuture (inner st) f"
    by (auto simp: reading_def split: io_future.splits)
  show ?thesis
    by (rule that [of f "world st"])
      (use Some f assms(2,4) in \<open>auto simp: current_future_def owed_def\<close>)
qed

lemma reported_error [simp]: "reported_position fi (Inl e) p = None"
  by (cases fi) simp_all

text \<open>One internal read keeps what is owed, less what it delivers.\<close>

definition keeps_owed ::
  "('f option \<Rightarrow> file_inner \<Rightarrow> 'w \<Rightarrow> byte list) \<Rightarrow> (file_inner \<Rightarrow> 'f option \<Rightarrow> bool) \<Rightarrow> ('f, 'w) file_state \<Rightarrow>
   (nat io_result poll outcome \<times> byte list \<times> ('f, 'w) file_state) option \<Rightarrow> bool" where
  "keeps_owed und k st res \<longleftrightarrow>
     (\<exists>r buf' st'. res = Some (Returned r, buf', st') \<and> reading st' \<and>
        k (inner st') (body_of (operation st')) \<and>
        owed und st = take (delivered r) buf' @ owed und st')"

lemma keeps_owedI:
  "reading st' \<Longrightarrow> k (inner st') (body_of (operation st')) \<Longrightarrow>
   owed und st = take (delivered r) buf' @ owed und st' \<Longrightarrow>
   keeps_owed und k st (Some (Returned r, buf', st'))"
  by (auto simp: keeps_owed_def)

lemma internal_read_keeps_owed:
  assumes laws: "stream_laws ops und k" and k: "k (inner st) (body_of (operation st))" and rd: "reading st"
    and left: "leftover st = []"
  shows "keeps_owed und k st (poll_internal_read ops buf st)"
proof -
  from reading_current [OF laws k rd left] obtain f w
    where cur: "current_future (\<lambda>fi. read_operation ops fi (length buf)) st = (ReadFuture (inner st) f, w)"
    and und: "und (Some f) (inner st) w = owed und st" and kf: "k (inner st) (Some f)" .
  obtain d f' w' where p: "fo_poll_read ops f w = (d, f', w')" by (cases "fo_poll_read ops f w")
  have done_left: "leftover (apply_position q (st\<lparr>operation := None, world := w'\<rparr>)) = []" for q
    using left by (simp add: leftover_def)
  show ?thesis
  proof (cases d)
    case Pending
    let ?st' = "st\<lparr>operation := Some (ReadFuture (inner st) f'), world := w'\<rparr>"
    have "poll_internal_read ops buf st = Some (Returned Pending, buf, ?st')"
      using poll_ensured [OF cur] p Pending by (subst poll_internal_read.simps) simp
    moreover have "leftover ?st' = []" using left by (simp add: leftover_def)
    ultimately show ?thesis
      using k und stream_pending [OF laws kf p [unfolded Pending]]
      by (simp only:) (rule keeps_owedI, simp_all add: reading_def owed_def)
  next
    case (Ready x)
    note pe = poll_ensured [OF cur, of ops]
    let ?s = "st\<lparr>operation := None, world := w'\<rparr>"
    consider e where "x = Inl e" | e owned q where "x = Inr (Inl e, owned, q)"
      | m owned q where "x = Inr (Inr m, owned, q)"
      by (metis old.sum.exhaust prod_cases3)
    then show ?thesis
    proof cases
      case (1 e)
      have "poll_internal_read ops buf st =
          Some (Returned (Ready (Inl (join_io_error e))), buf, apply_position None ?s)"
        using pe p Ready 1 by (subst poll_internal_read.simps) simp
      then show ?thesis
        using stream_files [OF laws k, of None] und stream_failed(2) [OF laws kf p [unfolded Ready 1]] done_left [of None]
        by (simp only:) (rule keeps_owedI, simp_all add: reading_def owed_def)
    next
      case (2 e owned q)
      have "poll_internal_read ops buf st = Some (Returned (Ready (Inl e)), buf, apply_position None ?s)"
        using pe p Ready 2 by (subst poll_internal_read.simps) simp
      then show ?thesis
        using stream_files [OF laws k, of None] und stream_failed(1) [OF laws kf p [unfolded Ready 2]] done_left [of None]
        by (simp only:) (rule keeps_owedI, simp_all add: reading_def owed_def)
    next
      case (3 m owned q)
      let ?q = "reported_position (inner st) (Inr m :: nat io_result) q"
      let ?c = "min (length buf) m"
      let ?st' = "if ?c < m then (apply_position ?q ?s)\<lparr>buffered := take m owned, buffered_position := ?c\<rparr>
        else apply_position ?q ?s"
      from stream_got [OF laws kf p [unfolded Ready 3]] have m: "m \<le> length owned"
        and got: "und (Some f) (inner st) w = take m owned @ und None (moved_to (inner st) ?q) w'" by auto
      have res: "poll_internal_read ops buf st =
          Some (Returned (Ready (Inr ?c)), copy_prefix (take ?c owned) buf, ?st')"
        using pe p Ready 3 m by (subst poll_internal_read.simps) (simp add: Let_def)
      have "take ?c (copy_prefix (take ?c owned) buf) = take ?c owned"
        using m by (simp add: take_copy_prefix_n)
      moreover have "leftover ?st' = drop ?c (take m owned)"
        using done_left [of ?q] by (simp add: leftover_def)
      moreover have "take m owned = take ?c owned @ drop ?c (take m owned)"
        using append_take_drop_id [of ?c "take m owned"] by (simp add: min_def split: if_splits)
      ultimately have split: "take m owned = take ?c (copy_prefix (take ?c owned) buf) @ leftover ?st'"
        by simp
      have st': "operation ?st' = None" "inner ?st' = moved_to (inner st) ?q" "world ?st' = w'"
        by simp_all
      have "owed und st = take m owned @ und None (moved_to (inner st) ?q) w'"
        by (rule trans [OF und [symmetric] got])
      also have "\<dots> = (take ?c (copy_prefix (take ?c owned) buf) @ leftover ?st') @
          und None (moved_to (inner st) ?q) w'" by (rule arg_cong [OF split])
      also have "\<dots> = take ?c (copy_prefix (take ?c owned) buf) @ owed und ?st'"
        by (simp only: owed_def st' body_of.simps append_assoc)
      finally show ?thesis
        unfolding res using stream_files [OF laws k]
        by (intro keeps_owedI) (simp_all only: reading_def st' option.case delivered.simps body_of.simps)
    qed
  qed
qed

lemma poll_read_keeps_owed:
  assumes laws: "stream_laws ops und k" and k: "k (inner st) (body_of (operation st))" and rd: "reading st"
  shows "keeps_owed und k st (poll_read ops buf st)"
proof (cases "buf = []")
  case True
  with k rd show ?thesis by (auto simp: poll_read_def intro: keeps_owedI)
next
  case ne: False
  show ?thesis
  proof (cases "buffered_position st < length (buffered st)")
    case False
    with ne have "poll_read ops buf st = poll_internal_read ops buf st"
      using stream_files [OF laws k] by (auto simp: poll_read_def own_io_def split: file_inner.splits)
    moreover from False have "leftover st = []" by (simp add: leftover_def)
    ultimately show ?thesis using internal_read_keeps_owed [OF laws k rd] by simp
  next
    case True
    let ?n = "min (length buf) (length (leftover st))"
    let ?st1 = "st\<lparr>buffered_position := buffered_position st + ?n\<rparr>"
    let ?st' = "if buffered_position ?st1 = length (buffered ?st1)
      then ?st1\<lparr>buffered := [], buffered_position := 0\<rparr> else ?st1"
    have res: "poll_read ops buf st =
        Some (Returned (Ready (Inr ?n)), copy_prefix (take ?n (leftover st)) buf, ?st')"
      using ne True by (simp add: poll_read_def Let_def leftover_def)
    have left: "leftover ?st' = drop ?n (leftover st)"
      using True by (auto simp: leftover_def add.commute)
    have "take ?n (copy_prefix (take ?n (leftover st)) buf) = take ?n (leftover st)"
      by (simp add: take_copy_prefix_n)
    then have split: "leftover st = take ?n (copy_prefix (take ?n (leftover st)) buf) @ leftover ?st'"
      using left by (simp only: append_take_drop_id)
    have st': "operation ?st' = operation st" "inner ?st' = inner st" "world ?st' = world st"
      by simp_all
    have "owed und st = (take ?n (copy_prefix (take ?n (leftover st)) buf) @ leftover ?st') @
        und (body_of (operation st)) (inner st) (world st)"
      unfolding owed_def by (rule arg_cong [OF split])
    also have "\<dots> = take ?n (copy_prefix (take ?n (leftover st)) buf) @ owed und ?st'"
      by (simp only: owed_def st' append_assoc)
    finally have "owed und st = take ?n (copy_prefix (take ?n (leftover st)) buf) @ owed und ?st'" .
    then show ?thesis
      unfolding res using k rd
      by (intro keeps_owedI) (simp_all only: reading_def st' delivered.simps)
  qed
qed

text \<open>
  C15: reads lose, repeat and reorder nothing. Take any sequence of \<open>poll_read\<close>s with buffers of any
  sizes, each of them pending, failing or delivering bytes, and reads abandoned while pending: the
  bytes delivered, in order, followed by what the file still owes are what it owed at the start.
\<close>

theorem reads_are_a_stream:
  assumes "stream_laws ops und k" and "k (inner st) (body_of (operation st))" and "reading st"
  shows "\<exists>got st'. read_run ops bufs st = Some (got, st') \<and> owed und st = got @ owed und st'"
  using assms(2,3)
proof (induction bufs arbitrary: st)
  case (Cons buf bufs)
  from poll_read_keeps_owed [OF assms(1) Cons.prems, of buf] obtain r buf' st1 where
    *: "poll_read ops buf st = Some (Returned r, buf', st1)" "reading st1" "k (inner st1) (body_of (operation st1))"
      "owed und st = take (delivered r) buf' @ owed und st1" by (auto simp: keeps_owed_def)
  from Cons.IH [OF *(3,2)] * show ?case by auto
qed simp

section \<open>Compio files as streams\<close>

definition compio_und ::
  "('w \<Rightarrow> byte list) \<Rightarrow> compio_body option \<Rightarrow> file_inner \<Rightarrow> 'w \<Rightarrow> byte list" where
  "compio_und contents b fi w = drop (unat (cursor fi)) (contents w)"

definition compio_reads :: "file_inner \<Rightarrow> compio_body option \<Rightarrow> bool" where
  "compio_reads fi b \<longleftrightarrow>
     (\<exists>p. fi = CompioFile p \<and> (b = None \<or> (\<exists>n d. b = Some (RunRead p n d))))"

lemma compio_readsE:
  assumes "compio_reads fi (Some f)"
  obtains p n d where "fi = CompioFile p" and "f = RunRead p n d"
  using assms by (auto simp: compio_reads_def)

lemma compio_body_read_done:
  assumes "compio_laws ops contents interrupts"
    and "compio_body_read ops (RunRead p n d) w = (Ready x, f', w')"
  shows "\<exists>r buf q. x = Inr (r, buf, q) \<and>
    compio_read ops (replicate n 0) \<lparr>disk = w, position = p\<rparr> = (Returned r, buf, \<lparr>disk = w', position = q\<rparr>)"
proof -
  from assms(2) have d: "d = 0" by (cases d) auto
  obtain out buf f where r: "compio_read ops (replicate n 0) \<lparr>disk = w, position = p\<rparr> = (out, buf, f)"
    by (cases "compio_read ops (replicate n 0) \<lparr>disk = w, position = p\<rparr>")
  from compio_read_not_unwound [OF assms(1) r] obtain r' where "out = Returned r'" by (cases out) auto
  with assms(2) r d show ?thesis by (cases f) auto
qed

lemma compio_stream_laws:
  assumes laws: "compio_laws ops contents interrupts"
  shows "stream_laws (compio_file_ops ops delay) (compio_und contents) compio_reads"
  unfolding stream_laws_def
proof (intro conjI allI impI)
  fix fi b p
  assume "compio_reads fi b"
  then show "own_io fi" and "compio_reads (moved_to fi p) None"
    by (cases p; auto simp: compio_reads_def own_io_def)+
next
  fix fi f w f' w'
  assume "compio_reads fi (Some f)" and *: "fo_poll_read (compio_file_ops ops delay) f w = (Pending, f', w')"
  then obtain p n d where fi: "fi = CompioFile p" and f: "f = RunRead p n d" by (elim compio_readsE)
  from * f show "compio_reads fi (Some f')"
    and "compio_und contents (Some f') fi w' = compio_und contents (Some f) fi w"
    by (cases d; auto simp: compio_file_ops_def compio_reads_def compio_und_def fi
        split: prod.splits outcome.splits)+
next
  fix fi f w m owned p' f' w'
  assume "compio_reads fi (Some f)"
    and *: "fo_poll_read (compio_file_ops ops delay) f w = (Ready (Inr (Inr m, owned, p')), f', w')"
  then obtain p n d where fi: "fi = CompioFile p" and f: "f = RunRead p n d" by (elim compio_readsE)
  from * f have "compio_body_read ops (RunRead p n d) w = (Ready (Inr (Inr m, owned, p')), f', w')"
    by (simp add: compio_file_ops_def)
  from compio_body_read_done [OF laws this]
  have "compio_read ops (replicate n 0) \<lparr>disk = w, position = p\<rparr> =
      (Returned (Inr m), owned, \<lparr>disk = w', position = p'\<rparr>)" by auto
  from compio_read_Inr [OF laws this]
  show "m \<le> length owned" and "compio_und contents (Some f) fi w = take m owned @
      compio_und contents None (moved_to fi (reported_position fi (Inr m :: nat io_result) p')) w'"
    by (simp_all add: compio_und_def compio_rest_def fi)
next
  fix fi f w e owned p' f' w'
  assume "compio_reads fi (Some f)"
    and *: "fo_poll_read (compio_file_ops ops delay) f w = (Ready (Inr (Inl e, owned, p')), f', w')"
  then obtain p n d where fi: "fi = CompioFile p" and f: "f = RunRead p n d" by (elim compio_readsE)
  from * f have "compio_body_read ops (RunRead p n d) w = (Ready (Inr (Inl e, owned, p')), f', w')"
    by (simp add: compio_file_ops_def)
  from compio_body_read_done [OF laws this]
  have r: "compio_read ops (replicate n 0) \<lparr>disk = w, position = p\<rparr> =
      (Returned (Inl e), owned, \<lparr>disk = w', position = p'\<rparr>)" by auto
  obtain x b w2 where ra: "co_read_at ops (replicate n 0) p w = (x, b, w2)"
    by (cases "co_read_at ops (replicate n 0) p w")
  from r ra have "w' = w2"
    by (auto simp: compio_read_def split: sum.splits if_splits option.splits)
  with compio_read_at(1) [OF laws ra]
  show "compio_und contents (Some f) fi w = compio_und contents None fi w'"
    by (simp add: compio_und_def fi)
next
  fix fi f w e f' w'
  assume "compio_reads fi (Some f)"
    and *: "fo_poll_read (compio_file_ops ops delay) f w = (Ready (Inl e), f', w')"
  then obtain p n d where "f = RunRead p n d" by (elim compio_readsE)
  with * compio_body_read_done [OF laws, of p n d w "Inl e" f' w']
  show "compio_und contents (Some f) fi w = compio_und contents None fi w'"
    by (simp add: compio_file_ops_def)
qed (auto simp: compio_file_ops_def compio_reads_def compio_und_def)

theorem reads_are_a_stream_witness:
  "\<exists>got st'. read_run (compio_file_ops mem_compio (\<lambda>n. n mod 2)) [[0, 0, 0], [0], [0, 0], [0]]
      (from_inner (CompioFile 1) [1, 2, 3, 4, 5, 6]) = Some (got, st') \<and>
    owed (compio_und mem_contents) (from_inner (CompioFile 1) [1, 2, 3, 4, 5, 6]) =
      got @ owed (compio_und mem_contents) st'"
  by (rule reads_are_a_stream [OF compio_stream_laws [OF mem_compio_laws]])
    (simp_all add: from_inner_def compio_reads_def reading_def)

text \<open>
  C20: Asking for the position drops the bytes read ahead. When a read finished with more bytes than
  the buffer of the poll that took its answer, the rest waits in \<open>buffered_read\<close>. A \<open>stream_position\<close>
  (a \<open>poll_seek\<close> to \<open>Current(0)\<close>) on a \<open>CompioFile\<close> then answers the cursor of the file behind those bytes
  and clears them: the file owes exactly that much less, though the caller asked for no move.
\<close>

theorem stream_position_drops_leftovers:
  assumes "compio_laws ops contents interrupts" and "inner st = CompioFile p" and "operation st = None"
    and "poll_seek (compio_file_ops ops delay) (Current 0) st = Some (Returned (Ready (Inr q)), st')"
  shows "q = p \<and> leftover st' = [] \<and>
    owed (compio_und contents) st = leftover st @ owed (compio_und contents) st'"
proof -
  let ?ops = "compio_file_ops ops delay"
  let ?st = "clear_buffered st"
  have cur: "current_future (\<lambda>fi. seek_operation ?ops fi (Current 0)) ?st =
      (SeekFuture (CompioFile p) (Current 0) (RunSeek p (Current 0) (delay 0)), world st)"
    using assms(2,3)
    by (simp add: current_future_def clear_buffered_def seek_operation_def compio_file_ops_def)
  have seek: "compio_seek ops (Current 0) \<lparr>disk = world st, position = p\<rparr> =
      (Inr p, \<lparr>disk = world st, position = p\<rparr>)"
    using uint_bounded [of p] by (simp add: compio_seek_def try_from_u64_def)
  from assms(2,4) have ps: "poll_internal_seek ?ops (Current 0) ?st = Some (Returned (Ready (Inr q)), st')"
    by (simp add: poll_seek_def clear_buffered_def)
  show ?thesis
  proof (cases "delay 0")
    case (Suc d)
    with poll_ensured [OF cur, of ?ops] ps show ?thesis
      by (subst (asm) poll_internal_seek.simps) (simp add: compio_file_ops_def)
  next
    case 0
    with poll_ensured [OF cur, of ?ops] ps seek
    have "q = p" and "st' = apply_position (Some p) (?st\<lparr>operation := None, world := world st\<rparr>)"
      by (subst (asm) poll_internal_seek.simps, simp add: compio_file_ops_def Let_def)+
    with assms(2,3) show ?thesis
      by (simp add: owed_def compio_und_def leftover_def clear_buffered_def)
  qed
qed

text \<open>A read of four bytes was abandoned; one byte was taken by a smaller buffer, two wait.\<close>

theorem stream_position_drops_leftovers_witness:
  "owed (compio_und mem_contents)
     ((from_inner (CompioFile 3) [1, 2, 3, 4, 5, 6])\<lparr>buffered := [1, 2, 3], buffered_position := 1\<rparr>) =
   [2, 3] @ owed (compio_und mem_contents) (from_inner (CompioFile 3) [1, 2, 3, 4, 5, 6])"
proof -
  let ?st = "(from_inner (CompioFile 3) [1, 2, 3, 4, 5, 6])\<lparr>buffered := [1, 2, 3], buffered_position := 1\<rparr>
    :: (compio_body, byte list) file_state"
  let ?st' = "from_inner (CompioFile 3) [1, 2, 3, 4, 5, 6] :: (compio_body, byte list) file_state"
  have 1: "inner ?st = CompioFile 3" and 2: "operation ?st = None" by (simp_all add: from_inner_def)
  have 3: "poll_seek (compio_file_ops mem_compio (\<lambda>n. 0)) (Current 0) ?st = Some (Returned (Ready (Inr 3)), ?st')"
    unfolding demo_ops_def [symmetric]
    by (simp add: poll_seek_def poll_internal_seek.simps [of demo_ops] demo_steps)
  from stream_position_drops_leftovers [OF mem_compio_laws 1 2 3] show ?thesis
    by (simp add: leftover_def from_inner_def)
qed

end
