(* ===== verification/Abortable.thy ===== *)
theory Abortable
  imports Join_Handle Lite
begin

text \<open>
  \<open>AbortableJoinHandle\<close>, \<open>CommunicationTask\<close> and \<open>UnboundedCommunicationTask\<close> of \<open>src/src/lib.rs\<close>.
  An \<open>AbortableJoinHandle\<close> is a counted reference (\<open>Arc\<close>) to an \<open>InnerHandle\<close>, a \<open>JoinHandle\<close> behind a
  lock with a waker; the references of a program are addresses into a store of such cells, with their
  strong counts. A context is a number, \<open>woken\<close> lists the contexts that were woken. The message
  channel belongs to the futures crate and is a record of operations.
\<close>

section \<open>The store\<close>

text \<open>\<open>InnerHandle\<close> with the strong count of its \<open>Arc\<close>.\<close>

record ('h, 'aw) inner_handle =
  joinee :: 'h
  cell_waker :: 'aw
  strong :: nat

record ('h, 'aw, 'w) store =
  cells :: "nat \<Rightarrow> ('h, 'aw) inner_handle option"
  next_cell :: nat
  woken :: "nat list"
  backend :: 'w

type_synonym ('t, 'c, 'x, 's, 'b, 'o, 'a, 'aw, 'w) handles =
  "(('t, 'c, 'x, 's, 'b, 'o, 'a) join_handle, 'aw, 'w) store"

definition update_cell ::
  "nat \<Rightarrow> (('h, 'aw) inner_handle \<Rightarrow> ('h, 'aw) inner_handle) \<Rightarrow> ('h, 'aw, 'w) store \<Rightarrow> ('h, 'aw, 'w) store" where
  "update_cell a f s = s\<lparr>cells := (cells s)(a := map_option f (cells s a))\<rparr>"

text \<open>\<open>From<JoinHandle>\<close>; \<open>empty\<close> is the same on an empty handle.\<close>

definition shared_from :: "'aw \<Rightarrow> 'h \<Rightarrow> ('h, 'aw, 'w) store \<Rightarrow> nat \<times> ('h, 'aw, 'w) store" where
  "shared_from aw h s =
     (next_cell s,
      s\<lparr>cells := (cells s)(next_cell s \<mapsto> \<lparr>joinee = h, cell_waker = aw, strong = 1\<rparr>),
        next_cell := Suc (next_cell s)\<rparr>)"

definition shared_empty ::
  "'aw \<Rightarrow> ('t, 'c, 'x, 's, 'b, 'o, 'a, 'aw, 'w) handles \<Rightarrow>
   nat \<times> ('t, 'c, 'x, 's, 'b, 'o, 'a, 'aw, 'w) handles" where
  "shared_empty aw s = shared_from aw EmptyHandle s"

definition shared_clone :: "nat \<Rightarrow> ('h, 'aw, 'w) store \<Rightarrow> ('h, 'aw, 'w) store" where
  "shared_clone a s = update_cell a (\<lambda>c. c\<lparr>strong := Suc (strong c)\<rparr>) s"

text \<open>\<open>InnerHandle::wake\<close>.\<close>

definition shared_wake :: "'aw waker_ops \<Rightarrow> nat \<Rightarrow> ('h, 'aw, 'w) store \<Rightarrow> ('h, 'aw, 'w) store" where
  "shared_wake wops a s =
     (case cells s a of
        None \<Rightarrow> s
      | Some c \<Rightarrow>
          (case aw_wake wops (cell_waker c) of
             (ctx, aw) \<Rightarrow>
               (update_cell a (\<lambda>c. c\<lparr>cell_waker := aw\<rparr>) s)
                 \<lparr>woken := woken s @ (case ctx of None \<Rightarrow> [] | Some x \<Rightarrow> [x])\<rparr>))"

text \<open>
  Dropping a reference. The last one drops the \<open>InnerHandle\<close>: its destructor aborts the handle,
  which is then dropped itself.
\<close>

definition shared_drop ::
  "('t, 'c, 'x, 's, 'b, 'o, 'a, 'w) task_ops \<Rightarrow> nat \<Rightarrow>
   ('t, 'c, 'x, 's, 'b, 'o, 'a, 'aw, 'w) handles \<Rightarrow> ('t, 'c, 'x, 's, 'b, 'o, 'a, 'aw, 'w) handles" where
  "shared_drop ops a s =
     (case cells s a of
        None \<Rightarrow> s
      | Some c \<Rightarrow>
          (if strong c = 1 then
             (case handle_abort ops (joinee c) (backend s) of
                (h, w) \<Rightarrow> s\<lparr>cells := (cells s)(a := None), backend := handle_drop ops h w\<rparr>)
           else update_cell a (\<lambda>c. c\<lparr>strong := strong c - 1\<rparr>) s))"

definition shared_abort ::
  "('t, 'c, 'x, 's, 'b, 'o, 'a, 'w) task_ops \<Rightarrow> 'aw waker_ops \<Rightarrow> nat \<Rightarrow>
   ('t, 'c, 'x, 's, 'b, 'o, 'a, 'aw, 'w) handles \<Rightarrow> ('t, 'c, 'x, 's, 'b, 'o, 'a, 'aw, 'w) handles" where
  "shared_abort ops wops a s =
     (case cells s a of
        None \<Rightarrow> s
      | Some c \<Rightarrow>
          (case handle_abort ops (joinee c) (backend s) of
             (h, w) \<Rightarrow>
               shared_wake wops a ((update_cell a (\<lambda>c. c\<lparr>joinee := h\<rparr>) s)\<lparr>backend := w\<rparr>)))"

definition shared_is_finished ::
  "('t, 'c, 'x, 's, 'b, 'o, 'a, 'w) task_ops \<Rightarrow> nat \<Rightarrow>
   ('t, 'c, 'x, 's, 'b, 'o, 'a, 'aw, 'w) handles \<Rightarrow>
   bool \<times> ('t, 'c, 'x, 's, 'b, 'o, 'a, 'aw, 'w) handles" where
  "shared_is_finished ops a s =
     (case cells s a of
        None \<Rightarrow> (True, s)
      | Some c \<Rightarrow>
          (case handle_is_finished ops (joinee c) (backend s) of
             (b, h, w) \<Rightarrow> (b, (update_cell a (\<lambda>c. c\<lparr>joinee := h\<rparr>) s)\<lparr>backend := w\<rparr>)))"

text \<open>\<open>poll\<close> registers the waker of the context first.\<close>

definition shared_poll ::
  "('t, 'c, 'x, 's, 'b, 'o, 'a, 'w) task_ops \<Rightarrow> 'aw waker_ops \<Rightarrow> nat \<Rightarrow> nat \<Rightarrow>
   ('t, 'c, 'x, 's, 'b, 'o, 'a, 'aw, 'w) handles \<Rightarrow>
   'a join_result poll \<times> ('t, 'c, 'x, 's, 'b, 'o, 'a, 'aw, 'w) handles" where
  "shared_poll ops wops ctx a s =
     (case cells s a of
        None \<Rightarrow> (Pending, s)
      | Some c \<Rightarrow>
          (case handle_poll ops (joinee c) (backend s) of
             (r, h, w) \<Rightarrow>
               (r, (update_cell a (\<lambda>c. c\<lparr>cell_waker := aw_register wops ctx (cell_waker c),
                      joinee := h\<rparr>) s)\<lparr>backend := w\<rparr>)))"

text \<open>
  \<open>replace\<close> takes its argument by value: the reference is dropped at the end, also on the early
  return for two references to the same cell.
\<close>

definition shared_replace ::
  "('t, 'c, 'x, 's, 'b, 'o, 'a, 'w) task_ops \<Rightarrow> 'aw waker_ops \<Rightarrow> nat \<Rightarrow> nat \<Rightarrow>
   ('t, 'c, 'x, 's, 'b, 'o, 'a, 'aw, 'w) handles \<Rightarrow> ('t, 'c, 'x, 's, 'b, 'o, 'a, 'aw, 'w) handles" where
  "shared_replace ops wops a b s =
     (if a = b then shared_drop ops b s
      else case (cells s a, cells s b) of
        (Some ca, Some cb) \<Rightarrow>
          (let s1 = shared_wake wops b (update_cell b (\<lambda>c. c\<lparr>joinee := EmptyHandle\<rparr>) s);
               s2 = update_cell a (\<lambda>c. c\<lparr>joinee := joinee cb\<rparr>) s1;
               s3 = s2\<lparr>backend := handle_drop ops (joinee ca) (backend s2)\<rparr>
           in shared_drop ops b (shared_wake wops a s3))
      | _ \<Rightarrow> s)"

section \<open>Message-driven tasks\<close>

text \<open>The sender of a channel: \<open>send\<close> completed, \<open>try_send\<close>, \<open>close_channel\<close>, \<open>is_closed\<close>.\<close>

record ('k, 'm, 'w) sender_ops =
  ch_send :: "'k \<Rightarrow> 'm \<Rightarrow> 'w \<Rightarrow> string option \<times> 'w"
  ch_try_send :: "'k \<Rightarrow> 'm \<Rightarrow> 'w \<Rightarrow> string option \<times> 'w"
  ch_close :: "'k \<Rightarrow> 'w \<Rightarrow> 'w"
  ch_is_closed :: "'k \<Rightarrow> 'w \<Rightarrow> bool"

record 'k communication_task =
  task_handle :: nat
  channel_tx :: 'k

definition sent :: "string option \<times> 'w \<Rightarrow> unit io_result \<times> 'w" where
  "sent r = (case r of (None, w) \<Rightarrow> (Inr (), w) | (Some e, w) \<Rightarrow> (Inl (IoError Other e), w))"

definition comm_send ::
  "('k, 'm, 'w) sender_ops \<Rightarrow> 'k communication_task \<Rightarrow> 'm \<Rightarrow> ('w, unit) io" where
  "comm_send cops t m w = sent (ch_send cops (channel_tx t) m w)"

definition comm_try_send ::
  "('k, 'm, 'w) sender_ops \<Rightarrow> 'k communication_task \<Rightarrow> 'm \<Rightarrow> ('w, unit) io" where
  "comm_try_send cops t m w = sent (ch_try_send cops (channel_tx t) m w)"

text \<open>\<open>abort\<close> closes the channel, aborts the task and drops the reference it consumed.\<close>

definition comm_abort ::
  "('t, 'c, 'x, 's, 'b, 'o, 'a, 'w) task_ops \<Rightarrow> 'aw waker_ops \<Rightarrow> ('k, 'm, 'w) sender_ops \<Rightarrow>
   'k communication_task \<Rightarrow> ('t, 'c, 'x, 's, 'b, 'o, 'a, 'aw, 'w) handles \<Rightarrow>
   ('t, 'c, 'x, 's, 'b, 'o, 'a, 'aw, 'w) handles" where
  "comm_abort ops wops cops t s =
     shared_drop ops (task_handle t)
       (shared_abort ops wops (task_handle t)
         (s\<lparr>backend := ch_close cops (channel_tx t) (backend s)\<rparr>))"

definition comm_is_active ::
  "('t, 'c, 'x, 's, 'b, 'o, 'a, 'w) task_ops \<Rightarrow> ('k, 'm, 'w) sender_ops \<Rightarrow>
   'k communication_task \<Rightarrow> ('t, 'c, 'x, 's, 'b, 'o, 'a, 'aw, 'w) handles \<Rightarrow>
   bool \<times> ('t, 'c, 'x, 's, 'b, 'o, 'a, 'aw, 'w) handles" where
  "comm_is_active ops cops t s =
     (case shared_is_finished ops (task_handle t) s of
        (b, s') \<Rightarrow> (\<not> b \<and> \<not> ch_is_closed cops (channel_tx t) (backend s'), s'))"

text \<open>A clone of a communication task, bounded or not, has its own reference and its own sender.\<close>

definition comm_clone ::
  "('k \<Rightarrow> 'w \<Rightarrow> 'k \<times> 'w) \<Rightarrow> 'k communication_task \<Rightarrow> ('h, 'aw, 'w) store \<Rightarrow>
   'k communication_task \<times> ('h, 'aw, 'w) store" where
  "comm_clone clone_tx t s =
     (let s1 = shared_clone (task_handle t) s
      in case clone_tx (channel_tx t) (backend s1) of
           (k, w) \<Rightarrow> (\<lparr>task_handle = task_handle t, channel_tx = k\<rparr>, s1\<lparr>backend := w\<rparr>))"

text \<open>\<open>UnboundedCommunicationTask\<close>: its sender never waits.\<close>

record ('k, 'm, 'w) unbounded_ops =
  ub_send :: "'k \<Rightarrow> 'm \<Rightarrow> 'w \<Rightarrow> string option \<times> 'w"
  ub_close :: "'k \<Rightarrow> 'w \<Rightarrow> 'w"
  ub_is_closed :: "'k \<Rightarrow> 'w \<Rightarrow> bool"

definition unbounded_send ::
  "('k, 'm, 'w) unbounded_ops \<Rightarrow> 'k communication_task \<Rightarrow> 'm \<Rightarrow> ('w, unit) io" where
  "unbounded_send uops t m w = sent (ub_send uops (channel_tx t) m w)"

definition unbounded_abort ::
  "('t, 'c, 'x, 's, 'b, 'o, 'a, 'w) task_ops \<Rightarrow> 'aw waker_ops \<Rightarrow> ('k, 'm, 'w) unbounded_ops \<Rightarrow>
   'k communication_task \<Rightarrow> ('t, 'c, 'x, 's, 'b, 'o, 'a, 'aw, 'w) handles \<Rightarrow>
   ('t, 'c, 'x, 's, 'b, 'o, 'a, 'aw, 'w) handles" where
  "unbounded_abort ops wops uops t s =
     shared_drop ops (task_handle t)
       (shared_abort ops wops (task_handle t)
         (s\<lparr>backend := ub_close uops (channel_tx t) (backend s)\<rparr>))"

definition unbounded_is_active ::
  "('t, 'c, 'x, 's, 'b, 'o, 'a, 'w) task_ops \<Rightarrow> ('k, 'm, 'w) unbounded_ops \<Rightarrow>
   'k communication_task \<Rightarrow> ('t, 'c, 'x, 's, 'b, 'o, 'a, 'aw, 'w) handles \<Rightarrow>
   bool \<times> ('t, 'c, 'x, 's, 'b, 'o, 'a, 'aw, 'w) handles" where
  "unbounded_is_active ops uops t s =
     (case shared_is_finished ops (task_handle t) s of
        (b, s') \<Rightarrow> (\<not> b \<and> \<not> ub_is_closed uops (channel_tx t) (backend s'), s'))"

section \<open>References over time\<close>

text \<open>What the holder of a reference does with it; \<open>Replace a b\<close> consumes \<open>b\<close>.\<close>

datatype 'h use = Make 'h | Clone nat | Release nat | AbortIt nat | Ask nat | PollIt nat nat | Replace nat nat

text \<open>The references a program holds after a use, from those before.\<close>

fun holds :: "'h use \<Rightarrow> nat \<Rightarrow> nat multiset \<Rightarrow> nat multiset option" where
  "holds (Make h) new m = Some (add_mset new m)"
| "holds (Clone a) new m = (if a \<in># m then Some (add_mset a m) else None)"
| "holds (Release a) new m = (if a \<in># m then Some (m - {#a#}) else None)"
| "holds (AbortIt a) new m = (if a \<in># m then Some m else None)"
| "holds (Ask a) new m = (if a \<in># m then Some m else None)"
| "holds (PollIt ctx a) new m = (if a \<in># m then Some m else None)"
| "holds (Replace a b) new m =
     (if b \<in># m \<and> a \<in># m - {#b#} then Some (m - {#b#}) else None)"

fun use_step ::
  "('t, 'c, 'x, 's, 'b, 'o, 'a, 'w) task_ops \<Rightarrow> 'aw waker_ops \<Rightarrow> 'aw \<Rightarrow>
   ('t, 'c, 'x, 's, 'b, 'o, 'a) join_handle use \<Rightarrow>
   ('t, 'c, 'x, 's, 'b, 'o, 'a, 'aw, 'w) handles \<Rightarrow> ('t, 'c, 'x, 's, 'b, 'o, 'a, 'aw, 'w) handles" where
  "use_step ops wops aw (Make h) s = snd (shared_from aw h s)"
| "use_step ops wops aw (Clone a) s = shared_clone a s"
| "use_step ops wops aw (Release a) s = shared_drop ops a s"
| "use_step ops wops aw (AbortIt a) s = shared_abort ops wops a s"
| "use_step ops wops aw (Ask a) s = snd (shared_is_finished ops a s)"
| "use_step ops wops aw (PollIt ctx a) s = snd (shared_poll ops wops ctx a s)"
| "use_step ops wops aw (Replace a b) s = shared_replace ops wops a b s"

fun use_run ::
  "('t, 'c, 'x, 's, 'b, 'o, 'a, 'w) task_ops \<Rightarrow> 'aw waker_ops \<Rightarrow> 'aw \<Rightarrow>
   ('t, 'c, 'x, 's, 'b, 'o, 'a) join_handle use list \<Rightarrow> nat multiset \<Rightarrow>
   ('t, 'c, 'x, 's, 'b, 'o, 'a, 'aw, 'w) handles \<Rightarrow>
   (nat multiset \<times> ('t, 'c, 'x, 's, 'b, 'o, 'a, 'aw, 'w) handles) option" where
  "use_run ops wops aw [] m s = Some (m, s)"
| "use_run ops wops aw (u # us) m s =
     (case holds u (next_cell s) m of
        None \<Rightarrow> None
      | Some m' \<Rightarrow> use_run ops wops aw us m' (use_step ops wops aw u s))"

text \<open>The count of a cell is the number of references held; a cell without references is gone.\<close>

definition refs :: "('h, 'aw, 'w) store \<Rightarrow> nat \<Rightarrow> nat option" where
  "refs s a = map_option strong (cells s a)"

definition counted :: "nat multiset \<Rightarrow> ('h, 'aw, 'w) store \<Rightarrow> bool" where
  "counted m s \<longleftrightarrow>
     (\<forall>a. refs s a = (if count m a = 0 then None else Some (count m a))) \<and>
     (\<forall>a. next_cell s \<le> a \<longrightarrow> count m a = 0)"

lemma counted_refs: "counted m s \<Longrightarrow> refs s a = (if count m a = 0 then None else Some (count m a))"
  by (simp add: counted_def)

lemma refs_update [simp]:
  "(\<And>c. strong (f c) = strong c) \<Longrightarrow> refs (update_cell a f s) = refs s"
  by (rule ext) (auto simp: refs_def update_cell_def option.map_comp comp_def)

lemma update_cell_fields [simp]:
  "next_cell (update_cell a f s) = next_cell s"
  "backend (update_cell a f s) = backend s"
  "woken (update_cell a f s) = woken s"
  by (simp_all add: update_cell_def)

lemma refs_fields [simp]:
  "refs (s\<lparr>backend := w\<rparr>) = refs s" "refs (s\<lparr>woken := l\<rparr>) = refs s"
  by (simp_all add: refs_def fun_eq_iff)

lemma refs_wake [simp]: "refs (shared_wake wops a s) = refs s" "next_cell (shared_wake wops a s) = next_cell s"
  by (auto simp: shared_wake_def split: option.splits prod.splits)

lemma refs_abort [simp]:
  "refs (shared_abort ops wops a s) = refs s" "next_cell (shared_abort ops wops a s) = next_cell s"
  by (auto simp: shared_abort_def split: option.splits prod.splits)

lemma refs_is_finished [simp]:
  "refs (snd (shared_is_finished ops a s)) = refs s"
  "next_cell (snd (shared_is_finished ops a s)) = next_cell s"
  by (auto simp: shared_is_finished_def split: option.splits prod.splits)

lemma refs_poll [simp]:
  "refs (snd (shared_poll ops wops ctx a s)) = refs s"
  "next_cell (snd (shared_poll ops wops ctx a s)) = next_cell s"
  by (auto simp: shared_poll_def split: option.splits prod.splits)

lemma refs_from:
  "refs (snd (shared_from aw h s)) = (refs s)(next_cell s \<mapsto> 1)"
  "next_cell (snd (shared_from aw h s)) = Suc (next_cell s)"
  by (auto simp: shared_from_def refs_def fun_eq_iff)

lemma refs_clone:
  "refs (shared_clone a s) = (refs s)(a := map_option Suc (refs s a))"
  "next_cell (shared_clone a s) = next_cell s"
  by (auto simp: shared_clone_def refs_def update_cell_def fun_eq_iff option.map_comp comp_def)

lemma refs_drop:
  "refs (shared_drop ops a s) =
    (refs s)(a := (case refs s a of None \<Rightarrow> None | Some n \<Rightarrow> if n = 1 then None else Some (n - 1)))"
  "next_cell (shared_drop ops a s) = next_cell s"
  by (auto simp: shared_drop_def refs_def update_cell_def fun_eq_iff split: option.splits prod.splits)

lemma refs_replace:
  assumes "refs s a \<noteq> None" and "refs s b \<noteq> None"
  shows "refs (shared_replace ops wops a b s) = refs (shared_drop ops b s)"
    and "next_cell (shared_replace ops wops a b s) = next_cell s"
  using assms
  by (auto simp: shared_replace_def refs_drop Let_def refs_def [of s] split: option.splits)

lemma counted_drop:
  assumes "counted m s" and "b \<in># m"
  shows "counted (m - {#b#}) (shared_drop ops b s)"
proof -
  have "0 < count m b" using assms(2) by simp
  then show ?thesis
    using assms(1) counted_refs [OF assms(1)]
    by (auto simp: counted_def refs_drop simp del: count_greater_zero_iff)
qed

text \<open>Every use that holds what it uses keeps the counts right.\<close>

lemma use_step_counted:
  assumes "counted m s" and "holds u (next_cell s) m = Some m'"
  shows "counted m' (use_step ops wops aw u s)"
proof -
  note r = counted_refs [OF assms(1)]
  have fresh: "count m (next_cell s) = 0" using assms(1) by (simp add: counted_def)
  show ?thesis
  proof (cases u)
    case (Make h)
    with assms fresh show ?thesis by (auto simp: counted_def refs_from count_eq_zero_iff)
  next
    case (Clone a)
    with assms have "a \<in># m" and m': "m' = add_mset a m" by (auto split: if_splits)
    then have "0 < count m a" by simp
    with assms(1) r [of a] Clone m' show ?thesis
      by (auto simp: counted_def refs_clone simp del: count_greater_zero_iff)
  next
    case (Release a)
    with assms show ?thesis by (auto simp: counted_drop split: if_splits)
  next
    case (Replace a b)
    with assms have b: "b \<in># m" and a: "a \<in># m - {#b#}" and m': "m' = m - {#b#}"
      by (auto split: if_splits)
    from a have "a \<in># m" by (rule in_diffD)
    with b r [of a] r [of b] have "refs s a \<noteq> None" and "refs s b \<noteq> None"
      by (auto simp: not_in_iff)
    from refs_replace [OF this, of ops wops] counted_drop [OF assms(1) b, of ops] Replace m'
    show ?thesis by (simp add: counted_def refs_drop)
  qed (use assms in \<open>auto simp: counted_def count_eq_zero_iff split: if_splits\<close>)
qed

lemma use_run_counted:
  "counted m s \<Longrightarrow> use_run ops wops aw us m s = Some (m', s') \<Longrightarrow> counted m' s'"
proof (induction us arbitrary: m s)
  case (Cons u us)
  then show ?case by (auto split: option.splits dest: use_step_counted [of m s])
qed simp

lemma update_cell_apply:
  "cells (update_cell a f s) b = (if b = a then map_option f (cells s a) else cells s b)"
  by (simp add: update_cell_def)

lemma wake_cells:
  "map_option joinee (cells (shared_wake wops a s) b) = map_option joinee (cells s b)"
  "backend (shared_wake wops a s) = backend s"
  by (auto simp: shared_wake_def update_cell_apply split: option.splits prod.splits)

section \<open>Properties\<close>


text \<open>
  \<open>replace\<close> moves the task. For references to two cells, the destination gets the source's
  \<open>JoinHandle\<close> unchanged, so it now answers for that task; its previous handle is dropped without
  being aborted; remaining references to the source answer as empty; and if the consumed reference
  was the last one, the moved task is still not aborted, for the world sees nothing but the drop of
  the previous handle.
\<close>

theorem replace_moves_task:
  assumes "cells s a = Some ca" and "cells s b = Some cb" and "a \<noteq> b" and "0 < strong cb"
  shows "map_option joinee (cells (shared_replace ops wops a b s) a) = Some (joinee cb) \<and>
    backend (shared_replace ops wops a b s) = handle_drop ops (joinee ca) (backend s) \<and>
    map_option joinee (cells (shared_replace ops wops a b s) b) =
      (if strong cb = 1 then None else Some EmptyHandle)"
proof -
  let ?s0 = "update_cell b (\<lambda>c. c\<lparr>joinee := EmptyHandle\<rparr>) s"
  let ?s1 = "shared_wake wops b ?s0"
  let ?s2 = "update_cell a (\<lambda>c. c\<lparr>joinee := joinee cb\<rparr>) ?s1"
  let ?s3 = "?s2\<lparr>backend := handle_drop ops (joinee ca) (backend ?s2)\<rparr>"
  let ?s4 = "shared_wake wops a ?s3"
  have eq: "shared_replace ops wops a b s = shared_drop ops b ?s4"
    using assms by (simp add: shared_replace_def Let_def)
  have joinees: "map_option joinee (cells ?s4 x) = (if x = a then Some (joinee cb)
      else if x = b then Some EmptyHandle else map_option joinee (cells s x))" for x
  proof -
    have "map_option joinee (cells ?s1 y) = (if y = b then Some EmptyHandle else map_option joinee (cells s y))"
      for y using assms(2) by (simp add: wake_cells update_cell_apply)
    moreover from this [of a] assms(1,3) obtain c1 where "cells ?s1 a = Some c1" by auto
    ultimately show ?thesis by (auto simp: wake_cells update_cell_apply)
  qed
  have bk: "backend ?s4 = handle_drop ops (joinee ca) (backend s)"
    by (simp add: wake_cells)
  have "refs ?s4 b = Some (strong cb)" using assms by (simp add: refs_def [of s])
  then obtain c where c: "cells ?s4 b = Some c" "strong c = strong cb"
    by (simp only: refs_def map_option_eq_Some) blast
  with joinees [of b] assms(3) have empty: "joinee c = EmptyHandle" by simp
  from joinees [of a] have at_a: "map_option joinee (cells ?s4 a) = Some (joinee cb)" by simp
  show ?thesis
    unfolding eq using c empty at_a bk assms(3,4)
    by (simp add: shared_drop_def update_cell_apply)
qed

text \<open>A waker cell that holds the last registered context.\<close>

definition last_waker :: "nat option waker_ops" where
  "last_waker = \<lparr>aw_register = (\<lambda>x a. Some x), aw_wake = (\<lambda>a. (a, None))\<rparr>"

type_synonym flag_handles = "(bool, unit, unit, bool, unit, bool, nat, nat option, bool) handles"

definition flag_store :: "nat \<Rightarrow> flag_handles" where
  "flag_store n = \<lparr>cells = [0 \<mapsto> \<lparr>joinee = TokioHandle True False, cell_waker = None, strong = n\<rparr>],
     next_cell = 1, woken = [], backend = False\<rparr>"


definition flag_pair :: flag_handles where
  "flag_pair = \<lparr>cells = [0 \<mapsto> \<lparr>joinee = EmptyHandle, cell_waker = Some 7, strong = 1\<rparr>,
       1 \<mapsto> \<lparr>joinee = TokioHandle True False, cell_waker = None, strong = 2\<rparr>],
     next_cell = 2, woken = [], backend = False\<rparr>"

theorem replace_moves_task_witness:
  "map_option joinee (cells (shared_replace flag_backend last_waker 0 1 flag_pair) 0) =
     Some (TokioHandle True False) \<and>
   backend (shared_replace flag_backend last_waker 0 1 flag_pair) =
     handle_drop flag_backend EmptyHandle False \<and>
   map_option joinee (cells (shared_replace flag_backend last_waker 0 1 flag_pair) 1) = Some EmptyHandle"
  using replace_moves_task [of flag_pair 0 "\<lparr>joinee = EmptyHandle, cell_waker = Some 7, strong = 1\<rparr>" 1
      "\<lparr>joinee = TokioHandle True False, cell_waker = None, strong = 2\<rparr>" flag_backend last_waker]
  by (simp add: flag_pair_def)

text \<open>
  What the crate relies on of a sender: a closed channel stays closed for every sender of it
  (\<open>same\<close> relates the senders of one channel) and refuses messages; aborting or dropping a task does
  not reopen it.
\<close>

definition sender_laws ::
  "('k, 'm, 'w) sender_ops \<Rightarrow> ('t, 'c, 'x, 's, 'b, 'o, 'a, 'w) task_ops \<Rightarrow> ('k \<Rightarrow> 'k \<Rightarrow> bool) \<Rightarrow> bool" where
  "sender_laws cops ops same \<longleftrightarrow>
     (\<forall>k k' w. same k k' \<longrightarrow> ch_is_closed cops k' (ch_close cops k w)) \<and>
     (\<forall>k m w. ch_is_closed cops k w \<longrightarrow> (\<exists>e. fst (ch_try_send cops k m w) = Some e)) \<and>
     (\<forall>k h w. ch_is_closed cops k w \<longrightarrow> ch_is_closed cops k (snd (handle_abort ops h w))) \<and>
     (\<forall>k h w. ch_is_closed cops k w \<longrightarrow> ch_is_closed cops k (handle_drop ops h w)) \<and>
     (\<forall>k h w. ch_is_closed cops k w \<longrightarrow> ch_is_closed cops k (snd (snd (handle_is_finished ops h w))))"

lemma closed_abort:
  assumes "sender_laws cops ops same" and "ch_is_closed cops k (backend s)"
  shows "ch_is_closed cops k (backend (shared_abort ops wops a s))"
    and "ch_is_closed cops k (backend (shared_drop ops a s))"
    and "ch_is_closed cops k (backend (snd (shared_is_finished ops a s)))"
proof -
  have ab: "ch_is_closed cops k w \<Longrightarrow> handle_abort ops h w = (h', w') \<Longrightarrow> ch_is_closed cops k w'" for h w h' w'
    using assms(1) unfolding sender_laws_def by (elim conjE) (metis snd_conv)
  have dr: "ch_is_closed cops k w \<Longrightarrow> ch_is_closed cops k (handle_drop ops h w)" for h w
    using assms(1) unfolding sender_laws_def by (elim conjE) metis
  have fi: "ch_is_closed cops k w \<Longrightarrow> handle_is_finished ops h w = (b, h', w') \<Longrightarrow> ch_is_closed cops k w'"
    for h w b h' w'
    using assms(1) unfolding sender_laws_def by (elim conjE) (metis snd_conv)
  show "ch_is_closed cops k (backend (shared_abort ops wops a s))"
    using assms(2) ab [OF assms(2)]
    by (simp add: shared_abort_def wake_cells split: option.splits prod.splits)
  show "ch_is_closed cops k (backend (shared_drop ops a s))"
    using assms(2) dr [OF ab [OF assms(2)]]
    by (simp add: shared_drop_def split: option.splits prod.splits)
  show "ch_is_closed cops k (backend (snd (shared_is_finished ops a s)))"
    using assms(2) fi [OF assms(2)]
    by (simp add: shared_is_finished_def split: option.splits prod.splits)
qed

text \<open>
  \<open>abort\<close> of a communication task is final for every clone of it. Afterwards no clone is active,
  however it asks, and \<open>try_send\<close> through any clone fails with an error of kind \<open>Other\<close>.
\<close>

theorem comm_abort_final:
  assumes "sender_laws cops ops same" and "same (channel_tx t) (channel_tx t')"
    and "comm_abort ops wops cops t s = s'"
  shows "\<not> fst (comm_is_active ops cops t' s') \<and>
    (\<exists>e w. comm_try_send cops t' m (backend s') = (Inl (IoError Other e), w))"
proof -
  let ?k = "channel_tx t'"
  let ?s0 = "s\<lparr>backend := ch_close cops (channel_tx t) (backend s)\<rparr>"
  from assms(1,2) have "ch_is_closed cops ?k (backend ?s0)" by (simp add: sender_laws_def)
  from closed_abort(2) [OF assms(1) closed_abort(1) [OF assms(1) this, where a = "task_handle t" and
      wops = wops], where a = "task_handle t"]
  have closed: "ch_is_closed cops ?k (backend s')"
    unfolding assms(3) [symmetric] comm_abort_def .
  from closed_abort(3) [OF assms(1) this, of "task_handle t'"]
  have "\<not> fst (comm_is_active ops cops t' s')"
    by (cases "shared_is_finished ops (task_handle t') s'") (simp add: comm_is_active_def)
  moreover obtain e where "fst (ch_try_send cops ?k m (backend s')) = Some e"
    using assms(1) closed unfolding sender_laws_def by (elim conjE) metis
  then have "\<exists>e w. comm_try_send cops t' m (backend s') = (Inl (IoError Other e), w)"
    by (cases "ch_try_send cops ?k m (backend s')") (auto simp: comm_try_send_def sent_def)
  ultimately show ?thesis by blast
qed

text \<open>An unbounded sender as a sender that never waits; what holds of the one holds of the other.\<close>

definition as_sender :: "('k, 'm, 'w) unbounded_ops \<Rightarrow> ('k, 'm, 'w) sender_ops" where
  "as_sender uops = \<lparr>ch_send = ub_send uops, ch_try_send = ub_send uops, ch_close = ub_close uops,
     ch_is_closed = ub_is_closed uops\<rparr>"

lemma unbounded_as_comm:
  "unbounded_send uops t m w = comm_try_send (as_sender uops) t m w"
  "unbounded_abort ops wops uops t s = comm_abort ops wops (as_sender uops) t s"
  "unbounded_is_active ops uops t s = comm_is_active ops (as_sender uops) t s"
  by (simp_all add: unbounded_send_def comm_try_send_def unbounded_abort_def comm_abort_def
      unbounded_is_active_def comm_is_active_def as_sender_def)

lemma unbounded_abort_final:
  assumes "sender_laws (as_sender uops) ops same" and "same (channel_tx t) (channel_tx t')"
  shows "\<not> fst (unbounded_is_active ops uops t' (unbounded_abort ops wops uops t s)) \<and>
    (\<exists>e w. unbounded_send uops t' m (backend (unbounded_abort ops wops uops t s)) = (Inl (IoError Other e), w))"
  unfolding unbounded_as_comm by (rule comm_abort_final [OF assms refl])

text \<open>A clone adds one reference to the task, so that it outlives the original.\<close>

lemma comm_clone_counts:
  "refs (snd (comm_clone clone_tx t s)) (task_handle t) = map_option Suc (refs s (task_handle t))"
  by (simp add: comm_clone_def Let_def shared_clone_def refs_def update_cell_def option.map_comp comp_def
      split: prod.split)

text \<open>A channel that is closed exactly when the flag of the backend is up.\<close>

definition flag_sender :: "(unit, nat, bool) sender_ops" where
  "flag_sender = \<lparr>ch_send = (\<lambda>k m w. (if w then Some ''closed'' else None, w)),
     ch_try_send = (\<lambda>k m w. (if w then Some ''closed'' else None, w)),
     ch_close = (\<lambda>k w. True), ch_is_closed = (\<lambda>k w. w)\<rparr>"

lemma flag_sender_laws: "sender_laws flag_sender flag_backend (\<lambda>k k'. True)"
proof -
  have "w \<Longrightarrow> snd (handle_abort flag_backend h w)" for h w
    by (cases "(flag_backend, h, w)" rule: handle_abort.cases)
      (auto simp: flag_backend_def split: prod.splits elim: start_compio_cancel.elims)
  moreover have "w \<Longrightarrow> handle_drop flag_backend h w" for h w
    by (cases "(flag_backend, h, w)" rule: handle_drop.cases) (auto simp: flag_backend_def)
  moreover have "w \<Longrightarrow> snd (snd (handle_is_finished flag_backend h w))" for h w
    by (cases "(flag_backend, h, w)" rule: handle_is_finished.cases)
      (auto simp: flag_backend_def split: prod.splits elim: compio_is_finished.elims)
  ultimately show ?thesis by (simp add: sender_laws_def flag_sender_def)
qed

theorem comm_abort_final_witness:
  "\<not> fst (comm_is_active flag_backend flag_sender \<lparr>task_handle = 0, channel_tx = ()\<rparr>
      (\<lparr>cells = [0 \<mapsto> \<lparr>joinee = TokioHandle True True, cell_waker = None, strong = 1\<rparr>],
        next_cell = 1, woken = [], backend = True\<rparr> :: flag_handles)) \<and>
   (\<exists>e w. comm_try_send flag_sender \<lparr>task_handle = 0, channel_tx = ()\<rparr> 3 True = (Inl (IoError Other e), w))"
proof -
  let ?t = "\<lparr>task_handle = 0, channel_tx = ()\<rparr>"
  let ?s = "\<lparr>cells = [0 \<mapsto> \<lparr>joinee = TokioHandle True True, cell_waker = None, strong = 1\<rparr>],
       next_cell = 1, woken = [], backend = True\<rparr>"
  have "comm_abort flag_backend last_waker flag_sender ?t (flag_store 2) = ?s"
    by (simp add: comm_abort_def shared_abort_def shared_drop_def shared_wake_def update_cell_def
        flag_store_def flag_sender_def flag_backend_def last_waker_def)
  from comm_abort_final [OF flag_sender_laws TrueI this, of ?t 3] show ?thesis by simp
qed

end
