(* ===== verification/Coroutine.thy ===== *)
theory Coroutine
  imports Abortable Spawned_Task
begin

text \<open>
  The message-driven tasks of \<open>Executor\<close> in \<open>src/src/lib.rs\<close>: the loop that receives a message and
  awaits its handler, as a state machine that its \<open>await\<close>s make, and the functions that create the
  channel and spawn the loop. Channels belong to the futures crate: a sender \<open>'k\<close> and a receiver \<open>'q\<close>
  with operations on the state \<open>'s\<close> of everything. What the closure \<open>f\<close> captures and the context it
  borrows are one value \<open>'c\<close>; the future it makes for a message is a \<open>'g\<close>.
\<close>

section \<open>State\<close>

record ('k, 'q, 'm, 's) mpsc_ops =
  mp_channel :: "nat \<Rightarrow> 's \<Rightarrow> 'k \<times> 'q \<times> 's"
  mp_unbounded :: "'s \<Rightarrow> 'k \<times> 'q \<times> 's"
  mp_next :: "'q \<Rightarrow> 's \<Rightarrow> 'm option poll \<times> 'q \<times> 's"
  mp_queue :: "'q \<Rightarrow> 's \<Rightarrow> 'm list"

text \<open>\<open>while let Some(msg) = rx.next().await { f(msg).await }\<close> is receiving, in a handler, or over.\<close>

datatype ('c, 'g, 'q) coroutine = Receiving 'c 'q | Handling 'g 'c 'q | Stopped

text \<open>The closure, which may unwind, and the poll of the future it makes.\<close>

record ('c, 'g, 'm, 's) handler_ops =
  hd_call :: "'c \<Rightarrow> 'm \<Rightarrow> 's \<Rightarrow> ('g outcome) \<times> 'c \<times> 's"
  hd_poll :: "'g \<Rightarrow> 'c \<Rightarrow> 's \<Rightarrow> unit poll outcome \<times> 'g \<times> 'c \<times> 's"

section \<open>The loop\<close>

partial_function (option) coroutine_poll ::
  "('k, 'q, 'm, 's) mpsc_ops \<Rightarrow> ('c, 'g, 'm, 's) handler_ops \<Rightarrow> ('c, 'g, 'q) coroutine \<Rightarrow> 's \<Rightarrow>
   (unit poll outcome \<times> ('c, 'g, 'q) coroutine \<times> 's) option" where
  "coroutine_poll mops hops b s =
     (case b of
        Receiving c q \<Rightarrow>
          (case mp_next mops q s of
             (Pending, q', s') \<Rightarrow> Some (Returned Pending, Receiving c q', s')
           | (Ready None, q', s') \<Rightarrow> Some (Returned (Ready ()), Stopped, s')
           | (Ready (Some m), q', s') \<Rightarrow>
               (case hd_call hops c m s' of
                  (Unwound, c', s'') \<Rightarrow> Some (Unwound, Stopped, s'')
                | (Returned g, c', s'') \<Rightarrow> coroutine_poll mops hops (Handling g c' q') s''))
      | Handling g c q \<Rightarrow>
          (case hd_poll hops g c s of
             (Unwound, g', c', s') \<Rightarrow> Some (Unwound, Stopped, s')
           | (Returned Pending, g', c', s') \<Rightarrow> Some (Returned Pending, Handling g' c' q, s')
           | (Returned (Ready u), g', c', s') \<Rightarrow> coroutine_poll mops hops (Receiving c' q) s')
      | Stopped \<Rightarrow> Some (Unwound, Stopped, s))"

section \<open>Spawning\<close>

text \<open>\<open>Executor::spawn_abortable\<close>: the handle of \<open>spawn\<close> becomes a reference; \<open>dispatch\<close> drops it.\<close>

definition spawn_abortable ::
  "'aw \<Rightarrow> ('f \<Rightarrow> 'w \<Rightarrow> 'h \<times> 'w) \<Rightarrow> 'f \<Rightarrow> ('h, 'aw, 'w) store \<Rightarrow> nat \<times> ('h, 'aw, 'w) store" where
  "spawn_abortable aw spawn f s =
     (case spawn f (backend s) of (h, w) \<Rightarrow> shared_from aw h (s\<lparr>backend := w\<rparr>))"

definition dispatch ::
  "('t, 'c, 'x, 's, 'b, 'o, 'a, 'w) task_ops \<Rightarrow>
   ('f \<Rightarrow> 'w \<Rightarrow> ('t, 'c, 'x, 's, 'b, 'o, 'a) join_handle \<times> 'w) \<Rightarrow> 'f \<Rightarrow> 'w \<Rightarrow> 'w" where
  "dispatch ops spawn f w = (case spawn f w of (h, w') \<Rightarrow> handle_drop ops h w')"

text \<open>\<open>spawn_ab\<close> is the executor's \<open>spawn_abortable\<close>.\<close>

definition spawn_coroutine_with_buffer ::
  "('k, 'q, 'm, 's) mpsc_ops \<Rightarrow> (('c, 'g, 'q) coroutine \<Rightarrow> 's \<Rightarrow> nat \<times> 's) \<Rightarrow> nat \<Rightarrow> 'c \<Rightarrow> 's \<Rightarrow>
   'k communication_task \<times> 's" where
  "spawn_coroutine_with_buffer mops spawn_ab n f s =
     (case mp_channel mops n s of
        (tx, rx, s1) \<Rightarrow>
          (case spawn_ab (Receiving f rx) s1 of
             (a, s2) \<Rightarrow> (\<lparr>task_handle = a, channel_tx = tx\<rparr>, s2)))"

definition spawn_coroutine ::
  "('k, 'q, 'm, 's) mpsc_ops \<Rightarrow> (('c, 'g, 'q) coroutine \<Rightarrow> 's \<Rightarrow> nat \<times> 's) \<Rightarrow> 'c \<Rightarrow> 's \<Rightarrow>
   'k communication_task \<times> 's" where
  "spawn_coroutine mops spawn_ab f s = spawn_coroutine_with_buffer mops spawn_ab 1 f s"

definition spawn_unbounded_coroutine ::
  "('k, 'q, 'm, 's) mpsc_ops \<Rightarrow> (('c, 'g, 'q) coroutine \<Rightarrow> 's \<Rightarrow> nat \<times> 's) \<Rightarrow> 'c \<Rightarrow> 's \<Rightarrow>
   'k communication_task \<times> 's" where
  "spawn_unbounded_coroutine mops spawn_ab f s =
     (case mp_unbounded mops s of
        (tx, rx, s1) \<Rightarrow>
          (case spawn_ab (Receiving f rx) s1 of
             (a, s2) \<Rightarrow> (\<lparr>task_handle = a, channel_tx = tx\<rparr>, s2)))"

text \<open>With a context, the closure and the context are moved into the loop together.\<close>

definition spawn_coroutine_with_buffer_and_context ::
  "('k, 'q, 'm, 's) mpsc_ops \<Rightarrow> (('x \<times> 'c, 'g, 'q) coroutine \<Rightarrow> 's \<Rightarrow> nat \<times> 's) \<Rightarrow> 'x \<Rightarrow> nat \<Rightarrow> 'c \<Rightarrow>
   's \<Rightarrow> 'k communication_task \<times> 's" where
  "spawn_coroutine_with_buffer_and_context mops spawn_ab x n f s =
     (case mp_channel mops n s of
        (tx, rx, s1) \<Rightarrow>
          (case spawn_ab (Receiving (x, f) rx) s1 of
             (a, s2) \<Rightarrow> (\<lparr>task_handle = a, channel_tx = tx\<rparr>, s2)))"

definition spawn_coroutine_with_context ::
  "('k, 'q, 'm, 's) mpsc_ops \<Rightarrow> (('x \<times> 'c, 'g, 'q) coroutine \<Rightarrow> 's \<Rightarrow> nat \<times> 's) \<Rightarrow> 'x \<Rightarrow> 'c \<Rightarrow>
   's \<Rightarrow> 'k communication_task \<times> 's" where
  "spawn_coroutine_with_context mops spawn_ab x f s =
     spawn_coroutine_with_buffer_and_context mops spawn_ab x 1 f s"

definition spawn_unbounded_coroutine_with_context ::
  "('k, 'q, 'm, 's) mpsc_ops \<Rightarrow> (('x \<times> 'c, 'g, 'q) coroutine \<Rightarrow> 's \<Rightarrow> nat \<times> 's) \<Rightarrow> 'x \<Rightarrow> 'c \<Rightarrow>
   's \<Rightarrow> 'k communication_task \<times> 's" where
  "spawn_unbounded_coroutine_with_context mops spawn_ab x f s =
     (case mp_unbounded mops s of
        (tx, rx, s1) \<Rightarrow>
          (case spawn_ab (Receiving (x, f) rx) s1 of
             (a, s2) \<Rightarrow> (\<lparr>task_handle = a, channel_tx = tx\<rparr>, s2)))"

text \<open>With the receiver, the closure makes the future of the task; it is called before the spawn.\<close>

definition spawn_coroutine_with_receiver_and_buffer ::
  "('k, 'q, 'm, 's) mpsc_ops \<Rightarrow> ('f \<Rightarrow> 's \<Rightarrow> nat \<times> 's) \<Rightarrow> nat \<Rightarrow> ('q \<Rightarrow> 's \<Rightarrow> 'f \<times> 's) \<Rightarrow> 's \<Rightarrow>
   'k communication_task \<times> 's" where
  "spawn_coroutine_with_receiver_and_buffer mops spawn_ab n f s =
     (case mp_channel mops n s of
        (tx, rx, s1) \<Rightarrow>
          (case f rx s1 of
             (fut, s2) \<Rightarrow>
               (case spawn_ab fut s2 of
                  (a, s3) \<Rightarrow> (\<lparr>task_handle = a, channel_tx = tx\<rparr>, s3))))"

definition spawn_coroutine_with_receiver ::
  "('k, 'q, 'm, 's) mpsc_ops \<Rightarrow> ('f \<Rightarrow> 's \<Rightarrow> nat \<times> 's) \<Rightarrow> ('q \<Rightarrow> 's \<Rightarrow> 'f \<times> 's) \<Rightarrow> 's \<Rightarrow>
   'k communication_task \<times> 's" where
  "spawn_coroutine_with_receiver mops spawn_ab f s =
     spawn_coroutine_with_receiver_and_buffer mops spawn_ab 1 f s"

definition spawn_coroutine_with_receiver_buffer_and_context ::
  "('k, 'q, 'm, 's) mpsc_ops \<Rightarrow> ('f \<Rightarrow> 's \<Rightarrow> nat \<times> 's) \<Rightarrow> 'x \<Rightarrow> nat \<Rightarrow> ('x \<Rightarrow> 'q \<Rightarrow> 's \<Rightarrow> 'f \<times> 's) \<Rightarrow>
   's \<Rightarrow> 'k communication_task \<times> 's" where
  "spawn_coroutine_with_receiver_buffer_and_context mops spawn_ab x n f s =
     (case mp_channel mops n s of
        (tx, rx, s1) \<Rightarrow>
          (case f x rx s1 of
             (fut, s2) \<Rightarrow>
               (case spawn_ab fut s2 of
                  (a, s3) \<Rightarrow> (\<lparr>task_handle = a, channel_tx = tx\<rparr>, s3))))"

definition spawn_coroutine_with_receiver_and_context ::
  "('k, 'q, 'm, 's) mpsc_ops \<Rightarrow> ('f \<Rightarrow> 's \<Rightarrow> nat \<times> 's) \<Rightarrow> 'x \<Rightarrow> ('x \<Rightarrow> 'q \<Rightarrow> 's \<Rightarrow> 'f \<times> 's) \<Rightarrow>
   's \<Rightarrow> 'k communication_task \<times> 's" where
  "spawn_coroutine_with_receiver_and_context mops spawn_ab x f s =
     spawn_coroutine_with_receiver_buffer_and_context mops spawn_ab x 1 f s"

definition spawn_unbounded_coroutine_with_receiver ::
  "('k, 'q, 'm, 's) mpsc_ops \<Rightarrow> ('f \<Rightarrow> 's \<Rightarrow> nat \<times> 's) \<Rightarrow> ('q \<Rightarrow> 's \<Rightarrow> 'f \<times> 's) \<Rightarrow> 's \<Rightarrow>
   'k communication_task \<times> 's" where
  "spawn_unbounded_coroutine_with_receiver mops spawn_ab f s =
     (case mp_unbounded mops s of
        (tx, rx, s1) \<Rightarrow>
          (case f rx s1 of
             (fut, s2) \<Rightarrow>
               (case spawn_ab fut s2 of
                  (a, s3) \<Rightarrow> (\<lparr>task_handle = a, channel_tx = tx\<rparr>, s3))))"

definition spawn_unbounded_coroutine_with_receiver_and_context ::
  "('k, 'q, 'm, 's) mpsc_ops \<Rightarrow> ('f \<Rightarrow> 's \<Rightarrow> nat \<times> 's) \<Rightarrow> 'x \<Rightarrow> ('x \<Rightarrow> 'q \<Rightarrow> 's \<Rightarrow> 'f \<times> 's) \<Rightarrow>
   's \<Rightarrow> 'k communication_task \<times> 's" where
  "spawn_unbounded_coroutine_with_receiver_and_context mops spawn_ab x f s =
     (case mp_unbounded mops s of
        (tx, rx, s1) \<Rightarrow>
          (case f x rx s1 of
             (fut, s2) \<Rightarrow>
               (case spawn_ab fut s2 of
                  (a, s3) \<Rightarrow> (\<lparr>task_handle = a, channel_tx = tx\<rparr>, s3))))"

section \<open>The log of a coroutine\<close>

text \<open>
  What a run of one coroutine has seen: the messages sent to its channel, the messages its closure was
  called with, the number of handlers that completed, and a bound on the messages still to be sent.
\<close>

record ('m, 's) mail_log =
  sent_log :: "'s \<Rightarrow> 'm list"
  called_log :: "'s \<Rightarrow> 'm list"
  completed :: "'s \<Rightarrow> nat"
  budget :: "'s \<Rightarrow> nat"

text \<open>Code that may send messages to the channel and does nothing else to it.\<close>

definition sends ::
  "('k, 'q, 'm, 's) mpsc_ops \<Rightarrow> ('m, 's) mail_log \<Rightarrow> 's \<Rightarrow> 's \<Rightarrow> bool" where
  "sends mops lg s s' \<longleftrightarrow>
     (\<exists>ms. sent_log lg s' = sent_log lg s @ ms \<and> (\<forall>q. mp_queue mops q s' = mp_queue mops q s @ ms) \<and>
        budget lg s' + length ms \<le> budget lg s)"

text \<open>A channel is first in first out, and ends only when it is empty.\<close>

definition mpsc_laws :: "('k, 'q, 'm, 's) mpsc_ops \<Rightarrow> ('m, 's) mail_log \<Rightarrow> bool" where
  "mpsc_laws mops lg \<longleftrightarrow>
     (\<forall>q s x q' s'. mp_next mops q s = (x, q', s') \<longrightarrow>
        sent_log lg s' = sent_log lg s \<and> called_log lg s' = called_log lg s \<and>
        completed lg s' = completed lg s \<and> budget lg s' = budget lg s \<and>
        mp_queue mops q s = (case x of Ready (Some m) \<Rightarrow> m # mp_queue mops q' s' | _ \<Rightarrow> []) \<and>
        ((\<forall>m. x \<noteq> Ready (Some m)) \<longrightarrow> mp_queue mops q' s' = []))"

definition handler_laws ::
  "('k, 'q, 'm, 's) mpsc_ops \<Rightarrow> ('c, 'g, 'm, 's) handler_ops \<Rightarrow> ('m, 's) mail_log \<Rightarrow> bool" where
  "handler_laws mops hops lg \<longleftrightarrow>
     (\<forall>c m s r c' s'. hd_call hops c m s = (r, c', s') \<longrightarrow> sends mops lg s s' \<and>
        called_log lg s' = called_log lg s @ [m] \<and> completed lg s' = completed lg s) \<and>
     (\<forall>g c s r g' c' s'. hd_poll hops g c s = (r, g', c', s') \<longrightarrow> sends mops lg s s' \<and>
        called_log lg s' = called_log lg s \<and>
        completed lg s' = completed lg s + (if r = Returned (Ready ()) then 1 else 0))"

text \<open>Other code of the program between two polls.\<close>

definition outside_laws ::
  "('k, 'q, 'm, 's) mpsc_ops \<Rightarrow> ('m, 's) mail_log \<Rightarrow> ('s \<Rightarrow> 's) \<Rightarrow> bool" where
  "outside_laws mops lg e \<longleftrightarrow>
     (\<forall>s. sends mops lg s (e s) \<and> called_log lg (e s) = called_log lg s \<and>
        completed lg (e s) = completed lg s)"

text \<open>The receiver that a coroutine owns, and the handlers it has in flight.\<close>

fun in_flight :: "('c, 'g, 'q) coroutine \<Rightarrow> nat" where
  "in_flight (Handling g c q) = 1"
| "in_flight b = 0"

fun receiver :: "('c, 'g, 'q) coroutine \<Rightarrow> 'q option" where
  "receiver (Receiving c q) = Some q"
| "receiver (Handling g c q) = Some q"
| "receiver Stopped = None"

text \<open>
  Handled messages and queued messages are the sent ones in order, and at most one handler is in
  flight.
\<close>

definition in_order ::
  "('k, 'q, 'm, 's) mpsc_ops \<Rightarrow> ('m, 's) mail_log \<Rightarrow> ('c, 'g, 'q) coroutine \<Rightarrow> 's \<Rightarrow> bool" where
  "in_order mops lg b s \<longleftrightarrow>
     (\<exists>q. receiver b = Some q \<and> sent_log lg s = called_log lg s @ mp_queue mops q s) \<and>
     length (called_log lg s) = completed lg s + in_flight b"

definition work_left ::
  "('k, 'q, 'm, 's) mpsc_ops \<Rightarrow> ('m, 's) mail_log \<Rightarrow> ('c, 'g, 'q) coroutine \<Rightarrow> 's \<Rightarrow> nat" where
  "work_left mops lg b s =
     2 * (budget lg s + (case receiver b of None \<Rightarrow> 0 | Some q \<Rightarrow> length (mp_queue mops q s))) + in_flight b"

lemma mpsc_next:
  "mpsc_laws mops lg \<Longrightarrow> mp_next mops q s = (x, q', s') \<Longrightarrow>
     sent_log lg s' = sent_log lg s \<and> called_log lg s' = called_log lg s \<and>
     completed lg s' = completed lg s \<and> budget lg s' = budget lg s \<and>
     mp_queue mops q s = (case x of Ready (Some m) \<Rightarrow> m # mp_queue mops q' s' | _ \<Rightarrow> []) \<and>
     ((\<forall>m. x \<noteq> Ready (Some m)) \<longrightarrow> mp_queue mops q' s' = [])"
  unfolding mpsc_laws_def by blast

lemma handler_call:
  "handler_laws mops hops lg \<Longrightarrow> hd_call hops c m s = (r, c', s') \<Longrightarrow>
     sends mops lg s s' \<and> called_log lg s' = called_log lg s @ [m] \<and> completed lg s' = completed lg s"
  unfolding handler_laws_def by blast

lemma handler_poll:
  "handler_laws mops hops lg \<Longrightarrow> hd_poll hops g c s = (r, g', c', s') \<Longrightarrow>
     sends mops lg s s' \<and> called_log lg s' = called_log lg s \<and>
     completed lg s' = completed lg s + (if r = Returned (Ready ()) then 1 else 0)"
  unfolding handler_laws_def by blast

lemma sends_order:
  "sends mops lg s s' \<Longrightarrow> sent_log lg s = l @ mp_queue mops q s \<Longrightarrow> sent_log lg s' = l @ mp_queue mops q s'"
  "sends mops lg s s' \<Longrightarrow>
     budget lg s' + length (mp_queue mops q s') \<le> budget lg s + length (mp_queue mops q s)"
  by (auto simp: sends_def)

text \<open>What a poll of a coroutine leaves.\<close>

definition poll_kept ::
  "('k, 'q, 'm, 's) mpsc_ops \<Rightarrow> ('m, 's) mail_log \<Rightarrow> unit poll outcome \<Rightarrow> ('c, 'g, 'q) coroutine \<Rightarrow> 's \<Rightarrow> bool" where
  "poll_kept mops lg r b s \<longleftrightarrow>
     (\<exists>rest. sent_log lg s = called_log lg s @ rest) \<and>
     completed lg s \<le> length (called_log lg s) \<and> length (called_log lg s) \<le> Suc (completed lg s) \<and>
     (r = Returned Pending \<longrightarrow> in_order mops lg b s \<and>
        (in_flight b = 0 \<longrightarrow> called_log lg s = sent_log lg s)) \<and>
     (r = Returned (Ready ()) \<longrightarrow> called_log lg s = sent_log lg s \<and> completed lg s = length (sent_log lg s))"

lemma coroutine_poll_kept:
  assumes laws: "mpsc_laws mops lg" "handler_laws mops hops lg" and "in_order mops lg b s"
  shows "\<exists>r b' s'. coroutine_poll mops hops b s = Some (r, b', s') \<and> poll_kept mops lg r b' s'"
  using assms(3)
proof (induction "work_left mops lg b s" arbitrary: b s rule: less_induct)
  case less
  show ?case
  proof (cases b)
    case (Receiving c q)
    obtain x q1 s1 where n: "mp_next mops q s = (x, q1, s1)" by (cases "mp_next mops q s")
    note N = mpsc_next [OF laws(1) n]
    from less.prems Receiving have ord: "sent_log lg s = called_log lg s @ mp_queue mops q s"
      and cnt: "length (called_log lg s) = completed lg s" by (auto simp: in_order_def)
    consider "x = Pending" | "x = Ready None" | m where "x = Ready (Some m)"
      by (metis poll.exhaust option.exhaust)
    then show ?thesis
    proof cases
      case (3 m)
      obtain r c2 s2 where c: "hd_call hops c m s1 = (r, c2, s2)" by (cases "hd_call hops c m s1")
      note C = handler_call [OF laws(2) c]
      have "sent_log lg s1 = (called_log lg s1 @ [m]) @ mp_queue mops q1 s1" using N 3 ord by simp
      from sends_order(1) [OF _ this, of s2] C
      have ord2: "sent_log lg s2 = called_log lg s2 @ mp_queue mops q1 s2" by simp
      have cnt2: "length (called_log lg s2) = Suc (completed lg s2)" using C N cnt by simp
      show ?thesis
      proof (cases r)
        case (Returned g)
        have io: "in_order mops lg (Handling g c2 q1) s2" using ord2 cnt2 by (simp add: in_order_def)
        have "budget lg s2 + length (mp_queue mops q1 s2) \<le> budget lg s1 + length (mp_queue mops q1 s1)"
          using C by (auto intro: sends_order(2))
        then have lt: "work_left mops lg (Handling g c2 q1) s2 < work_left mops lg b s"
          using N 3 Receiving by (simp add: work_left_def)
        have "coroutine_poll mops hops b s = coroutine_poll mops hops (Handling g c2 q1) s2"
          using n c Receiving 3 Returned by (subst coroutine_poll.simps) simp
        with less.hyps [OF lt io] show ?thesis by simp
      next
        case Unwound
        with n c Receiving 3 ord2 cnt2 show ?thesis
          by (subst coroutine_poll.simps) (simp add: poll_kept_def)
      qed
    qed (use n N Receiving ord cnt in \<open>subst coroutine_poll.simps, simp add: poll_kept_def in_order_def\<close>)+
  next
    case (Handling g c q)
    obtain r g1 c1 s1 where p: "hd_poll hops g c s = (r, g1, c1, s1)" by (cases "hd_poll hops g c s")
    note P = handler_poll [OF laws(2) p]
    from less.prems Handling have ord: "sent_log lg s = called_log lg s @ mp_queue mops q s"
      and cnt: "length (called_log lg s) = Suc (completed lg s)" by (auto simp: in_order_def)
    from sends_order(1) [OF _ ord, of s1] P
    have ord1: "sent_log lg s1 = called_log lg s1 @ mp_queue mops q s1" by simp
    consider "r = Unwound" | "r = Returned Pending" | "r = Returned (Ready ())"
      by (metis (full_types) outcome.exhaust poll.exhaust old.unit.exhaust)
    then show ?thesis
    proof cases
      case 3
      have io: "in_order mops lg (Receiving c1 q) s1" using ord1 P cnt 3 by (simp add: in_order_def)
      have "budget lg s1 + length (mp_queue mops q s1) \<le> budget lg s + length (mp_queue mops q s)"
        using P by (auto intro: sends_order(2))
      then have lt: "work_left mops lg (Receiving c1 q) s1 < work_left mops lg b s"
        using Handling by (simp add: work_left_def)
      have "coroutine_poll mops hops b s = coroutine_poll mops hops (Receiving c1 q) s1"
        using p Handling 3 by (subst coroutine_poll.simps) simp
      with less.hyps [OF lt io] show ?thesis by simp
    qed (use p P Handling ord1 cnt in \<open>subst coroutine_poll.simps, simp add: poll_kept_def in_order_def\<close>)+
  qed (use less.prems in \<open>simp add: in_order_def\<close>)
qed

section \<open>Runs\<close>

text \<open>A run is other code and a poll, in turns, until the coroutine is over.\<close>

fun coroutine_run ::
  "('k, 'q, 'm, 's) mpsc_ops \<Rightarrow> ('c, 'g, 'm, 's) handler_ops \<Rightarrow> ('s \<Rightarrow> 's) list \<Rightarrow>
   ('c, 'g, 'q) coroutine \<Rightarrow> 's \<Rightarrow> (unit poll outcome \<times> ('c, 'g, 'q) coroutine \<times> 's) option" where
  "coroutine_run mops hops [] b s = Some (Returned Pending, b, s)"
| "coroutine_run mops hops (e # es) b s =
     (case coroutine_poll mops hops b (e s) of
        None \<Rightarrow> None
      | Some (Returned Pending, b', s') \<Rightarrow>
          (if es = [] then Some (Returned Pending, b', s') else coroutine_run mops hops es b' s')
      | Some r \<Rightarrow> Some r)"

lemma outside_in_order: "outside_laws mops lg e \<Longrightarrow> in_order mops lg b s \<Longrightarrow> in_order mops lg b (e s)"
  unfolding outside_laws_def in_order_def by (metis sends_order(1))

lemma coroutine_run_kept:
  assumes laws: "mpsc_laws mops lg" "handler_laws mops hops lg" and "\<forall>e\<in>set es. outside_laws mops lg e"
    and "in_order mops lg b s" and "es \<noteq> []"
  shows "\<exists>r b' s'. coroutine_run mops hops es b s = Some (r, b', s') \<and> poll_kept mops lg r b' s'"
  using assms(3-5)
proof (induction es arbitrary: b s)
  case (Cons e es)
  from Cons.prems have "in_order mops lg b (e s)" by (auto intro: outside_in_order)
  from coroutine_poll_kept [OF laws this] obtain r b1 s1 where
    p: "coroutine_poll mops hops b (e s) = Some (r, b1, s1)" and K: "poll_kept mops lg r b1 s1" by blast
  show ?case
  proof (cases "r = Returned Pending \<and> es \<noteq> []")
    case True
    then have "in_order mops lg b1 s1" using K by (simp add: poll_kept_def)
    from Cons.IH [OF _ this] Cons.prems(1) True p show ?thesis by simp
  next
    case False
    with p K show ?thesis by (auto split: outcome.splits poll.splits)
  qed
qed simp

text \<open>
  C25: a coroutine handles its messages in the order in which they were sent, one at a time, and none is
  lost or repeated. For every run of a coroutine, with any code between the polls that may send
  messages, each poll returns, provided the messages sent are finitely many. Then the messages its
  closure was called with are a prefix of those sent; at most one handler is incomplete; while the
  coroutine waits for a message it has handled all that were sent; and it ends by itself only after the
  handlers of all messages completed.
\<close>

theorem coroutine_in_order:
  assumes "mpsc_laws mops lg" and "handler_laws mops hops lg" and "\<forall>e\<in>set es. outside_laws mops lg e"
    and "es \<noteq> []" and "sent_log lg s = mp_queue mops q s" and "called_log lg s = []" and "completed lg s = 0"
  shows "\<exists>r b' s'. coroutine_run mops hops es (Receiving c q) s = Some (r, b', s') \<and>
    (\<exists>rest. sent_log lg s' = called_log lg s' @ rest) \<and>
    length (called_log lg s') \<le> Suc (completed lg s') \<and>
    (r = Returned Pending \<and> in_flight b' = 0 \<longrightarrow> called_log lg s' = sent_log lg s') \<and>
    (r = Returned (Ready ()) \<longrightarrow>
       called_log lg s' = sent_log lg s' \<and> completed lg s' = length (sent_log lg s'))"
proof -
  have "in_order mops lg (Receiving c q) s" using assms(5-7) by (simp add: in_order_def)
  from coroutine_run_kept [OF assms(1-3) this assms(4)] show ?thesis
    by (auto simp: poll_kept_def)
qed

text \<open>A channel of numbers, a handler that is pending once and doubles into the context.\<close>

record mail =
  mq :: "nat list"
  mclosed :: bool
  msent :: "nat list"
  mcalled :: "nat list"
  mdone :: nat
  mleft :: nat

definition mail_ops :: "(unit, unit, nat, mail) mpsc_ops" where
  "mail_ops = \<lparr>mp_channel = (\<lambda>n s. ((), (), s)), mp_unbounded = (\<lambda>s. ((), (), s)),
     mp_next = (\<lambda>q s. case mq s of
         [] \<Rightarrow> (if mclosed s then Ready None else Pending, (), s)
       | m # ms \<Rightarrow> (Ready (Some m), (), s\<lparr>mq := ms\<rparr>)),
     mp_queue = (\<lambda>q. mq)\<rparr>"

definition mail_handler :: "(nat, bool, nat, mail) handler_ops" where
  "mail_handler = \<lparr>hd_call = (\<lambda>c m s. (Returned False, c + m, s\<lparr>mcalled := mcalled s @ [m]\<rparr>)),
     hd_poll = (\<lambda>g c s. if g then (Returned (Ready ()), g, c, s\<lparr>mdone := mdone s + 1\<rparr>)
        else (Returned Pending, True, c, s))\<rparr>"

definition mail_view :: "(nat, mail) mail_log" where
  "mail_view = \<lparr>sent_log = msent, called_log = mcalled, completed = mdone, budget = mleft\<rparr>"

definition post :: "nat \<Rightarrow> mail \<Rightarrow> mail" where
  "post m s = (if mleft s = 0 then s
     else s\<lparr>mq := mq s @ [m], msent := msent s @ [m], mleft := mleft s - 1\<rparr>)"

lemma mail_laws:
  "mpsc_laws mail_ops mail_view" "handler_laws mail_ops mail_handler mail_view"
  "outside_laws mail_ops mail_view (post m)"
  by (auto simp: mpsc_laws_def mail_ops_def mail_view_def handler_laws_def mail_handler_def sends_def
      outside_laws_def post_def split: list.splits if_splits)

theorem coroutine_in_order_witness:
  "\<exists>r b' s'. coroutine_run mail_ops mail_handler [post 4, post 5] (Receiving 0 ()) \<lparr>mq = [], mclosed = False,
      msent = [], mcalled = [], mdone = 0, mleft = 9\<rparr> = Some (r, b', s') \<and>
    (\<exists>rest. sent_log mail_view s' = called_log mail_view s' @ rest) \<and>
    length (called_log mail_view s') \<le> Suc (completed mail_view s') \<and>
    \<not> (r = Returned Pending \<and> in_flight b' = 0 \<and> called_log mail_view s' \<noteq> sent_log mail_view s')"
  using coroutine_in_order [OF mail_laws(1,2), of "[post 4, post 5]"
      "\<lparr>mq = [], mclosed = False, msent = [], mcalled = [], mdone = 0, mleft = 9\<rparr>" "()" 0]
  by (simp add: mail_laws(3)) (auto simp: mail_view_def mail_ops_def)

end
