(* ===== verification/Delays.thy ===== *)
theory Delays
  imports Coroutine
begin

text \<open>
  \<open>ExecutorTimeout\<close> and the provided methods of \<open>ExecutorBlockOn\<close> and \<open>ExecutorBlocking\<close> of
  \<open>src/src/lib.rs\<close>. \<open>futures_timeout::Timeout\<close> belongs to another crate: a type \<open>'q\<close> with the
  operations \<open>from_future\<close> and \<open>poll\<close>. A duration is a number of nanoseconds.
\<close>

section \<open>Timeouts\<close>

datatype timeout_error = TimeoutError

text \<open>\<open>'x\<close> is what is put under a timeout; a timeout answers its value or that time is up.\<close>

record ('x, 'a, 'q, 's) timeout_ops =
  to_from_future :: "'x \<Rightarrow> nat \<Rightarrow> 's \<Rightarrow> 'q \<times> 's"
  to_poll :: "'q \<Rightarrow> 's \<Rightarrow> (unit + 'a) poll outcome \<times> 'q \<times> 's"

text \<open>\<open>From<futures_timeout::TimeoutError>\<close>, and \<open>|_| TimeoutError\<close>.\<close>

definition timeout_error_from :: "unit \<Rightarrow> timeout_error" where
  "timeout_error_from u = TimeoutError"

text \<open>\<open>Timeout::from_future(f, d).map_err(..)\<close>; polled after its end it panics.\<close>

datatype 'q timed = Timed 'q | TimedOver

fun timed_poll ::
  "('x, 'a, 'q, 's) timeout_ops \<Rightarrow> 'q timed \<Rightarrow> 's \<Rightarrow> (timeout_error + 'a) poll outcome \<times> 'q timed \<times> 's" where
  "timed_poll tops (Timed q) s =
     (case to_poll tops q s of
        (Unwound, q', s') \<Rightarrow> (Unwound, Timed q', s')
      | (Returned Pending, q', s') \<Rightarrow> (Returned Pending, Timed q', s')
      | (Returned (Ready r), q', s') \<Rightarrow> (Returned (Ready (map_sum timeout_error_from id r)), TimedOver, s'))"
| "timed_poll tops TimedOver s = (Unwound, TimedOver, s)"

definition timed_new :: "('x, 'a, 'q, 's) timeout_ops \<Rightarrow> nat \<Rightarrow> 'x \<Rightarrow> 's \<Rightarrow> 'q timed \<times> 's" where
  "timed_new tops d f s = (case to_from_future tops f d s of (q, s') \<Rightarrow> (Timed q, s'))"

text \<open>
  \<open>async move { let _ = Timeout::from_future(pending(), duration).await; f.await }\<close>: the timeout is
  made at the first poll. The future under it is never ready, its value is \<open>unit\<close>.
\<close>

datatype ('q, 'f) delayed = NotStarted nat 'f | Waiting 'q 'f | Started 'f | DelayOver

fun delayed_start ::
  "('f \<Rightarrow> 's \<Rightarrow> 'a poll outcome \<times> 'f \<times> 's) \<Rightarrow> 'f \<Rightarrow> 's \<Rightarrow>
   'a poll outcome \<times> ('q, 'f) delayed \<times> 's" where
  "delayed_start user f s =
     (case user f s of
        (Unwound, f', s') \<Rightarrow> (Unwound, DelayOver, s')
      | (Returned Pending, f', s') \<Rightarrow> (Returned Pending, Started f', s')
      | (Returned (Ready v), f', s') \<Rightarrow> (Returned (Ready v), DelayOver, s'))"

fun delayed_wait ::
  "(unit, unit, 'q, 's) timeout_ops \<Rightarrow> ('f \<Rightarrow> 's \<Rightarrow> 'a poll outcome \<times> 'f \<times> 's) \<Rightarrow> 'q \<Rightarrow> 'f \<Rightarrow> 's \<Rightarrow>
   'a poll outcome \<times> ('q, 'f) delayed \<times> 's" where
  "delayed_wait tops user q f s =
     (case to_poll tops q s of
        (Unwound, q', s') \<Rightarrow> (Unwound, DelayOver, s')
      | (Returned Pending, q', s') \<Rightarrow> (Returned Pending, Waiting q' f, s')
      | (Returned (Ready r), q', s') \<Rightarrow> delayed_start user f s')"

fun delayed_poll ::
  "(unit, unit, 'q, 's) timeout_ops \<Rightarrow> ('f \<Rightarrow> 's \<Rightarrow> 'a poll outcome \<times> 'f \<times> 's) \<Rightarrow> ('q, 'f) delayed \<Rightarrow> 's \<Rightarrow>
   'a poll outcome \<times> ('q, 'f) delayed \<times> 's" where
  "delayed_poll tops user (NotStarted d f) s =
     (case to_from_future tops () d s of (q, s') \<Rightarrow> delayed_wait tops user q f s')"
| "delayed_poll tops user (Waiting q f) s = delayed_wait tops user q f s"
| "delayed_poll tops user (Started f) s = delayed_start user f s"
| "delayed_poll tops user DelayOver s = (Unwound, DelayOver, s)"

section \<open>Spawning\<close>

definition spawn_timeout ::
  "('x, 'a, 'q, 's) timeout_ops \<Rightarrow> ('q timed \<Rightarrow> 's \<Rightarrow> 'h \<times> 's) \<Rightarrow> nat \<Rightarrow> 'x \<Rightarrow> 's \<Rightarrow> 'h \<times> 's" where
  "spawn_timeout tops spawn d f s = (case timed_new tops d f s of (t, s') \<Rightarrow> spawn t s')"

definition spawn_delay ::
  "(('q, 'f) delayed \<Rightarrow> 's \<Rightarrow> 'h \<times> 's) \<Rightarrow> nat \<Rightarrow> 'f \<Rightarrow> 's \<Rightarrow> 'h \<times> 's" where
  "spawn_delay spawn d f s = spawn (NotStarted d f) s"

definition spawn_abortable_timeout ::
  "('x, 'a, 'q, 's) timeout_ops \<Rightarrow> ('q timed \<Rightarrow> 's \<Rightarrow> nat \<times> 's) \<Rightarrow> nat \<Rightarrow> 'x \<Rightarrow> 's \<Rightarrow> nat \<times> 's" where
  "spawn_abortable_timeout tops spawn_ab d f s = (case timed_new tops d f s of (t, s') \<Rightarrow> spawn_ab t s')"

definition spawn_abortable_delay ::
  "(('q, 'f) delayed \<Rightarrow> 's \<Rightarrow> nat \<times> 's) \<Rightarrow> nat \<Rightarrow> 'f \<Rightarrow> 's \<Rightarrow> nat \<times> 's" where
  "spawn_abortable_delay spawn_ab d f s = spawn_ab (NotStarted d f) s"

definition block_on_timeout ::
  "('x, 'a, 'q, 's) timeout_ops \<Rightarrow> ('q timed \<Rightarrow> 's \<Rightarrow> 'r outcome \<times> 's) \<Rightarrow> nat \<Rightarrow> 'x \<Rightarrow> 's \<Rightarrow>
   'r outcome \<times> 's" where
  "block_on_timeout tops block_on d f s = (case timed_new tops d f s of (t, s') \<Rightarrow> block_on t s')"

definition block_on_delay ::
  "(('q, 'f) delayed \<Rightarrow> 's \<Rightarrow> 'r outcome \<times> 's) \<Rightarrow> nat \<Rightarrow> 'f \<Rightarrow> 's \<Rightarrow> 'r outcome \<times> 's" where
  "block_on_delay block_on d f s = block_on (NotStarted d f) s"

text \<open>\<open>ExecutorBlocking::spawn_blocking_abortable\<close>: the handle of \<open>spawn_blocking\<close> becomes a reference.\<close>

definition spawn_blocking_abortable ::
  "'aw \<Rightarrow> ('b \<Rightarrow> 'w \<Rightarrow> 'h \<times> 'w) \<Rightarrow> 'b \<Rightarrow> ('h, 'aw, 'w) store \<Rightarrow> nat \<times> ('h, 'aw, 'w) store" where
  "spawn_blocking_abortable aw spawn_blocking f s =
     (case spawn_blocking f (backend s) of (h, w) \<Rightarrow> shared_from aw h (s\<lparr>backend := w\<rparr>))"

section \<open>Time\<close>

text \<open>
  A clock, the deadline of a timeout, and the times at which the user future was polled, all part of
  the state.
\<close>

record ('q, 's) clock_view =
  now :: "'s \<Rightarrow> nat"
  deadline :: "'q \<Rightarrow> nat"
  polled_at :: "'s \<Rightarrow> nat list"

definition ticks :: "('q, 's) clock_view \<Rightarrow> 's \<Rightarrow> 's \<Rightarrow> bool" where
  "ticks cv s s' \<longleftrightarrow> now cv s \<le> now cv s' \<and> polled_at cv s' = polled_at cv s"

text \<open>A timeout made at some time is due its duration later and is not up before.\<close>

definition timer_laws :: "('x, 'a, 'q, 's) timeout_ops \<Rightarrow> ('q, 's) clock_view \<Rightarrow> bool" where
  "timer_laws tops cv \<longleftrightarrow>
     (\<forall>f d s q s'. to_from_future tops f d s = (q, s') \<longrightarrow>
        deadline cv q = now cv s + d \<and> now cv s \<le> now cv s') \<and>
     (\<forall>q s r q' s'. to_poll tops q s = (r, q', s') \<longrightarrow>
        deadline cv q' = deadline cv q \<and> now cv s \<le> now cv s' \<and>
        (\<forall>u. r = Returned (Ready (Inl u)) \<longrightarrow> deadline cv q \<le> now cv s'))"

text \<open>The future under the timeout of a delay is never ready, and is not the user future.\<close>

definition pending_laws :: "(unit, unit, 'q, 's) timeout_ops \<Rightarrow> ('q, 's) clock_view \<Rightarrow> bool" where
  "pending_laws tops cv \<longleftrightarrow>
     (\<forall>d s. polled_at cv (snd (to_from_future tops () d s)) = polled_at cv s) \<and>
     (\<forall>q s r q' s'. to_poll tops q s = (r, q', s') \<longrightarrow>
        polled_at cv s' = polled_at cv s \<and> (\<forall>u. r \<noteq> Returned (Ready (Inr u))))"

definition user_logged :: "('q, 's) clock_view \<Rightarrow> ('f \<Rightarrow> 's \<Rightarrow> 'a poll outcome \<times> 'f \<times> 's) \<Rightarrow> bool" where
  "user_logged cv user \<longleftrightarrow>
     (\<forall>f s r f' s'. user f s = (r, f', s') \<longrightarrow>
        now cv s \<le> now cv s' \<and> polled_at cv s' = polled_at cv s @ [now cv s])"

text \<open>A delayed task is polled by its executor, with other code in between.\<close>

fun delayed_run ::
  "(unit, unit, 'q, 's) timeout_ops \<Rightarrow> ('f \<Rightarrow> 's \<Rightarrow> 'a poll outcome \<times> 'f \<times> 's) \<Rightarrow> ('s \<Rightarrow> 's) list \<Rightarrow>
   ('q, 'f) delayed \<Rightarrow> 's \<Rightarrow> 'a poll outcome \<times> ('q, 'f) delayed \<times> 's" where
  "delayed_run tops user [] b s = (Returned Pending, b, s)"
| "delayed_run tops user (e # es) b s =
     (case delayed_poll tops user b (e s) of
        (Returned Pending, b', s') \<Rightarrow> delayed_run tops user es b' s'
      | r \<Rightarrow> r)"

text \<open>What the block may have done by a time before which the user future must not run.\<close>

fun due :: "('q, 's) clock_view \<Rightarrow> nat \<Rightarrow> ('q, 'f) delayed \<Rightarrow> 's \<Rightarrow> bool" where
  "due cv t (NotStarted d f) s = (t \<le> now cv s + d)"
| "due cv t (Waiting q f) s = (t \<le> deadline cv q)"
| "due cv t (Started f) s = (t \<le> now cv s)"
| "due cv t DelayOver s = True"

definition not_early :: "('q, 's) clock_view \<Rightarrow> nat \<Rightarrow> 's \<Rightarrow> bool" where
  "not_early cv t s \<longleftrightarrow> (\<forall>u\<in>set (polled_at cv s). t \<le> u)"

lemma delayed_start_due:
  assumes "user_logged cv user" "delayed_start user f s = (r, b, s')" "t \<le> now cv s" "not_early cv t s"
  shows "due cv t b s' \<and> not_early cv t s'"
proof -
  obtain x f1 s1 where u: "user f s = (x, f1, s1)" by (cases "user f s")
  with assms(1) have "now cv s \<le> now cv s1" "polled_at cv s1 = polled_at cv s @ [now cv s]"
    by (simp_all add: user_logged_def)
  with assms(2-4) u show ?thesis
    by (auto simp: not_early_def split: outcome.splits poll.splits)
qed

lemma delayed_wait_due:
  assumes "timer_laws tops cv" "pending_laws tops cv" "user_logged cv user"
    and "delayed_wait tops user q f s = (r, b, s')" "t \<le> deadline cv q" "not_early cv t s"
  shows "due cv t b s' \<and> not_early cv t s'"
proof -
  obtain x q1 s1 where p: "to_poll tops q s = (x, q1, s1)" by (cases "to_poll tops q s")
  with assms(1) have d: "deadline cv q1 = deadline cv q"
    and up: "\<And>u. x = Returned (Ready (Inl u)) \<Longrightarrow> deadline cv q \<le> now cv s1"
    unfolding timer_laws_def by blast+
  from p assms(2) have n: "polled_at cv s1 = polled_at cv s" "\<And>u. x \<noteq> Returned (Ready (Inr u))"
    unfolding pending_laws_def by blast+
  consider "x = Unwound" | "x = Returned Pending" | u where "x = Returned (Ready (Inl u))"
    using n(2) by (metis outcome.exhaust poll.exhaust sum.exhaust)
  then show ?thesis
  proof cases
    case 3
    have "t \<le> now cv s1" using up [OF 3] assms(5) by simp
    then show ?thesis
      using 3 p assms(4,6) n(1)
      by (intro delayed_start_due [OF assms(3), of f s1 r b s']) (simp_all add: not_early_def)
  qed (use p assms(4-6) d n in \<open>auto simp: not_early_def\<close>)
qed

lemma delayed_poll_due:
  assumes laws: "timer_laws tops cv" "pending_laws tops cv" "user_logged cv user"
    and "delayed_poll tops user b s = (r, b', s')" "due cv t b s" "not_early cv t s"
  shows "due cv t b' s' \<and> not_early cv t s'"
proof (cases b)
  case (NotStarted d f)
  obtain q s1 where q: "to_from_future tops () d s = (q, s1)" by (cases "to_from_future tops () d s")
  from q laws(1) have "deadline cv q = now cv s + d" unfolding timer_laws_def by blast
  moreover from q laws(2) have "polled_at cv s1 = polled_at cv s"
    unfolding pending_laws_def by (metis snd_conv)
  ultimately have "delayed_wait tops user q f s1 = (r, b', s')" "t \<le> deadline cv q" "not_early cv t s1"
    using NotStarted q assms(4-6) by (auto simp: not_early_def)
  then show ?thesis by (rule delayed_wait_due [OF laws])
next
  case (Waiting q f)
  with assms(4,5) have "delayed_wait tops user q f s = (r, b', s')" "t \<le> deadline cv q" by simp_all
  then show ?thesis by (rule delayed_wait_due [OF laws]) (rule assms(6))
next
  case (Started f)
  with assms(4,5) have "delayed_start user f s = (r, b', s')" "t \<le> now cv s" by simp_all
  then show ?thesis by (rule delayed_start_due [OF laws(3)]) (rule assms(6))
qed (use assms(4,6) in simp)

lemma due_ticks: "ticks cv s s' \<Longrightarrow> due cv t b s \<Longrightarrow> due cv t b s'"
  by (cases b) (auto simp: ticks_def)

lemma delayed_run_due:
  assumes laws: "timer_laws tops cv" "pending_laws tops cv" "user_logged cv user"
    and "\<forall>e\<in>set es. \<forall>s. ticks cv s (e s)"
    and "delayed_run tops user es b s = (r, b', s')" "due cv t b s" "not_early cv t s"
  shows "not_early cv t s'"
  using assms(4-7)
proof (induction es arbitrary: b s)
  case (Cons e es)
  obtain x b1 s1 where p: "delayed_poll tops user b (e s) = (x, b1, s1)"
    by (cases "delayed_poll tops user b (e s)")
  from Cons.prems(1) have "ticks cv s (e s)" by simp
  with Cons.prems(3,4) have "due cv t b (e s)" "not_early cv t (e s)"
    by (auto intro: due_ticks simp: ticks_def not_early_def)
  from delayed_poll_due [OF laws p this] have k: "due cv t b1 s1" "not_early cv t s1" by simp_all
  show ?case
  proof (cases "x = Returned Pending")
    case True
    with Cons.prems(1,2) p k show ?thesis by (intro Cons.IH [OF _ _ k]) auto
  next
    case False
    with Cons.prems(2) p k show ?thesis by (auto split: outcome.splits poll.splits)
  qed
qed simp

text \<open>
  C32: a delayed task does not start early. Whatever other code runs between its polls, every poll of
  the user future of \<open>spawn_delay\<close>, \<open>spawn_abortable_delay\<close> or \<open>block_on_delay\<close> comes at least the
  duration after the task's first poll (so after the spawn); the time from the spawn to the first poll
  does not count towards the delay.
\<close>

theorem delay_not_early:
  assumes "timer_laws tops cv" and "pending_laws tops cv" and "user_logged cv user"
    and "\<forall>e\<in>set es. \<forall>s. ticks cv s (e s)" and "polled_at cv s0 = []"
    and "delayed_run tops user ((\<lambda>s. s) # es) (NotStarted d f) s0 = (r, b, s')"
  shows "\<forall>u\<in>set (polled_at cv s'). now cv s0 + d \<le> u"
proof -
  have "not_early cv (now cv s0 + d) s'"
    by (rule delayed_run_due [OF assms(1-3) _ assms(6)])
      (use assms(4,5) in \<open>auto simp: ticks_def not_early_def\<close>)
  then show ?thesis by (simp add: not_early_def)
qed

text \<open>A clock that each poll advances by one; a timeout is its deadline.\<close>

record wall =
  wall_now :: nat
  wall_log :: "nat list"

definition wall_timer :: "(unit, unit, nat, wall) timeout_ops" where
  "wall_timer = \<lparr>to_from_future = (\<lambda>f d s. (wall_now s + d, s)),
     to_poll = (\<lambda>q s. (if q \<le> wall_now s then Returned (Ready (Inl ())) else Returned Pending, q, s))\<rparr>"

definition wall_view :: "(nat, wall) clock_view" where
  "wall_view = \<lparr>now = wall_now, deadline = (\<lambda>q. q), polled_at = wall_log\<rparr>"

definition wall_user :: "nat \<Rightarrow> wall \<Rightarrow> nat poll outcome \<times> nat \<times> wall" where
  "wall_user f s = (Returned (Ready f), f, s\<lparr>wall_log := wall_log s @ [wall_now s]\<rparr>)"

definition wait_for :: "nat \<Rightarrow> wall \<Rightarrow> wall" where
  "wait_for n s = s\<lparr>wall_now := wall_now s + n\<rparr>"

theorem delay_not_early_witness:
  "polled_at wall_view \<lparr>wall_now = 6, wall_log = [6]\<rparr> = [6] \<and>
     now wall_view \<lparr>wall_now = 1, wall_log = []\<rparr> + 5 \<le> 6"
proof -
  have 1: "timer_laws wall_timer wall_view" "pending_laws wall_timer wall_view"
    "user_logged wall_view wall_user" "\<forall>e\<in>set [wait_for 5]. \<forall>s. ticks wall_view s (e s)"
    by (auto simp: timer_laws_def pending_laws_def user_logged_def ticks_def wall_timer_def wall_view_def
        wall_user_def wait_for_def)
  have 2: "polled_at wall_view \<lparr>wall_now = 1, wall_log = []\<rparr> = []" by (simp add: wall_view_def)
  have 3: "delayed_run wall_timer wall_user [\<lambda>s. s, wait_for 5] (NotStarted 5 7)
      \<lparr>wall_now = 1, wall_log = []\<rparr> =
      (Returned (Ready 7), DelayOver, \<lparr>wall_now = 6, wall_log = [6]\<rparr>)"
    by (simp add: wall_timer_def wall_user_def wait_for_def)
  show ?thesis using delay_not_early [OF 1 2 3] by (simp add: wall_view_def)
qed

section \<open>A task under a timeout\<close>

text \<open>A wrapped task is polled by its executor, with other code in between, which may abort it.\<close>

fun wrapped_run ::
  "('f, unit + 'a, 'a join_result, 'w) futures_ops \<Rightarrow> ('f, 'a, 'w) user_poll \<Rightarrow> ('w \<Rightarrow> 'w) list \<Rightarrow>
   'f wrapped \<Rightarrow> 'w cell \<Rightarrow> unit poll outcome \<times> 'f wrapped \<times> 'w cell" where
  "wrapped_run ops user [] t c = (Returned Pending, t, c)"
| "wrapped_run ops user (e # es) t c =
     (case wrapped_poll ops user t (c\<lparr>outside := e (outside c)\<rparr>) of
        (Returned Pending, t', c') \<Rightarrow> wrapped_run ops user es t' c'
      | r \<Rightarrow> r)"

text \<open>Other code leaves the channel of the task alone.\<close>

definition leaves_channel ::
  "('f, 'r, 'm, 'w) futures_ops \<Rightarrow> ('q, 'w) clock_view \<Rightarrow> ('w \<Rightarrow> 'w) \<Rightarrow> bool" where
  "leaves_channel ops cv e \<longleftrightarrow>
     (\<forall>w. os_state ops (e w) = os_state ops w \<and> now cv w \<le> now cv (e w))"

lemma abortable_pending:
  assumes "futures_laws ops" and "abortable_result ops user f w = (Pending, f', w')"
  shows "user f w = (Returned Pending, f', w')"
proof -
  obtain x f1 w1 where u: "user f w = (x, f1, w1)" by (cases "user f w")
  have n: "\<not> ab_requested ops w" using assms futures_abort [OF assms(1)] by fastforce
  consider v where "x = Returned (Ready v)" | "x = Returned Pending" | "x = Unwound"
    by (metis outcome.exhaust poll.exhaust)
  then show ?thesis
    using u assms(2) futures_ready [OF assms(1) n, of user f] futures_pending [OF assms(1) n, of user f]
    by cases (auto split: if_splits)
qed

lemma abortable_unrequested:
  assumes "futures_laws ops" "\<not> ab_requested ops w" "user f w = (x, f1, w1)"
    and "abortable_result ops user f w = (y, f', w')"
  shows "f' = f1 \<and> w' = w1"
proof -
  consider v where "x = Returned (Ready v)" | "x = Returned Pending" | "x = Unwound"
    by (metis outcome.exhaust poll.exhaust)
  then show ?thesis
    using assms(3,4) futures_ready [OF assms(1,2), of user f] futures_pending [OF assms(1,2), of user f]
    by cases auto
qed

lemma timed_poll_time:
  assumes "timer_laws tops cv" and "timed_poll tops (Timed q) w = (x, t, w')"
  shows "now cv w \<le> now cv w' \<and> (x = Returned (Ready (Inl TimeoutError)) \<longrightarrow> deadline cv q \<le> now cv w') \<and>
    (x = Returned Pending \<longrightarrow> (\<exists>q'. t = Timed q' \<and> deadline cv q' = deadline cv q))"
proof -
  obtain y q1 w1 where p: "to_poll tops q w = (y, q1, w1)" by (cases "to_poll tops q w")
  from assms(1) p have "deadline cv q1 = deadline cv q \<and> now cv w \<le> now cv w1 \<and>
      (\<forall>u. y = Returned (Ready (Inl u)) \<longrightarrow> deadline cv q \<le> now cv w1)"
    unfolding timer_laws_def by blast
  with assms(2) p show ?thesis
    by (cases "y") (auto split: poll.splits sum.splits simp: map_sum_def)
qed

text \<open>What one poll of a wrapped task under a timeout leaves, and what the channel then holds.\<close>

definition timeout_result_ok :: "('q, 'w) clock_view \<Rightarrow> nat \<Rightarrow> 'w \<Rightarrow> (timeout_error + 'a) join_result \<Rightarrow> bool" where
  "timeout_result_ok cv t w res \<longleftrightarrow>
     (res = Inr (Inl TimeoutError) \<longrightarrow> t \<le> now cv w) \<and> res \<notin> {Inl Cancelled, Inl Empty, Inl Unknown}"

lemma timed_wrapped_poll:
  assumes laws: "futures_laws ops" "frames_channel ops (timed_poll tops)" "timer_laws tops cv"
    and send: "\<forall>m w. now cv w \<le> now cv (os_send ops m w)" and op: "os_state ops (outside c) = Open"
    and p: "wrapped_poll ops (timed_poll tops) (Live (Timed q)) c = (r, t', c')"
  shows "(r = Returned Pending \<longrightarrow> (\<exists>q'. t' = Live (Timed q') \<and> deadline cv q' = deadline cv q) \<and>
      os_state ops (outside c') = Open) \<and>
    (r = Returned (Ready ()) \<longrightarrow> finished c' \<and> (\<exists>res. os_state ops (outside c') = Sent res \<and>
      timeout_result_ok cv (deadline cv q) (outside c') res))"
proof -
  obtain x f1 w1 where u: "timed_poll tops (Timed q) (outside c) = (x, f1, w1)"
    by (cases "timed_poll tops (Timed q) (outside c)")
  note T = timed_poll_time [OF laws(3) u]
  have op1: "os_state ops w1 = Open" using laws(2) u op unfolding frames_channel_def by (metis snd_conv)
  obtain y f' w' where a: "abortable_result ops (timed_poll tops) (Timed q) (outside c) = (y, f', w')"
    by (cases "abortable_result ops (timed_poll tops) (Timed q) (outside c)")
  show ?thesis
  proof (cases y)
    case Pending
    from abortable_pending [OF laws(1) a [unfolded Pending]] u
    have "f' = f1" "w' = w1" "x = Returned Pending" by (simp_all del: timed_poll.simps)
    with Pending a p T op1 show ?thesis by (auto simp del: timed_poll.simps)
  next
    case (Ready res)
    from abortable_result_cases [OF laws(1), where user = "timed_poll tops", OF u] a Ready
    have res: "res = expected_result (ab_requested ops (outside c)) x" and w': "w' = outside c \<or> w' = w1"
      by auto
    from w' op op1 have "os_state ops w' = Open" by auto
    with channel_recv(4) [OF laws(1)] have sent: "os_state ops (os_send ops res w') = Sent res" by blast
    have "timeout_result_ok cv (deadline cv q) (os_send ops res w') res"
    proof (cases "ab_requested ops (outside c)")
      case False
      then have "w' = w1" using abortable_unrequested [OF laws(1) False, where user = "timed_poll tops", OF u a] by blast
      with False res T send show ?thesis
        by (cases "(False, x)" rule: expected_result.cases)
          (auto simp: timeout_result_ok_def intro: le_trans)
    qed (use res in \<open>simp add: timeout_result_ok_def\<close>)
    with Ready a p sent show ?thesis by (auto simp: drop_completion_def)
  qed
qed

lemma timed_wrapped_run:
  assumes laws: "futures_laws ops" "frames_channel ops (timed_poll tops)" "timer_laws tops cv"
    and send: "\<forall>m w. now cv w \<le> now cv (os_send ops m w)" and "\<forall>e\<in>set es. leaves_channel ops cv e"
    and "os_state ops (outside c) = Open" "deadline cv q = t"
    and "wrapped_run ops (timed_poll tops) es (Live (Timed q)) c = (Returned (Ready ()), t', c')"
  shows "finished c' \<and> (\<exists>res. os_state ops (outside c') = Sent res \<and> timeout_result_ok cv t (outside c') res)"
  using assms(5-8)
proof (induction es arbitrary: c q)
  case (Cons e es)
  let ?c = "c\<lparr>outside := e (outside c)\<rparr>"
  have op: "os_state ops (outside ?c) = Open" using Cons.prems(1,2) by (simp add: leaves_channel_def)
  obtain r t1 c1 where p: "wrapped_poll ops (timed_poll tops) (Live (Timed q)) ?c = (r, t1, c1)"
    by (cases "wrapped_poll ops (timed_poll tops) (Live (Timed q)) ?c")
  note P = timed_wrapped_poll [OF laws send op p]
  show ?case
  proof (cases "r = Returned Pending")
    case True
    with P obtain q' where q': "t1 = Live (Timed q')" "deadline cv q' = t" "os_state ops (outside c1) = Open"
      using Cons.prems(3) by auto
    have "wrapped_run ops (timed_poll tops) es (Live (Timed q')) c1 = (Returned (Ready ()), t', c')"
      using Cons.prems(4) p True q'(1) by simp
    from Cons.IH [OF _ q'(3,2) this] Cons.prems(1) show ?thesis by simp
  next
    case False
    with Cons.prems(4) p have "r = Returned (Ready ())" "c1 = c'"
      by (auto split: outcome.splits poll.splits)
    with P Cons.prems(3) show ?thesis by simp
  qed
qed simp


text \<open>A channel, an abort flag and a clock.\<close>

type_synonym alarm = "bool \<times> (timeout_error + nat) join_result channel \<times> nat"

definition alarm_futures ::
  "(nat timed, unit + (timeout_error + nat), (timeout_error + nat) join_result, alarm) futures_ops" where
  "alarm_futures = \<lparr>
     ab_poll = (\<lambda>p f w. if fst w then (Ready (Inl ()), f, w)
       else (case p f w of (Ready r, f', w') \<Rightarrow> (Ready (Inr r), f', w')
             | (Pending, f', w') \<Rightarrow> ((if fst w' then Ready (Inl ()) else Pending), f', w'))),
     ab_request = (\<lambda>w. (True, snd w)), ab_requested = fst,
     os_send = (\<lambda>m w. (fst w, Sent m, snd (snd w))), os_drop = (\<lambda>w. (fst w, Closed, snd (snd w))),
     os_recv = (\<lambda>w. (case fst (snd w) of Open \<Rightarrow> Pending | Sent m \<Rightarrow> Ready (Inr m)
       | Closed \<Rightarrow> Ready (Inl ()), w)),
     os_state = (\<lambda>w. fst (snd w))\<rparr>"

definition alarm_backend ::
  "(unit, unit, unit, unit, unit, bool, timeout_error + nat, alarm cell) task_ops" where
  "alarm_backend = \<lparr>
     tk_poll = (\<lambda>t w. (Pending, t, w)), tk_some = (\<lambda>t. False), tk_is_finished = (\<lambda>t w. True),
     tk_abort = (\<lambda>t w. w), co_poll = (\<lambda>c w. (Pending, c, w)), co_is_finished = (\<lambda>c w. True),
     co_cancel = (\<lambda>c w. ((), w)), co_detach = (\<lambda>c w. w), cx_poll = (\<lambda>x w. (Pending, x, w)),
     sm_poll = (\<lambda>s w. (Pending, s, w)), sm_some = (\<lambda>s. False), sm_is_finished = (\<lambda>s w. True),
     sm_detach = (\<lambda>s w. w), ab_abort = (\<lambda>b c. c\<lparr>outside := ab_request alarm_futures (outside c)\<rparr>),
     cu_poll = (\<lambda>p c. if p then
       (case os_recv alarm_futures (outside c) of
          (Ready x, w) \<Rightarrow> (Ready x, False, c\<lparr>outside := w\<rparr>)
        | (Pending, w) \<Rightarrow> (Pending, True, c\<lparr>outside := w\<rparr>)) else (Pending, p, c)),
     cu_none = (\<lambda>p. \<not> p), flag_set = (\<lambda>n c. finished c)\<rparr>"

definition alarm_timer :: "(unit, nat, nat, alarm) timeout_ops" where
  "alarm_timer = \<lparr>to_from_future = (\<lambda>f d w. (snd (snd w) + d, w)),
     to_poll = (\<lambda>q w. (if q \<le> snd (snd w) then Returned (Ready (Inl ())) else Returned Pending, q, w))\<rparr>"

definition alarm_view :: "(nat, alarm) clock_view" where
  "alarm_view = \<lparr>now = (\<lambda>w. snd (snd w)), deadline = (\<lambda>q. q), polled_at = (\<lambda>w. [])\<rparr>"

definition alarm_wait :: "nat \<Rightarrow> alarm \<Rightarrow> alarm" where
  "alarm_wait n w = (fst w, fst (snd w), snd (snd w) + n)"

lemma alarm_laws:
  "futures_laws alarm_futures" "frames_channel alarm_futures (timed_poll alarm_timer)"
  "timer_laws alarm_timer alarm_view" "handle_linked alarm_backend alarm_futures () 0"
  "\<forall>m w. now alarm_view w \<le> now alarm_view (os_send alarm_futures m w)"
  "\<forall>e\<in>set [alarm_wait 1, alarm_wait 2]. leaves_channel alarm_futures alarm_view e"
proof -
  show "futures_laws alarm_futures" by (auto simp: futures_laws_def alarm_futures_def)
  have "os_state alarm_futures (snd (snd (timed_poll alarm_timer f w))) = os_state alarm_futures w" for f w
    by (cases f) (simp_all add: alarm_timer_def)
  then show "frames_channel alarm_futures (timed_poll alarm_timer)" by (simp add: frames_channel_def)
  show "timer_laws alarm_timer alarm_view" by (auto simp: timer_laws_def alarm_timer_def alarm_view_def)
  show "handle_linked alarm_backend alarm_futures () 0"
    by (auto simp: handle_linked_def alarm_backend_def split: poll.splits)
  show "\<forall>m w. now alarm_view w \<le> now alarm_view (os_send alarm_futures m w)"
    by (simp add: alarm_view_def alarm_futures_def)
  show "\<forall>e\<in>set [alarm_wait 1, alarm_wait 2]. leaves_channel alarm_futures alarm_view e"
    by (simp add: leaves_channel_def alarm_view_def alarm_futures_def alarm_wait_def)
qed


end
