(* ===== verification/Scoped.thy ===== *)
theory Scoped
  imports Spawned_Task Lite
begin

text \<open>
  \<open>scope\<close> of \<open>src/src/scoped.rs\<close>: the inbox of a scope, \<open>drive_scope\<close>, the future of \<open>scope\<close> as the
  state machine that its \<open>poll_fn\<close>s make, and the tasks and handles of \<open>Scope::spawn\<close>. The set of
  active tasks (\<open>FuturesUnordered\<close>) is a type with operations and laws. A context is a number, as for
  the lite runtime.
\<close>

section \<open>State\<close>

text \<open>
  \<open>ScopeState\<close>; \<open>alive\<close> says whether the weak reference of the \<open>Scope\<close> still upgrades, \<open>contexts\<close>
  lists the contexts that were woken, \<open>around\<close> is everything else.
\<close>

record ('t, 'aw, 'u) scope_state =
  inbox :: "'t list"
  scope_waker :: 'aw
  alive :: bool
  contexts :: "nat list"
  around :: 'u

definition scope_state_new :: "'aw \<Rightarrow> 'u \<Rightarrow> ('t, 'aw, 'u) scope_state" where
  "scope_state_new aw u = \<lparr>inbox = [], scope_waker = aw, alive = True, contexts = [], around = u\<rparr>"

definition scope_register ::
  "'aw waker_ops \<Rightarrow> nat \<Rightarrow> ('t, 'aw, 'u) scope_state \<Rightarrow> ('t, 'aw, 'u) scope_state" where
  "scope_register wops ctx s = s\<lparr>scope_waker := aw_register wops ctx (scope_waker s)\<rparr>"

text \<open>
  \<open>Scope::push\<close>: the task goes to the inbox and the driver is woken; when the scope is gone, the task is
  dropped.
\<close>

definition scope_push ::
  "'aw waker_ops \<Rightarrow> ('t \<Rightarrow> 'u \<Rightarrow> 'u) \<Rightarrow> 't \<Rightarrow> ('t, 'aw, 'u) scope_state \<Rightarrow> ('t, 'aw, 'u) scope_state" where
  "scope_push wops drop_task t s =
     (if alive s then
        (case aw_wake wops (scope_waker s) of
           (ctx, aw) \<Rightarrow> s\<lparr>inbox := inbox s @ [t], scope_waker := aw,
             contexts := contexts s @ (case ctx of None \<Rightarrow> [] | Some c \<Rightarrow> [c])\<rparr>)
      else s\<lparr>around := drop_task t (around s)\<rparr>)"

text \<open>
  \<open>FuturesUnordered\<close>: empty, \<open>extend\<close>, and \<open>poll_next\<close>, which polls tasks and so runs user code: it
  answers that one task finished, that there are none, or that none can finish now.
\<close>

record ('a, 't, 's) unordered_ops =
  fu_empty :: 'a
  fu_extend :: "'t list \<Rightarrow> 'a \<Rightarrow> 'a"
  fu_poll :: "nat \<Rightarrow> 'a \<Rightarrow> 's \<Rightarrow> unit option poll \<times> 'a \<times> 's"

section \<open>The driver\<close>

text \<open>One absorption of the inbox and one \<open>poll_next\<close>.\<close>

definition absorb ::
  "'aw waker_ops \<Rightarrow> ('a, 't, ('t, 'aw, 'u) scope_state) unordered_ops \<Rightarrow> nat \<Rightarrow> 'a \<Rightarrow>
   ('t, 'aw, 'u) scope_state \<Rightarrow> unit option poll \<times> 'a \<times> ('t, 'aw, 'u) scope_state" where
  "absorb wops fops ctx active s0 =
     (let s = scope_register wops ctx s0
      in fu_poll fops ctx (fu_extend fops (inbox s) active) (s\<lparr>inbox := []\<rparr>))"

text \<open>\<open>drive_scope\<close>; the first argument of the loop is \<open>made_progress\<close>.\<close>

partial_function (option) drive_loop ::
  "'aw waker_ops \<Rightarrow> ('a, 't, ('t, 'aw, 'u) scope_state) unordered_ops \<Rightarrow> nat \<Rightarrow> bool \<Rightarrow> 'a \<Rightarrow>
   ('t, 'aw, 'u) scope_state \<Rightarrow> ((bool \<times> bool) \<times> 'a \<times> ('t, 'aw, 'u) scope_state) option" where
  "drive_loop wops fops ctx made active s0 =
     (case absorb wops fops ctx active s0 of
        (Ready (Some u), a, s) \<Rightarrow> drive_loop wops fops ctx True a s
      | (Ready None, a, s) \<Rightarrow>
          (let s' = scope_register wops ctx s
           in if inbox s' = [] then Some ((made, True), a, s') else drive_loop wops fops ctx made a s')
      | (Pending, a, s) \<Rightarrow>
          (let s' = scope_register wops ctx s
           in if inbox s' = [] then Some ((made, False), a, s') else drive_loop wops fops ctx made a s'))"

definition drive_scope ::
  "'aw waker_ops \<Rightarrow> ('a, 't, ('t, 'aw, 'u) scope_state) unordered_ops \<Rightarrow> nat \<Rightarrow> 'a \<Rightarrow>
   ('t, 'aw, 'u) scope_state \<Rightarrow> ((bool \<times> bool) \<times> 'a \<times> ('t, 'aw, 'u) scope_state) option" where
  "drive_scope wops fops ctx active s = drive_loop wops fops ctx False active s"

section \<open>The scope\<close>

text \<open>The user future's poll may unwind and may push tasks.\<close>

type_synonym ('f, 'r, 's) user_future = "nat \<Rightarrow> 'f \<Rightarrow> 's \<Rightarrow> 'r poll outcome \<times> 'f \<times> 's"

text \<open>The first \<open>poll_fn\<close>: poll the user future, then drive, for as long as tasks finish.\<close>

partial_function (option) user_loop ::
  "('f, 'r, ('t, 'aw, 'u) scope_state) user_future \<Rightarrow> 'aw waker_ops \<Rightarrow>
   ('a, 't, ('t, 'aw, 'u) scope_state) unordered_ops \<Rightarrow> nat \<Rightarrow> 'f \<Rightarrow> 'a \<Rightarrow> ('t, 'aw, 'u) scope_state \<Rightarrow>
   ('r poll outcome \<times> 'f \<times> 'a \<times> ('t, 'aw, 'u) scope_state) option" where
  "user_loop user wops fops ctx f active s =
     (case user ctx f s of
        (Unwound, f', s') \<Rightarrow> Some (Unwound, f', active, s')
      | (Returned (Ready r), f', s') \<Rightarrow> Some (Returned (Ready r), f', active, s')
      | (Returned Pending, f', s') \<Rightarrow>
          Option.bind (drive_scope wops fops ctx active s')
            (\<lambda>((made, none_left), a, s''). if made then user_loop user wops fops ctx f' a s''
               else Some (Returned Pending, f', a, s'')))"

datatype ('f, 'r, 'a) scope_future = Running 'f 'a | Draining 'r 'a | ScopeOver

text \<open>\<open>state\<close> and its queued tasks go when the frame of \<open>scope\<close> goes.\<close>

definition scope_leave :: "('t, 'aw, 'u) scope_state \<Rightarrow> ('t, 'aw, 'u) scope_state" where
  "scope_leave s = s\<lparr>inbox := [], alive := False\<rparr>"

text \<open>The second \<open>poll_fn\<close>: drive until the set is empty.\<close>

definition drain_poll ::
  "'aw waker_ops \<Rightarrow> ('a, 't, ('t, 'aw, 'u) scope_state) unordered_ops \<Rightarrow> nat \<Rightarrow> 'r \<Rightarrow> 'a \<Rightarrow>
   ('t, 'aw, 'u) scope_state \<Rightarrow>
   ('r poll outcome \<times> ('f, 'r, 'a) scope_future \<times> ('t, 'aw, 'u) scope_state) option" where
  "drain_poll wops fops ctx r active s =
     Option.bind (drive_scope wops fops ctx active s)
       (\<lambda>((made, none_left), a, s'). Some
          (if none_left then (Returned (Ready r), ScopeOver, scope_leave s')
           else (Returned Pending, Draining r a, s')))"

text \<open>
  A poll of \<open>scope(f)\<close>. A panic of the user future unwinds the frame: the active tasks and the inbox
  are dropped.
\<close>

fun scope_poll ::
  "('f, 'r, ('t, 'aw, 'u) scope_state) user_future \<Rightarrow> 'aw waker_ops \<Rightarrow>
   ('a, 't, ('t, 'aw, 'u) scope_state) unordered_ops \<Rightarrow> nat \<Rightarrow> ('f, 'r, 'a) scope_future \<Rightarrow>
   ('t, 'aw, 'u) scope_state \<Rightarrow>
   ('r poll outcome \<times> ('f, 'r, 'a) scope_future \<times> ('t, 'aw, 'u) scope_state) option" where
  "scope_poll user wops fops ctx (Running f active) s =
     (case user_loop user wops fops ctx f active s of
        None \<Rightarrow> None
      | Some (Unwound, f', a, s') \<Rightarrow> Some (Unwound, ScopeOver, scope_leave s')
      | Some (Returned Pending, f', a, s') \<Rightarrow> Some (Returned Pending, Running f' a, s')
      | Some (Returned (Ready r), f', a, s') \<Rightarrow> drain_poll wops fops ctx r a s')"
| "scope_poll user wops fops ctx (Draining r active) s = drain_poll wops fops ctx r active s"
| "scope_poll user wops fops ctx ScopeOver s = Some (Unwound, ScopeOver, s)"

definition scope_new ::
  "('a, 't, 's) unordered_ops \<Rightarrow> 'f \<Rightarrow> ('f, 'r, 'a) scope_future" where
  "scope_new fops f = Running f (fu_empty fops)"

text \<open>Polls of a scope, one per context, up to the first that is not pending.\<close>

fun scope_run ::
  "('f, 'r, ('t, 'aw, 'u) scope_state) user_future \<Rightarrow> 'aw waker_ops \<Rightarrow>
   ('a, 't, ('t, 'aw, 'u) scope_state) unordered_ops \<Rightarrow> nat list \<Rightarrow> ('f, 'r, 'a) scope_future \<Rightarrow>
   ('t, 'aw, 'u) scope_state \<Rightarrow> ('r poll outcome \<times> ('t, 'aw, 'u) scope_state) option" where
  "scope_run user wops fops [] fut s = Some (Returned Pending, s)"
| "scope_run user wops fops (ctx # ctxs) fut s =
     (case scope_poll user wops fops ctx fut s of
        None \<Rightarrow> None
      | Some (Returned Pending, fut', s') \<Rightarrow> scope_run user wops fops ctxs fut' s'
      | Some (r, fut', s') \<Rightarrow> Some (r, s'))"

section \<open>Tasks of a scope\<close>

text \<open>
  \<open>Scope::spawn\<close>: the future's panic becomes \<open>JoinError::Panicked\<close>, the result is sent.
\<close>

fun scoped_task_poll ::
  "('f, 'r, 'a join_result, 'w) futures_ops \<Rightarrow> ('f, 'a, 'w) user_poll \<Rightarrow> 'f wrapped \<Rightarrow> 'w \<Rightarrow>
   unit poll outcome \<times> 'f wrapped \<times> 'w" where
  "scoped_task_poll ops user (Live f) w =
     (case catch_unwind user f w of
        (Pending, f', w') \<Rightarrow> (Returned Pending, Live f', w')
      | (Ready r, f', w') \<Rightarrow>
          (Returned (Ready ()), Over, os_send ops (map_sum (\<lambda>u. Panicked) id r) w'))"
| "scoped_task_poll ops user Over w = (Unwound, Over, w)"

fun scoped_task_drop :: "('f, 'r, 'a join_result, 'w) futures_ops \<Rightarrow> 'f wrapped \<Rightarrow> 'w \<Rightarrow> 'w" where
  "scoped_task_drop ops (Live f) w = os_drop ops w"
| "scoped_task_drop ops Over w = w"

text \<open>The task is polled until it completes, a given number of times at most.\<close>

fun scoped_task_polls ::
  "('f, 'r, 'a join_result, 'w) futures_ops \<Rightarrow> ('f, 'a, 'w) user_poll \<Rightarrow> nat \<Rightarrow> 'f wrapped \<Rightarrow> 'w \<Rightarrow>
   'f wrapped \<times> 'w" where
  "scoped_task_polls ops user (Suc n) (Live f) w =
     (case scoped_task_poll ops user (Live f) w of (r, t, w') \<Rightarrow> scoped_task_polls ops user n t w')"
| "scoped_task_polls ops user n t w = (t, w)"

definition scoped_spawn ::
  "('f, 'r, 'a join_result, 'w) futures_ops \<Rightarrow> 'aw waker_ops \<Rightarrow> 'f \<Rightarrow>
   ('f wrapped, 'aw, 'w) scope_state \<Rightarrow> ('f wrapped, 'aw, 'w) scope_state" where
  "scoped_spawn ops wops f s = scope_push wops (scoped_task_drop ops) (Live f) s"

definition scoped_handle_poll ::
  "('f, 'r, 'a join_result, 'w) futures_ops \<Rightarrow> 'w \<Rightarrow> 'a join_result poll \<times> 'w" where
  "scoped_handle_poll ops w =
     (case os_recv ops w of
        (Ready (Inr r), w') \<Rightarrow> (Ready r, w')
      | (Ready (Inl u), w') \<Rightarrow> (Ready (Inl Cancelled), w')
      | (Pending, w') \<Rightarrow> (Pending, w'))"

section \<open>Accounts\<close>

text \<open>
  How tasks are told apart: the names of the members of a set and of a task, the tasks spawned and
  finished so far (part of what is around), and a bound on the spawns and completions to come.
\<close>

record ('a, 't, 'n, 'u) account =
  names :: "'a \<Rightarrow> 'n multiset"
  name_of :: "'t \<Rightarrow> 'n"
  born :: "'u \<Rightarrow> 'n multiset"
  gone :: "'u \<Rightarrow> 'n multiset"
  fuel :: "'u \<Rightarrow> nat"

text \<open>User code that did nothing to the scope but push tasks.\<close>

definition pushes ::
  "('a, 't, 'n, 'u) account \<Rightarrow> ('t, 'aw, 'u) scope_state \<Rightarrow> ('t, 'aw, 'u) scope_state \<Rightarrow> bool" where
  "pushes ac s s' \<longleftrightarrow>
     alive s' = alive s \<and>
     (\<exists>ts. inbox s' = inbox s @ ts \<and>
        born ac (around s') = born ac (around s) + mset (map (name_of ac) ts) \<and>
        fuel ac (around s') + length ts \<le> fuel ac (around s))"

definition user_laws ::
  "('a, 't, 'n, 'u) account \<Rightarrow> ('f, 'r, ('t, 'aw, 'u) scope_state) user_future \<Rightarrow> bool" where
  "user_laws ac user \<longleftrightarrow>
     (\<forall>ctx f s r f' s'. user ctx f s = (r, f', s') \<longrightarrow>
        pushes ac s s' \<and> gone ac (around s') = gone ac (around s))"

text \<open>
  \<open>FuturesUnordered\<close>: what is put in stays in until it finishes; a poll removes the one task that
  finished; only the empty set answers that there are none.
\<close>

definition unordered_laws ::
  "('a, 't, 'n, 'u) account \<Rightarrow> ('a, 't, ('t, 'aw, 'u) scope_state) unordered_ops \<Rightarrow> bool" where
  "unordered_laws ac fops \<longleftrightarrow>
     names ac (fu_empty fops) = {#} \<and>
     (\<forall>ts a. names ac (fu_extend fops ts a) = names ac a + mset (map (name_of ac) ts)) \<and>
     (\<forall>ctx a s a' s'. fu_poll fops ctx a s = (Ready None, a', s') \<longrightarrow>
        names ac a = {#} \<and> names ac a' = {#} \<and> s' = s) \<and>
     (\<forall>ctx a s u a' s'. fu_poll fops ctx a s = (Ready (Some u), a', s') \<longrightarrow>
        (\<exists>n. names ac a = add_mset n (names ac a') \<and>
           gone ac (around s') = add_mset n (gone ac (around s))) \<and>
        pushes ac s s' \<and> fuel ac (around s') < fuel ac (around s)) \<and>
     (\<forall>ctx a s a' s'. fu_poll fops ctx a s = (Pending, a', s') \<longrightarrow>
        names ac a \<noteq> {#} \<and> names ac a' = names ac a \<and> gone ac (around s') = gone ac (around s) \<and>
        pushes ac s s')"

text \<open>Every task spawned has finished, is active, or is in the inbox.\<close>

definition ledger :: "('a, 't, 'n, 'u) account \<Rightarrow> 'a \<Rightarrow> ('t, 'aw, 'u) scope_state \<Rightarrow> bool" where
  "ledger ac a s \<longleftrightarrow>
     born ac (around s) = gone ac (around s) + names ac a + mset (map (name_of ac) (inbox s))"

lemma scope_register_fields [simp]:
  "inbox (scope_register wops ctx s) = inbox s"
  "around (scope_register wops ctx s) = around s"
  "alive (scope_register wops ctx s) = alive s"
  by (simp_all add: scope_register_def)

lemma ledger_register [simp]: "ledger ac a (scope_register wops ctx s) = ledger ac a s"
  by (simp add: ledger_def)

lemma pushes_ledger:
  "pushes ac s s' \<Longrightarrow> gone ac (around s') = gone ac (around s) \<Longrightarrow> ledger ac a s \<Longrightarrow> ledger ac a s'"
  by (auto simp: pushes_def ledger_def ac_simps)

lemma unordered_none:
  "unordered_laws ac fops \<Longrightarrow> fu_poll fops ctx a s = (Ready None, a', s') \<Longrightarrow>
   names ac a = {#} \<and> names ac a' = {#} \<and> s' = s"
  unfolding unordered_laws_def by (elim conjE) metis

lemma unordered_some:
  "unordered_laws ac fops \<Longrightarrow> fu_poll fops ctx a s = (Ready (Some u), a', s') \<Longrightarrow>
   (\<exists>n. names ac a = add_mset n (names ac a') \<and> gone ac (around s') = add_mset n (gone ac (around s))) \<and>
   pushes ac s s' \<and> fuel ac (around s') < fuel ac (around s)"
  unfolding unordered_laws_def by (elim conjE) metis

lemma unordered_pending:
  "unordered_laws ac fops \<Longrightarrow> fu_poll fops ctx a s = (Pending, a', s') \<Longrightarrow>
   names ac a \<noteq> {#} \<and> names ac a' = names ac a \<and> gone ac (around s') = gone ac (around s) \<and> pushes ac s s'"
  unfolding unordered_laws_def by (elim conjE) metis

lemma unordered_extend:
  "unordered_laws ac fops \<Longrightarrow>
   names ac (fu_extend fops ts a) = names ac a + mset (map (name_of ac) ts)"
  by (simp add: unordered_laws_def)

text \<open>One absorption keeps the ledger and pays for what it does.\<close>

lemma absorb_ledger:
  assumes laws: "unordered_laws ac fops" and "ledger ac a s"
    and "absorb wops fops ctx a s = (r, a', s')"
  shows "ledger ac a' s'" and "alive s' = alive s"
    and "r = Ready None \<Longrightarrow> inbox s' = [] \<and> names ac a' = {#} \<and> around s' = around s"
    and "r = Ready (Some u) \<Longrightarrow> fuel ac (around s') < fuel ac (around s)"
    and "r = Pending \<Longrightarrow> names ac a' \<noteq> {#} \<and> fuel ac (around s') + length (inbox s') \<le> fuel ac (around s)"
proof -
  let ?a1 = "fu_extend fops (inbox s) a"
  let ?s1 = "(scope_register wops ctx s)\<lparr>inbox := []\<rparr>"
  from assms(3) have p: "fu_poll fops ctx ?a1 ?s1 = (r, a', s')" by (simp add: absorb_def Let_def)
  have led: "ledger ac ?a1 ?s1"
    using assms(2) unordered_extend [OF laws, of "inbox s" a] by (simp add: ledger_def ac_simps)
  show "alive s' = alive s"
  proof (cases r)
    case Pending
    with unordered_pending [OF laws p [unfolded Pending]] show ?thesis by (simp add: pushes_def)
  next
    case (Ready x)
    with unordered_none [OF laws, of ctx ?a1 ?s1 a' s'] unordered_some [OF laws, of ctx ?a1 ?s1 _ a' s'] p
    show ?thesis by (cases x) (auto simp: pushes_def)
  qed
  show "r = Ready None \<Longrightarrow> inbox s' = [] \<and> names ac a' = {#} \<and> around s' = around s"
    using unordered_none [OF laws, of ctx ?a1 ?s1 a' s'] p by simp
  show "r = Ready (Some u) \<Longrightarrow> fuel ac (around s') < fuel ac (around s)"
    using unordered_some [OF laws, of ctx ?a1 ?s1 u a' s'] p by simp
  show "r = Pending \<Longrightarrow> names ac a' \<noteq> {#} \<and> fuel ac (around s') + length (inbox s') \<le> fuel ac (around s)"
    using unordered_pending [OF laws, of ctx ?a1 ?s1 a' s'] p by (auto simp: pushes_def)
  show "ledger ac a' s'"
  proof (cases r)
    case Pending
    with unordered_pending [OF laws p [unfolded Pending]] pushes_ledger [OF _ _ led, of s']
    show ?thesis by (auto simp: ledger_def)
  next
    case (Ready x)
    show ?thesis
    proof (cases x)
      case None
      with unordered_none [OF laws p [unfolded Ready None]] led show ?thesis by (simp add: ledger_def)
    next
      case (Some u)
      with unordered_some [OF laws p [unfolded Ready Some]] led show ?thesis
        by (auto simp: ledger_def pushes_def ac_simps)
    qed
  qed
qed

text \<open>What holds when the driver stops: nothing is queued and this context is the one to be woken.\<close>

definition settled ::
  "'aw waker_ops \<Rightarrow> nat \<Rightarrow> ('t, 'aw, 'u) scope_state \<Rightarrow> bool" where
  "settled wops ctx s \<longleftrightarrow> inbox s = [] \<and> (\<exists>aw. scope_waker s = aw_register wops ctx aw)"

lemma settled_register: "inbox s = [] \<Longrightarrow> settled wops ctx (scope_register wops ctx s)"
  by (auto simp: settled_def scope_register_def)

lemma drive_loop_ledger:
  assumes "unordered_laws ac fops" and "ledger ac a s"
  shows "\<exists>made' none_left a' s'. drive_loop wops fops ctx made a s = Some ((made', none_left), a', s') \<and>
    ledger ac a' s' \<and> settled wops ctx s' \<and> (none_left \<longleftrightarrow> names ac a' = {#}) \<and>
    alive s' = alive s \<and> fuel ac (around s') \<le> fuel ac (around s) \<and>
    (made' \<longrightarrow> made \<or> fuel ac (around s') < fuel ac (around s))"
  using assms(2)
proof (induction "fuel ac (around s)" arbitrary: made a s rule: less_induct)
  case less
  obtain r a1 s1 where ab: "absorb wops fops ctx a s = (r, a1, s1)"
    by (cases "absorb wops fops ctx a s")
  note A = absorb_ledger [OF assms(1) less.prems ab]
  let ?s = "scope_register wops ctx s1"
  show ?case
  proof (cases r)
    case Pending
    show ?thesis
    proof (cases "inbox s1 = []")
      case True
      with ab Pending A(1,2) A(5) [OF Pending] settled_register [OF True] show ?thesis
        by (subst drive_loop.simps) (auto simp: Let_def)
    next
      case False
      with A(5) [OF Pending] have lt: "fuel ac (around ?s) < fuel ac (around s)"
        by (cases "inbox s1") auto
      have "drive_loop wops fops ctx made a s = drive_loop wops fops ctx made a1 ?s"
        using ab Pending False by (subst drive_loop.simps) (simp add: Let_def)
      with less.hyps [OF lt, of a1 made] A(1,2) lt show ?thesis by fastforce
    qed
  next
    case (Ready x)
    show ?thesis
    proof (cases x)
      case None
      with A(3) Ready have "inbox s1 = []" by simp
      with ab Ready None A(1,2,3) settled_register [OF this] show ?thesis
        by (subst drive_loop.simps) (auto simp: Let_def)
    next
      case (Some u)
      with A(4) Ready have lt: "fuel ac (around s1) < fuel ac (around s)" by simp
      have "drive_loop wops fops ctx made a s = drive_loop wops fops ctx True a1 s1"
        using ab Ready Some by (subst drive_loop.simps) simp
      with less.hyps [OF lt A(1), of True] lt A(2) show ?thesis by fastforce
    qed
  qed
qed

lemma drive_scope_ledger:
  assumes "unordered_laws ac fops" and "ledger ac a s"
  obtains made none_left a' s' where
    "drive_scope wops fops ctx a s = Some ((made, none_left), a', s')"
    "ledger ac a' s'" "settled wops ctx s'" "none_left \<longleftrightarrow> names ac a' = {#}" "alive s' = alive s"
    "fuel ac (around s') \<le> fuel ac (around s)" "made \<Longrightarrow> fuel ac (around s') < fuel ac (around s)"
  using drive_loop_ledger [OF assms, of wops ctx False] unfolding drive_scope_def by blast

lemma user_ledger:
  assumes "user_laws ac user" and "user ctx f s = (r, f', s')" and "ledger ac a s"
  shows "ledger ac a s'" "alive s' = alive s" "fuel ac (around s') \<le> fuel ac (around s)"
proof -
  from assms(1,2) have p: "pushes ac s s'" "gone ac (around s') = gone ac (around s)"
    unfolding user_laws_def by blast+
  with pushes_ledger [OF p assms(3)] show "ledger ac a s'" "alive s' = alive s"
      "fuel ac (around s') \<le> fuel ac (around s)"
    by (auto simp: pushes_def)
qed

lemma user_loop_ledger:
  assumes laws: "user_laws ac user" "unordered_laws ac fops" and "ledger ac a s"
  shows "\<exists>r f' a' s'. user_loop user wops fops ctx f a s = Some (r, f', a', s') \<and>
    ledger ac a' s' \<and> alive s' = alive s \<and> (r = Returned Pending \<longrightarrow> settled wops ctx s')"
  using assms(3)
proof (induction "fuel ac (around s)" arbitrary: f a s rule: less_induct)
  case less
  obtain r f1 s1 where u: "user ctx f s = (r, f1, s1)" by (cases "user ctx f s")
  note U = user_ledger [OF laws(1) u less.prems]
  show ?case
  proof (cases "r = Returned Pending")
    case False
    with u U show ?thesis
      by (subst user_loop.simps) (auto split: outcome.splits poll.splits)
  next
    case True
    obtain made none_left a2 s2 where
      d: "drive_scope wops fops ctx a s1 = Some ((made, none_left), a2, s2)" and
      D: "ledger ac a2 s2" "settled wops ctx s2" "alive s2 = alive s1"
        "fuel ac (around s2) \<le> fuel ac (around s1)" "made \<Longrightarrow> fuel ac (around s2) < fuel ac (around s1)"
      by (rule drive_scope_ledger [OF laws(2) U(1)]) blast
    have step: "user_loop user wops fops ctx f a s =
        (if made then user_loop user wops fops ctx f1 a2 s2 else Some (Returned Pending, f1, a2, s2))"
      using u True d by (subst user_loop.simps) simp
    show ?thesis
    proof (cases made)
      case True
      with D(5) U(3) have lt: "fuel ac (around s2) < fuel ac (around s)" by simp
      from less.hyps [OF lt D(1), of f1] step True D(3) U(2) show ?thesis by auto
    qed (use step D U in auto)
  qed
qed

text \<open>The active set of a scope's future.\<close>

fun active_set :: "('f, 'r, 'a) scope_future \<Rightarrow> 'a option" where
  "active_set (Running f a) = Some a"
| "active_set (Draining r a) = Some a"
| "active_set ScopeOver = None"

text \<open>
  One poll returns; pending, it keeps the ledger and is settled; with a result, every task spawned
  has finished.
\<close>

lemma drain_poll_ledger:
  assumes "unordered_laws ac fops" and "ledger ac a s"
  obtains
    (waiting) a' s' where "drain_poll wops fops ctx r a s = Some (Returned Pending, Draining r a', s')"
      "ledger ac a' s'" "settled wops ctx s'" "alive s' = alive s"
  | (joined) s' where "drain_poll wops fops ctx r a s = Some (Returned (Ready r), ScopeOver, s')"
      "born ac (around s') = gone ac (around s')" "inbox s' = []"
proof -
  obtain made none_left a2 s2 where
    d: "drive_scope wops fops ctx a s = Some ((made, none_left), a2, s2)" and
    D: "ledger ac a2 s2" "settled wops ctx s2" "none_left \<longleftrightarrow> names ac a2 = {#}" "alive s2 = alive s"
    by (rule drive_scope_ledger [OF assms]) blast
  show thesis
  proof (cases none_left)
    case True
    with d D show thesis
      by (intro joined [of "scope_leave s2"]) (auto simp: drain_poll_def scope_leave_def ledger_def settled_def)
  next
    case False
    with d D show thesis by (intro waiting [of a2 s2]) (simp_all add: drain_poll_def)
  qed
qed

lemma scope_poll_ledger:
  assumes laws: "user_laws ac user" "unordered_laws ac fops"
    and "active_set fut = Some a" and "ledger ac a s"
  obtains
    (waiting) fut' a' s' where "scope_poll user wops fops ctx fut s = Some (Returned Pending, fut', s')"
      "active_set fut' = Some a'" "ledger ac a' s'" "settled wops ctx s'" "alive s' = alive s"
  | (joined) r s' where "scope_poll user wops fops ctx fut s = Some (Returned (Ready r), ScopeOver, s')"
      "born ac (around s') = gone ac (around s')" "inbox s' = []"
  | (panicked) s' where "scope_poll user wops fops ctx fut s = Some (Unwound, ScopeOver, s')"
      "inbox s' = []" "\<not> alive s'"
proof (cases fut)
  case (Running f a0)
  with assms(3) have "a0 = a" by simp
  obtain r f1 a1 s1 where
    l: "user_loop user wops fops ctx f a s = Some (r, f1, a1, s1)" and
    L: "ledger ac a1 s1" "alive s1 = alive s" "r = Returned Pending \<longrightarrow> settled wops ctx s1"
    using user_loop_ledger [OF laws assms(4)] by blast
  consider "r = Unwound" | "r = Returned Pending" | x where "r = Returned (Ready x)"
    by (metis outcome.exhaust poll.exhaust)
  then show thesis
  proof cases
    case 1
    with l Running \<open>a0 = a\<close> show thesis by (intro panicked [of "scope_leave s1"]) (simp_all add: scope_leave_def)
  next
    case 2
    with l L Running \<open>a0 = a\<close> show thesis by (intro waiting [of "Running f1 a1" s1 a1]) simp_all
  next
    case (3 x)
    with l Running \<open>a0 = a\<close> have "scope_poll user wops fops ctx fut s = drain_poll wops fops ctx x a1 s1"
      by simp
    with drain_poll_ledger [OF laws(2) L(1), of wops ctx x] L(2) waiting joined show thesis
      by (metis active_set.simps(2))
  qed
next
  case (Draining r a0)
  with assms(3) have "scope_poll user wops fops ctx fut s = drain_poll wops fops ctx r a s" by simp
  with drain_poll_ledger [OF laws(2) assms(4), of wops ctx r] waiting joined show thesis
    by (metis active_set.simps(2))
qed (use assms in simp)

text \<open>The same along the polls of a run.\<close>

lemma scope_run_ledger:
  assumes laws: "user_laws ac user" "unordered_laws ac fops"
    and "active_set fut = Some a" and "ledger ac a s"
  shows "\<exists>o' s'. scope_run user wops fops ctxs fut s = Some (o', s') \<and>
    (\<forall>r. o' = Returned (Ready r) \<longrightarrow> born ac (around s') = gone ac (around s') \<and> inbox s' = []) \<and>
    (o' = Returned Pending \<longrightarrow> ctxs \<noteq> [] \<longrightarrow> settled wops (last ctxs) s' \<and> alive s' = alive s) \<and>
    (o' = Unwound \<longrightarrow> inbox s' = [] \<and> \<not> alive s')"
  using assms(3,4)
proof (induction ctxs arbitrary: fut a s)
  case (Cons ctx ctxs)
  show ?case
  proof (cases rule: scope_poll_ledger [OF laws Cons.prems, of wops ctx, case_names waiting joined panicked])
    case (waiting fut' a' s')
    with Cons.IH [OF waiting(2,3)] show ?thesis by (cases "ctxs = []") auto
  qed auto
qed simp

lemma ledger_new:
  "unordered_laws ac fops \<Longrightarrow> born ac u = gone ac u \<Longrightarrow> ledger ac (fu_empty fops) (scope_state_new aw u)"
  by (simp add: ledger_def scope_state_new_def unordered_laws_def)

section \<open>Properties\<close>


text \<open>
  A scope that is pending after its polls has its last context registered: the next task pushed is
  queued and wakes that context, so no task that is spawned from outside is left behind.
\<close>

theorem scope_push_wakes:
  assumes "user_laws ac user" and "unordered_laws ac fops" and "born ac u = gone ac u"
    and "waker_laws wops"
    and "scope_run user wops fops (ctxs @ [ctx]) (scope_new fops f) (scope_state_new aw u) =
      Some (Returned Pending, s)"
  shows "inbox (scope_push wops dt t s) = [t] \<and> contexts (scope_push wops dt t s) = contexts s @ [ctx]"
proof -
  have "settled wops ctx s \<and> alive s"
    using scope_run_ledger [OF assms(1,2) _ ledger_new [OF assms(2,3), of aw], where fut = "scope_new fops f" and
        wops = wops and ctxs = "ctxs @ [ctx]"] assms(5)
    by (auto simp: scope_new_def scope_state_new_def)
  then obtain aw' where "scope_waker s = aw_register wops ctx aw'" "inbox s = []" "alive s"
    by (auto simp: settled_def)
  moreover have "fst (aw_wake wops (aw_register wops ctx aw')) = Some ctx"
    using assms(4) by (simp add: waker_laws_def)
  ultimately show ?thesis
    by (cases "aw_wake wops (aw_register wops ctx aw')") (simp add: scope_push_def)
qed

text \<open>The future itself, polled as often, and what its handle is to answer after that.\<close>

fun bare_polls :: "('f, 'a, 'w) user_poll \<Rightarrow> nat \<Rightarrow> 'f \<Rightarrow> 'w \<Rightarrow> 'a poll outcome" where
  "bare_polls user 0 f w = Returned Pending"
| "bare_polls user (Suc n) f w =
     (case user f w of
        (Returned Pending, f', w') \<Rightarrow> bare_polls user n f' w'
      | (r, f', w') \<Rightarrow> r)"

fun scoped_answer :: "'a poll outcome \<Rightarrow> 'a join_result poll" where
  "scoped_answer Unwound = Ready (Inl Panicked)"
| "scoped_answer (Returned (Ready v)) = Ready (Inr v)"
| "scoped_answer (Returned Pending) = Pending"

lemma scoped_handle_states:
  assumes "futures_laws ops"
  shows "os_state ops w = Open \<Longrightarrow> fst (scoped_handle_poll ops w) = Pending"
    and "os_state ops w = Sent m \<Longrightarrow> fst (scoped_handle_poll ops w) = Ready m"
    and "os_state ops w = Closed \<Longrightarrow> fst (scoped_handle_poll ops w) = Ready (Inl Cancelled)"
  using channel_recv(1-3) [OF assms, of w] by (auto simp: scoped_handle_poll_def)

text \<open>
  C23: the handle of a scoped task answers what the future does on its own. After any number of polls
  of the task, the handle is pending exactly if the future polled as often by itself is, and otherwise
  gives its value, or \<open>Panicked\<close> where it unwound; a task that is dropped while pending makes its
  handle answer \<open>Cancelled\<close>.
\<close>

theorem scoped_task_outcome:
  assumes "futures_laws ops" and "frames_channel ops user" and "os_state ops w = Open"
    and "scoped_task_polls ops user n (Live f) w = (t, w')"
  shows "fst (scoped_handle_poll ops w') = scoped_answer (bare_polls user n f w) \<and>
    (fst (scoped_handle_poll ops w') = Pending \<longrightarrow>
       fst (scoped_handle_poll ops (scoped_task_drop ops t w')) = Ready (Inl Cancelled))"
  using assms(3,4)
proof (induction n arbitrary: f w)
  case 0
  then show ?case
    using scoped_handle_states [OF assms(1)] channel_recv(5) [OF assms(1)] by auto
next
  case (Suc n)
  obtain r f1 w1 where u: "user f w = (r, f1, w1)" by (cases "user f w")
  with assms(2) Suc.prems(1) have op: "os_state ops w1 = Open"
    unfolding frames_channel_def by (metis snd_conv)
  note sent = scoped_handle_states(2) [OF assms(1) channel_recv(4) [OF assms(1) op]]
  consider "r = Unwound" | "r = Returned Pending" | v where "r = Returned (Ready v)"
    by (metis outcome.exhaust poll.exhaust)
  then show ?case
  proof cases
    case 2
    with u Suc.prems(2) have "scoped_task_polls ops user n (Live f1) w1 = (t, w')"
      by (simp add: catch_unwind_def)
    from Suc.IH [OF op this] u 2 show ?thesis by simp
  next
    case 1
    with u Suc.prems(2) have "w' = os_send ops (Inl Panicked) w1"
      by (cases n) (auto simp: catch_unwind_def)
    with u 1 sent show ?thesis by simp
  next
    case (3 v)
    with u Suc.prems(2) have "w' = os_send ops (Inr v) w1"
      by (cases n) (auto simp: catch_unwind_def)
    with u 3 sent show ?thesis by simp
  qed
qed

section \<open>Witnesses\<close>

text \<open>
  A concrete set: tasks are numbers and finish in order, one for each unit of the bound. The user
  future spawns a task for each of its units but the last and answers 7.
\<close>

type_synonym tally_state = "(nat, nat option, nat list \<times> nat list \<times> nat) scope_state"

definition tally :: "(nat list, nat, nat, nat list \<times> nat list \<times> nat) account" where
  "tally = \<lparr>names = mset, name_of = id, born = (\<lambda>(b, g, n). mset b), gone = (\<lambda>(b, g, n). mset g),
     fuel = (\<lambda>(b, g, n). n)\<rparr>"

definition queue_ops :: "(nat list, nat, tally_state) unordered_ops" where
  "queue_ops = \<lparr>fu_empty = [], fu_extend = (\<lambda>ts a. a @ ts),
     fu_poll = (\<lambda>ctx a s. case a of [] \<Rightarrow> (Ready None, [], s)
       | t # a' \<Rightarrow> (case around s of (b, g, 0) \<Rightarrow> (Pending, a, s)
                   | (b, g, Suc n) \<Rightarrow> (Ready (Some ()), a', s\<lparr>around := (b, t # g, n)\<rparr>)))\<rparr>"

definition spawning_user :: "(nat, nat, tally_state) user_future" where
  "spawning_user ctx f s =
     (case (f, around s) of
        (Suc f', b, g, Suc n) \<Rightarrow>
          (Returned Pending, f', s\<lparr>inbox := inbox s @ [f], around := (f # b, g, n)\<rparr>)
      | _ \<Rightarrow> (Returned (Ready 7), f, s))"

lemma spawning_user_laws: "user_laws tally spawning_user"
  by (auto simp: user_laws_def spawning_user_def tally_def pushes_def split: nat.splits prod.splits)

lemma queue_ops_laws: "unordered_laws tally queue_ops"
  by (auto simp: unordered_laws_def queue_ops_def tally_def pushes_def
      split: list.splits nat.splits prod.splits)


definition waiting_state :: tally_state where
  "waiting_state = \<lparr>inbox = [], scope_waker = Some 5, alive = True, contexts = [], around = ([2], [], 0)\<rparr>"

theorem scope_push_wakes_witness:
  "inbox (scope_push slot_waker (\<lambda>t u. u) 8 waiting_state) = [8] \<and>
   contexts (scope_push slot_waker (\<lambda>t u. u) 8 waiting_state) = contexts waiting_state @ [5]"
proof -
  let ?s = waiting_state
  let ?s1 = "\<lparr>inbox = [2], scope_waker = None, alive = True, contexts = [], around = ([2], [], 0)\<rparr>"
  have a: "absorb slot_waker queue_ops 5 [] ?s1 = (Pending, [2], ?s)"
    by (simp add: absorb_def scope_register_def slot_waker_def queue_ops_def waiting_state_def)
  have r: "scope_register slot_waker 5 ?s = ?s" by (simp add: scope_register_def slot_waker_def waiting_state_def)
  have d: "drive_scope slot_waker queue_ops 5 [] ?s1 = Some ((False, False), [2], ?s)"
    unfolding drive_scope_def
    by (subst drive_loop.simps) (simp add: a r Let_def, simp add: waiting_state_def)
  have u: "spawning_user 5 2 (scope_state_new None ([], [], 1)) = (Returned Pending, 1, ?s1)"
    by (simp add: spawning_user_def scope_state_new_def eval_nat_numeral)
  have "user_loop spawning_user slot_waker queue_ops 5 2 [] (scope_state_new None ([], [], 1)) =
      Some (Returned Pending, 1, [2], ?s)"
    using u d by (subst user_loop.simps) simp
  then have run: "scope_run spawning_user slot_waker queue_ops ([] @ [5]) (scope_new queue_ops 2)
      (scope_state_new None ([], [], 1)) = Some (Returned Pending, ?s)"
    by (simp add: scope_new_def queue_ops_def)
  have "waker_laws slot_waker" by (simp add: waker_laws_def slot_waker_def)
  from scope_push_wakes [OF spawning_user_laws queue_ops_laws _ this run, of "\<lambda>t u. u" 8] show ?thesis
    by (simp add: tally_def)
qed

theorem scoped_task_outcome_witness:
  "fst (scoped_handle_poll pair_futures (False, Sent (Inr 42))) = Ready (Inr 42)"
proof -
  have "scoped_task_polls pair_futures countdown_user 3 (Live 2) (False, Open) = (Over, False, Sent (Inr 42))"
    by (simp add: eval_nat_numeral catch_unwind_def pair_futures_def)
  moreover have "os_state pair_futures (False, Open) = Open" by (simp add: pair_futures_def)
  ultimately show ?thesis
    using scoped_task_outcome [OF pair_futures_laws countdown_frames, of "(False, Open)" 3 2]
    by (simp add: eval_nat_numeral)
qed

end
