(* ===== verification/Scoped_Coroutine.thy ===== *)
theory Scoped_Coroutine
  imports Scoped Delays
begin

text \<open>
  The rest of \<open>Scope\<close> in \<open>src/src/scoped.rs\<close>: \<open>spawn_abortable\<close>, \<open>dispatch\<close>, the message-driven tasks,
  timeouts and delays. The store of abortable references is what is around the scope. The blocks of the
  coroutines are those of \<open>Executor\<close> (\<open>src/src/lib.rs\<close>), written out a second time in the source; the
  lemmas at the end say that the functions agree.
\<close>

section \<open>Spawning\<close>

text \<open>
  What \<open>spawn_abortable\<close> makes of a future before it pushes: the block with its abort registration,
  sender and guard, and the receiver, abort handle and flag that the handle gets.
\<close>

record ('f, 't, 'o, 'b, 'w) block_ops =
  bk_make :: "'f \<Rightarrow> 'w \<Rightarrow> ('t \<times> 'o \<times> 'b \<times> nat) \<times> 'w"
  bk_drop :: "'t \<Rightarrow> 'w \<Rightarrow> 'w"

definition on_backend :: "('w \<Rightarrow> 'w) \<Rightarrow> ('h, 'aw, 'w) store \<Rightarrow> ('h, 'aw, 'w) store" where
  "on_backend g s = s\<lparr>backend := g (backend s)\<rparr>"

type_synonym ('tt, 'sw, 't, 'c, 'x, 's, 'b, 'o, 'a, 'aw, 'w) scope_handles =
  "('tt, 'sw, ('t, 'c, 'x, 's, 'b, 'o, 'a, 'aw, 'w) handles) scope_state"

definition scope_spawn_abortable ::
  "'sw waker_ops \<Rightarrow> 'aw \<Rightarrow> ('f, 'tt, 'o, 'b, 'w) block_ops \<Rightarrow> 'f \<Rightarrow>
   ('tt, 'sw, 't, 'c, 'x, 's, 'b, 'o, 'a, 'aw, 'w) scope_handles \<Rightarrow>
   nat \<times> ('tt, 'sw, 't, 'c, 'x, 's, 'b, 'o, 'a, 'aw, 'w) scope_handles" where
  "scope_spawn_abortable wops aw bops f s =
     (case bk_make bops f (backend (around s)) of
        ((t, rx, ab, fl), w) \<Rightarrow>
          (let s1 = s\<lparr>around := (around s)\<lparr>backend := w\<rparr>\<rparr>;
               s2 = scope_push wops (\<lambda>t. on_backend (bk_drop bops t)) t s1
           in case shared_from aw (CustomHandle rx ab fl) (around s2) of
                (a, st) \<Rightarrow> (a, s2\<lparr>around := st\<rparr>)))"

text \<open>\<open>dispatch\<close> drops the handle of \<open>spawn\<close>, which is only a receiver.\<close>

definition scope_dispatch ::
  "('f \<Rightarrow> 's \<Rightarrow> 'h \<times> 's) \<Rightarrow> ('h \<Rightarrow> 's \<Rightarrow> 's) \<Rightarrow> 'f \<Rightarrow> 's \<Rightarrow> 's" where
  "scope_dispatch spawn drop_handle f s = (case spawn f s of (h, s') \<Rightarrow> drop_handle h s')"

section \<open>Message-driven tasks\<close>

text \<open>\<open>spawn_ab\<close> is \<open>scope_spawn_abortable\<close> with its parameters.\<close>

definition scope_spawn_coroutine_with_buffer ::
  "('k, 'q, 'm, 's) mpsc_ops \<Rightarrow> (('c, 'g, 'q) coroutine \<Rightarrow> 's \<Rightarrow> nat \<times> 's) \<Rightarrow> nat \<Rightarrow> 'c \<Rightarrow> 's \<Rightarrow>
   'k communication_task \<times> 's" where
  "scope_spawn_coroutine_with_buffer mops spawn_ab n f s =
     (case mp_channel mops n s of
        (tx, rx, s1) \<Rightarrow>
          (case spawn_ab (Receiving f rx) s1 of
             (a, s2) \<Rightarrow> (\<lparr>task_handle = a, channel_tx = tx\<rparr>, s2)))"

definition scope_spawn_coroutine ::
  "('k, 'q, 'm, 's) mpsc_ops \<Rightarrow> (('c, 'g, 'q) coroutine \<Rightarrow> 's \<Rightarrow> nat \<times> 's) \<Rightarrow> 'c \<Rightarrow> 's \<Rightarrow>
   'k communication_task \<times> 's" where
  "scope_spawn_coroutine mops spawn_ab f s = scope_spawn_coroutine_with_buffer mops spawn_ab 1 f s"

definition scope_spawn_unbounded_coroutine ::
  "('k, 'q, 'm, 's) mpsc_ops \<Rightarrow> (('c, 'g, 'q) coroutine \<Rightarrow> 's \<Rightarrow> nat \<times> 's) \<Rightarrow> 'c \<Rightarrow> 's \<Rightarrow>
   'k communication_task \<times> 's" where
  "scope_spawn_unbounded_coroutine mops spawn_ab f s =
     (case mp_unbounded mops s of
        (tx, rx, s1) \<Rightarrow>
          (case spawn_ab (Receiving f rx) s1 of
             (a, s2) \<Rightarrow> (\<lparr>task_handle = a, channel_tx = tx\<rparr>, s2)))"

text \<open>With a context, the closure and the context are moved into the loop together.\<close>

definition scope_spawn_coroutine_with_buffer_and_context ::
  "('k, 'q, 'm, 's) mpsc_ops \<Rightarrow> (('x \<times> 'c, 'g, 'q) coroutine \<Rightarrow> 's \<Rightarrow> nat \<times> 's) \<Rightarrow> 'x \<Rightarrow> nat \<Rightarrow> 'c \<Rightarrow>
   's \<Rightarrow> 'k communication_task \<times> 's" where
  "scope_spawn_coroutine_with_buffer_and_context mops spawn_ab x n f s =
     (case mp_channel mops n s of
        (tx, rx, s1) \<Rightarrow>
          (case spawn_ab (Receiving (x, f) rx) s1 of
             (a, s2) \<Rightarrow> (\<lparr>task_handle = a, channel_tx = tx\<rparr>, s2)))"

definition scope_spawn_coroutine_with_context ::
  "('k, 'q, 'm, 's) mpsc_ops \<Rightarrow> (('x \<times> 'c, 'g, 'q) coroutine \<Rightarrow> 's \<Rightarrow> nat \<times> 's) \<Rightarrow> 'x \<Rightarrow> 'c \<Rightarrow>
   's \<Rightarrow> 'k communication_task \<times> 's" where
  "scope_spawn_coroutine_with_context mops spawn_ab x f s =
     scope_spawn_coroutine_with_buffer_and_context mops spawn_ab x 1 f s"

definition scope_spawn_unbounded_coroutine_with_context ::
  "('k, 'q, 'm, 's) mpsc_ops \<Rightarrow> (('x \<times> 'c, 'g, 'q) coroutine \<Rightarrow> 's \<Rightarrow> nat \<times> 's) \<Rightarrow> 'x \<Rightarrow> 'c \<Rightarrow>
   's \<Rightarrow> 'k communication_task \<times> 's" where
  "scope_spawn_unbounded_coroutine_with_context mops spawn_ab x f s =
     (case mp_unbounded mops s of
        (tx, rx, s1) \<Rightarrow>
          (case spawn_ab (Receiving (x, f) rx) s1 of
             (a, s2) \<Rightarrow> (\<lparr>task_handle = a, channel_tx = tx\<rparr>, s2)))"

text \<open>With the receiver, the closure makes the future of the task; it is called before the spawn.\<close>

definition scope_spawn_coroutine_with_receiver_and_buffer ::
  "('k, 'q, 'm, 's) mpsc_ops \<Rightarrow> ('f \<Rightarrow> 's \<Rightarrow> nat \<times> 's) \<Rightarrow> nat \<Rightarrow> ('q \<Rightarrow> 's \<Rightarrow> 'f \<times> 's) \<Rightarrow> 's \<Rightarrow>
   'k communication_task \<times> 's" where
  "scope_spawn_coroutine_with_receiver_and_buffer mops spawn_ab n f s =
     (case mp_channel mops n s of
        (tx, rx, s1) \<Rightarrow>
          (case f rx s1 of
             (fut, s2) \<Rightarrow>
               (case spawn_ab fut s2 of
                  (a, s3) \<Rightarrow> (\<lparr>task_handle = a, channel_tx = tx\<rparr>, s3))))"

definition scope_spawn_coroutine_with_receiver ::
  "('k, 'q, 'm, 's) mpsc_ops \<Rightarrow> ('f \<Rightarrow> 's \<Rightarrow> nat \<times> 's) \<Rightarrow> ('q \<Rightarrow> 's \<Rightarrow> 'f \<times> 's) \<Rightarrow> 's \<Rightarrow>
   'k communication_task \<times> 's" where
  "scope_spawn_coroutine_with_receiver mops spawn_ab f s =
     scope_spawn_coroutine_with_receiver_and_buffer mops spawn_ab 1 f s"

definition scope_spawn_coroutine_with_receiver_buffer_and_context ::
  "('k, 'q, 'm, 's) mpsc_ops \<Rightarrow> ('f \<Rightarrow> 's \<Rightarrow> nat \<times> 's) \<Rightarrow> 'x \<Rightarrow> nat \<Rightarrow> ('x \<Rightarrow> 'q \<Rightarrow> 's \<Rightarrow> 'f \<times> 's) \<Rightarrow>
   's \<Rightarrow> 'k communication_task \<times> 's" where
  "scope_spawn_coroutine_with_receiver_buffer_and_context mops spawn_ab x n f s =
     (case mp_channel mops n s of
        (tx, rx, s1) \<Rightarrow>
          (case f x rx s1 of
             (fut, s2) \<Rightarrow>
               (case spawn_ab fut s2 of
                  (a, s3) \<Rightarrow> (\<lparr>task_handle = a, channel_tx = tx\<rparr>, s3))))"

definition scope_spawn_coroutine_with_receiver_and_context ::
  "('k, 'q, 'm, 's) mpsc_ops \<Rightarrow> ('f \<Rightarrow> 's \<Rightarrow> nat \<times> 's) \<Rightarrow> 'x \<Rightarrow> ('x \<Rightarrow> 'q \<Rightarrow> 's \<Rightarrow> 'f \<times> 's) \<Rightarrow>
   's \<Rightarrow> 'k communication_task \<times> 's" where
  "scope_spawn_coroutine_with_receiver_and_context mops spawn_ab x f s =
     scope_spawn_coroutine_with_receiver_buffer_and_context mops spawn_ab x 1 f s"

definition scope_spawn_unbounded_coroutine_with_receiver ::
  "('k, 'q, 'm, 's) mpsc_ops \<Rightarrow> ('f \<Rightarrow> 's \<Rightarrow> nat \<times> 's) \<Rightarrow> ('q \<Rightarrow> 's \<Rightarrow> 'f \<times> 's) \<Rightarrow> 's \<Rightarrow>
   'k communication_task \<times> 's" where
  "scope_spawn_unbounded_coroutine_with_receiver mops spawn_ab f s =
     (case mp_unbounded mops s of
        (tx, rx, s1) \<Rightarrow>
          (case f rx s1 of
             (fut, s2) \<Rightarrow>
               (case spawn_ab fut s2 of
                  (a, s3) \<Rightarrow> (\<lparr>task_handle = a, channel_tx = tx\<rparr>, s3))))"

definition scope_spawn_unbounded_coroutine_with_receiver_and_context ::
  "('k, 'q, 'm, 's) mpsc_ops \<Rightarrow> ('f \<Rightarrow> 's \<Rightarrow> nat \<times> 's) \<Rightarrow> 'x \<Rightarrow> ('x \<Rightarrow> 'q \<Rightarrow> 's \<Rightarrow> 'f \<times> 's) \<Rightarrow>
   's \<Rightarrow> 'k communication_task \<times> 's" where
  "scope_spawn_unbounded_coroutine_with_receiver_and_context mops spawn_ab x f s =
     (case mp_unbounded mops s of
        (tx, rx, s1) \<Rightarrow>
          (case f x rx s1 of
             (fut, s2) \<Rightarrow>
               (case spawn_ab fut s2 of
                  (a, s3) \<Rightarrow> (\<lparr>task_handle = a, channel_tx = tx\<rparr>, s3))))"

section \<open>Timeouts and delays\<close>

definition scope_spawn_timeout ::
  "('x, 'a, 'q, 's) timeout_ops \<Rightarrow> ('q timed \<Rightarrow> 's \<Rightarrow> 'h \<times> 's) \<Rightarrow> nat \<Rightarrow> 'x \<Rightarrow> 's \<Rightarrow> 'h \<times> 's" where
  "scope_spawn_timeout tops spawn d f s = (case timed_new tops d f s of (t, s') \<Rightarrow> spawn t s')"

definition scope_spawn_delay ::
  "(('q, 'f) delayed \<Rightarrow> 's \<Rightarrow> 'h \<times> 's) \<Rightarrow> nat \<Rightarrow> 'f \<Rightarrow> 's \<Rightarrow> 'h \<times> 's" where
  "scope_spawn_delay spawn d f s = spawn (NotStarted d f) s"

definition scope_spawn_abortable_timeout ::
  "('x, 'a, 'q, 's) timeout_ops \<Rightarrow> ('q timed \<Rightarrow> 's \<Rightarrow> nat \<times> 's) \<Rightarrow> nat \<Rightarrow> 'x \<Rightarrow> 's \<Rightarrow> nat \<times> 's" where
  "scope_spawn_abortable_timeout tops spawn_ab d f s =
     (case timed_new tops d f s of (t, s') \<Rightarrow> spawn_ab t s')"

definition scope_spawn_abortable_delay ::
  "(('q, 'f) delayed \<Rightarrow> 's \<Rightarrow> nat \<times> 's) \<Rightarrow> nat \<Rightarrow> 'f \<Rightarrow> 's \<Rightarrow> nat \<times> 's" where
  "scope_spawn_abortable_delay spawn_ab d f s = spawn_ab (NotStarted d f) s"

section \<open>Properties\<close>

lemma scoped_coroutines_agree:
  "scope_spawn_coroutine = spawn_coroutine"
  "scope_spawn_coroutine_with_buffer = spawn_coroutine_with_buffer"
  "scope_spawn_unbounded_coroutine = spawn_unbounded_coroutine"
  "scope_spawn_coroutine_with_context = spawn_coroutine_with_context"
  "scope_spawn_coroutine_with_receiver = spawn_coroutine_with_receiver"
  "scope_spawn_coroutine_with_receiver_and_context = spawn_coroutine_with_receiver_and_context"
  by (intro ext; simp add: scope_spawn_coroutine_def spawn_coroutine_def
      scope_spawn_coroutine_with_buffer_def spawn_coroutine_with_buffer_def
      scope_spawn_unbounded_coroutine_def spawn_unbounded_coroutine_def
      scope_spawn_coroutine_with_context_def spawn_coroutine_with_context_def
      scope_spawn_coroutine_with_buffer_and_context_def spawn_coroutine_with_buffer_and_context_def
      scope_spawn_coroutine_with_receiver_def spawn_coroutine_with_receiver_def
      scope_spawn_coroutine_with_receiver_and_buffer_def spawn_coroutine_with_receiver_and_buffer_def
      scope_spawn_coroutine_with_receiver_and_context_def spawn_coroutine_with_receiver_and_context_def
      scope_spawn_coroutine_with_receiver_buffer_and_context_def
      spawn_coroutine_with_receiver_buffer_and_context_def)+

lemma scope_push_alive:
  "alive s \<Longrightarrow> inbox (scope_push wops dt t s) = inbox s @ [t] \<and> around (scope_push wops dt t s) = around s"
  by (simp add: scope_push_def split: prod.split)

text \<open>
  The parts of a message-driven task of a scope belong together. Spawning one on a scope that is
  alive queues one block, made of the loop around the receiver of the channel whose sender the caller
  gets; and the caller's handle is the only reference to the task: when it goes, that block's abort is
  requested.
\<close>

theorem scoped_coroutine_wired:
  assumes "mp_channel mops n s = (tx, rx, s1)" and "alive s1"
    and "bk_make bops (Receiving f rx) (backend (around s1)) = ((t, r, b, fl), w)"
  shows "\<exists>a s2. scope_spawn_coroutine_with_buffer mops (scope_spawn_abortable wops aw bops) n f s =
      (\<lparr>task_handle = a, channel_tx = tx\<rparr>, s2) \<and> inbox s2 = inbox s1 @ [t] \<and>
    backend (shared_drop ops a (around s2)) = ab_abort ops b w"
  using assms scope_push_alive [of "s1\<lparr>around := (around s1)\<lparr>backend := w\<rparr>\<rparr>" wops
      "\<lambda>t. on_backend (bk_drop bops t)" t]
  by (simp add: scope_spawn_coroutine_with_buffer_def scope_spawn_abortable_def shared_from_def
      shared_drop_def Let_def split: prod.split)

text \<open>A world that counts blocks and keeps the aborted ones.\<close>

type_synonym yard = "nat \<times> nat list"

definition yard_blocks :: "((nat, bool, nat) coroutine, nat, bool, nat, yard) block_ops" where
  "yard_blocks = \<lparr>bk_make = (\<lambda>f w. ((fst w, True, fst w, fst w), (Suc (fst w), snd w))),
     bk_drop = (\<lambda>t w. w)\<rparr>"

definition yard_backend :: "(unit, unit, unit, unit, nat, bool, nat, yard) task_ops" where
  "yard_backend = \<lparr>
     tk_poll = (\<lambda>t w. (Pending, t, w)), tk_some = (\<lambda>t. False), tk_is_finished = (\<lambda>t w. True),
     tk_abort = (\<lambda>t w. w), co_poll = (\<lambda>c w. (Pending, c, w)), co_is_finished = (\<lambda>c w. True),
     co_cancel = (\<lambda>c w. ((), w)), co_detach = (\<lambda>c w. w), cx_poll = (\<lambda>x w. (Pending, x, w)),
     sm_poll = (\<lambda>s w. (Pending, s, w)), sm_some = (\<lambda>s. False), sm_is_finished = (\<lambda>s w. True),
     sm_detach = (\<lambda>s w. w), ab_abort = (\<lambda>b w. (fst w, snd w @ [b])),
     cu_poll = (\<lambda>p w. (Pending, p, w)), cu_none = (\<lambda>p. \<not> p), flag_set = (\<lambda>n w. False)\<rparr>"

definition yard_state ::
  "nat list \<Rightarrow> (nat, nat option, unit, unit, unit, unit, nat, bool, nat, nat option, yard) scope_handles" where
  "yard_state q = \<lparr>inbox = q, scope_waker = None, alive = True, contexts = [],
     around = \<lparr>cells = \<lambda>a. None, next_cell = 0, woken = [], backend = (7, [])\<rparr>\<rparr>"

definition yard_channels ::
  "(nat, nat, nat, (nat, nat option, unit, unit, unit, unit, nat, bool, nat, nat option, yard) scope_handles) mpsc_ops"
where
  "yard_channels = \<lparr>mp_channel = (\<lambda>n s. (3, 3, s)), mp_unbounded = (\<lambda>s. (3, 3, s)),
     mp_next = (\<lambda>q s. (Pending, q, s)), mp_queue = (\<lambda>q s. [])\<rparr>"

theorem scoped_coroutine_wired_witness:
  "\<exists>a s2. scope_spawn_coroutine_with_buffer yard_channels (scope_spawn_abortable slot_waker None yard_blocks)
      1 0 (yard_state []) = (\<lparr>task_handle = a, channel_tx = 3\<rparr>, s2) \<and> inbox s2 = [7] \<and>
    backend (shared_drop yard_backend a (around s2)) = (8, [7])"
proof -
  have 1: "mp_channel yard_channels 1 (yard_state []) = (3, 3, yard_state [])"
    by (simp add: yard_channels_def)
  have 2: "alive (yard_state [])" by (simp add: yard_state_def)
  have 3: "bk_make yard_blocks (Receiving 0 3) (backend (around (yard_state []))) = ((7, True, 7, 7), (8, []))"
    by (simp add: yard_blocks_def yard_state_def)
  from scoped_coroutine_wired [OF 1 2 3, of slot_waker None yard_backend] show ?thesis
    by (simp add: yard_state_def yard_backend_def)
qed

end
