(* ===== verification/Scope_Executor.thy ===== *)
theory Scope_Executor
  imports Scoped_Coroutine
begin

text \<open>
  \<open>ScopeExecutor\<close> and \<open>executor_scope\<close> of \<open>src/src/scoped.rs\<close>: an executor that keeps an abortable
  reference to every task spawned through it on the executor it wraps; the future of \<open>executor_scope\<close>,
  as the state machine that its \<open>await\<close>s make, waits for all of them, and dropping it aborts them. The
  references live in the store of \<open>Abortable\<close>.
\<close>

section \<open>The executor\<close>

record ('h, 'aw, 'w) scope_exec =
  refs :: "('h, 'aw, 'w) store"
  task_handles :: "nat list"

type_synonym ('t, 'c, 'x, 's, 'b, 'o, 'a, 'aw, 'w) exec_state =
  "(('t, 'c, 'x, 's, 'b, 'o, 'a) join_handle, 'aw, 'w) scope_exec"

definition scope_exec_new :: "('h, 'aw, 'w) store \<Rightarrow> ('h, 'aw, 'w) scope_exec" where
  "scope_exec_new s = \<lparr>refs = s, task_handles = []\<rparr>"

text \<open>
  \<open>spawn_tracked\<close>: the block around the future goes to the \<open>spawn_abortable\<close> of the wrapped executor
  (\<open>spawn\<close>, then a reference), the reference is kept, and the caller gets a handle of the block.
\<close>

definition spawn_tracked ::
  "'aw \<Rightarrow> ('f, 'tt, 'o, 'b, 'w) block_ops \<Rightarrow> ('tt \<Rightarrow> 'w \<Rightarrow> ('t, 'c, 'x, 's, 'b, 'o, 'a) join_handle \<times> 'w) \<Rightarrow>
   'f \<Rightarrow> ('t, 'c, 'x, 's, 'b, 'o, 'a, 'aw, 'w) exec_state \<Rightarrow>
   ('t, 'c, 'x, 's, 'b, 'o, 'a) join_handle \<times> ('t, 'c, 'x, 's, 'b, 'o, 'a, 'aw, 'w) exec_state" where
  "spawn_tracked aw bops spawn f s =
     (case bk_make bops f (backend (refs s)) of
        ((block, rx, ab, fl), w) \<Rightarrow>
          (case spawn_abortable aw spawn block ((refs s)\<lparr>backend := w\<rparr>) of
             (a, st) \<Rightarrow>
               (CustomHandle rx ab fl, s\<lparr>refs := st, task_handles := task_handles s @ [a]\<rparr>)))"

text \<open>\<open>spawn\<close> puts \<open>Ok\<close> around the future's value, \<open>spawn_blocking\<close> awaits the handle of the work.\<close>

definition scope_exec_spawn ::
  "'aw \<Rightarrow> ('f, 'tt, 'o, 'b, 'w) block_ops \<Rightarrow> ('tt \<Rightarrow> 'w \<Rightarrow> ('t, 'c, 'x, 's, 'b, 'o, 'a) join_handle \<times> 'w) \<Rightarrow>
   ('g \<Rightarrow> 'f) \<Rightarrow> 'g \<Rightarrow> ('t, 'c, 'x, 's, 'b, 'o, 'a, 'aw, 'w) exec_state \<Rightarrow>
   ('t, 'c, 'x, 's, 'b, 'o, 'a) join_handle \<times> ('t, 'c, 'x, 's, 'b, 'o, 'a, 'aw, 'w) exec_state" where
  "scope_exec_spawn aw bops spawn ok_of f s = spawn_tracked aw bops spawn (ok_of f) s"

definition scope_exec_spawn_blocking ::
  "'aw \<Rightarrow> ('f, 'tt, 'o, 'b, 'w) block_ops \<Rightarrow> ('tt \<Rightarrow> 'w \<Rightarrow> ('t, 'c, 'x, 's, 'b, 'o, 'a) join_handle \<times> 'w) \<Rightarrow>
   ('k \<Rightarrow> 'w \<Rightarrow> ('t, 'c, 'x, 's, 'b, 'o, 'a) join_handle \<times> 'w) \<Rightarrow> (nat \<Rightarrow> 'f) \<Rightarrow> 'k \<Rightarrow>
   ('t, 'c, 'x, 's, 'b, 'o, 'a, 'aw, 'w) exec_state \<Rightarrow>
   ('t, 'c, 'x, 's, 'b, 'o, 'a) join_handle \<times> ('t, 'c, 'x, 's, 'b, 'o, 'a, 'aw, 'w) exec_state" where
  "scope_exec_spawn_blocking aw bops spawn spawn_blocking await_of f s =
     (case spawn_blocking_abortable aw spawn_blocking f (refs s) of
        (a, st) \<Rightarrow> spawn_tracked aw bops spawn (await_of a) (s\<lparr>refs := st\<rparr>))"

text \<open>\<open>abort_all\<close>, and \<open>Drop\<close>: abort all, then the kept references go.\<close>

definition abort_all ::
  "('t, 'c, 'x, 's, 'b, 'o, 'a, 'w) task_ops \<Rightarrow> 'aw waker_ops \<Rightarrow>
   ('t, 'c, 'x, 's, 'b, 'o, 'a, 'aw, 'w) exec_state \<Rightarrow> ('t, 'c, 'x, 's, 'b, 'o, 'a, 'aw, 'w) exec_state" where
  "abort_all ops wops s = s\<lparr>refs := fold (shared_abort ops wops) (task_handles s) (refs s)\<rparr>"

definition drop_refs ::
  "('t, 'c, 'x, 's, 'b, 'o, 'a, 'w) task_ops \<Rightarrow> nat list \<Rightarrow>
   ('t, 'c, 'x, 's, 'b, 'o, 'a, 'aw, 'w) exec_state \<Rightarrow> ('t, 'c, 'x, 's, 'b, 'o, 'a, 'aw, 'w) exec_state" where
  "drop_refs ops hs s = s\<lparr>refs := fold (shared_drop ops) hs (refs s)\<rparr>"

definition scope_exec_drop ::
  "('t, 'c, 'x, 's, 'b, 'o, 'a, 'w) task_ops \<Rightarrow> 'aw waker_ops \<Rightarrow>
   ('t, 'c, 'x, 's, 'b, 'o, 'a, 'aw, 'w) exec_state \<Rightarrow> ('t, 'c, 'x, 's, 'b, 'o, 'a, 'aw, 'w) exec_state" where
  "scope_exec_drop ops wops s =
     (drop_refs ops (task_handles s) (abort_all ops wops s))\<lparr>task_handles := []\<rparr>"

text \<open>
  The block of \<open>spawn_tracked\<close>: the future answers a join result itself, \<open>and_then(|result| result)\<close>
  joins it with what aborting and unwinding make of it.
\<close>

fun joined_result :: "'a join_result join_result \<Rightarrow> 'a join_result" where
  "joined_result (Inr r) = r"
| "joined_result (Inl e) = Inl e"

fun tracked_block_poll ::
  "('f, unit + 'a join_result, 'a join_result, 'w) futures_ops \<Rightarrow> ('f, 'a join_result, 'w) user_poll \<Rightarrow>
   'f wrapped \<Rightarrow> 'w cell \<Rightarrow> unit poll outcome \<times> 'f wrapped \<times> 'w cell" where
  "tracked_block_poll ops user (Live f) c =
     (case abortable_result ops user f (outside c) of
        (Pending, f', w') \<Rightarrow> (Returned Pending, Live f', c\<lparr>outside := w'\<rparr>)
      | (Ready r, f', w') \<Rightarrow>
          (Returned (Ready ()), Over, drop_completion (c\<lparr>outside := os_send ops (joined_result r) w'\<rparr>)))"
| "tracked_block_poll ops user Over c = (Unwound, Over, c)"

lemma tracked_block_outcome:
  assumes "futures_laws ops" and "handle_linked jops ops b fl" and "frames_channel ops user"
    and "os_state ops (outside c) = Open" and "\<not> cu_none jops p"
    and "user f (outside c) = (out, f1, w1)"
    and "tracked_block_poll ops user (Live f) c = (Returned (Ready ()), t, c')"
  shows "fst (handle_is_finished jops (CustomHandle p b fl) c') \<and>
    fst (handle_poll jops (CustomHandle p b fl) c') =
      Ready (joined_result (expected_result (ab_requested ops (outside c)) out))"
proof -
  let ?r = "expected_result (ab_requested ops (outside c)) out"
  from abortable_result_cases [OF assms(1), where user = user, OF assms(6)] assms(7)
  obtain f' w' where ar: "abortable_result ops user f (outside c) = (Ready ?r, f', w')"
    and w': "w' \<in> {outside c, w1}"
    by (auto split: poll.splits)
  from assms(3,6) have "os_state ops w1 = os_state ops (outside c)"
    unfolding frames_channel_def by (metis snd_conv)
  with w' assms(4) have "os_state ops w' = Open" by auto
  then have sent: "os_state ops (os_send ops (joined_result ?r) w') = Sent (joined_result ?r)"
    by (rule channel_recv(4) [OF assms(1)])
  from ar assms(7) have c': "c' = \<lparr>finished = True, outside = os_send ops (joined_result ?r) w'\<rparr>"
    by (auto simp: drop_completion_def)
  from channel_recv(2) [OF assms(1) sent] c' obtain w''
    where "os_recv ops (outside c') = (Ready (Inr (joined_result ?r)), w'')" by auto
  from linked_poll(1) [OF assms(2,5) this] linked_finished [OF assms(2,5)] c'
  show ?thesis by auto
qed

section \<open>The future of a scope\<close>

text \<open>The user's future runs, then the handles taken from the executor are awaited in turn.\<close>

datatype ('f, 'r) exec_future = ExecRunning 'f | ExecJoining 'r "nat list" | ExecOver

text \<open>\<open>for handle in handles { let _ = handle.await; }\<close>; an awaited handle is dropped.\<close>

fun join_handles ::
  "('t, 'c, 'x, 's, 'b, 'o, 'a, 'w) task_ops \<Rightarrow> 'aw waker_ops \<Rightarrow> nat \<Rightarrow> nat list \<Rightarrow>
   ('t, 'c, 'x, 's, 'b, 'o, 'a, 'aw, 'w) handles \<Rightarrow>
   nat list \<times> ('t, 'c, 'x, 's, 'b, 'o, 'a, 'aw, 'w) handles" where
  "join_handles ops wops ctx [] st = ([], st)"
| "join_handles ops wops ctx (a # as) st =
     (case shared_poll ops wops ctx a st of
        (Pending, st') \<Rightarrow> (a # as, st')
      | (Ready r, st') \<Rightarrow> join_handles ops wops ctx as (shared_drop ops a st'))"

definition join_stage ::
  "('t, 'c, 'x, 's, 'b, 'o, 'a, 'w) task_ops \<Rightarrow> 'aw waker_ops \<Rightarrow> nat \<Rightarrow> 'r \<Rightarrow> nat list \<Rightarrow>
   ('t, 'c, 'x, 's, 'b, 'o, 'a, 'aw, 'w) exec_state \<Rightarrow>
   'r poll outcome \<times> ('f, 'r) exec_future \<times> ('t, 'c, 'x, 's, 'b, 'o, 'a, 'aw, 'w) exec_state" where
  "join_stage ops wops ctx r hs s =
     (case join_handles ops wops ctx hs (refs s) of
        ([], st) \<Rightarrow> (Returned (Ready r), ExecOver, scope_exec_drop ops wops (s\<lparr>refs := st\<rparr>))
      | (a # as, st) \<Rightarrow> (Returned Pending, ExecJoining r (a # as), s\<lparr>refs := st\<rparr>))"

fun exec_scope_poll ::
  "(nat \<Rightarrow> 'f \<Rightarrow> ('t, 'c, 'x, 's, 'b, 'o, 'a, 'aw, 'w) exec_state \<Rightarrow>
     'r poll outcome \<times> 'f \<times> ('t, 'c, 'x, 's, 'b, 'o, 'a, 'aw, 'w) exec_state) \<Rightarrow>
   ('t, 'c, 'x, 's, 'b, 'o, 'a, 'w) task_ops \<Rightarrow> 'aw waker_ops \<Rightarrow> nat \<Rightarrow> ('f, 'r) exec_future \<Rightarrow>
   ('t, 'c, 'x, 's, 'b, 'o, 'a, 'aw, 'w) exec_state \<Rightarrow>
   'r poll outcome \<times> ('f, 'r) exec_future \<times> ('t, 'c, 'x, 's, 'b, 'o, 'a, 'aw, 'w) exec_state" where
  "exec_scope_poll user ops wops ctx (ExecRunning f) s =
     (case user ctx f s of
        (Unwound, f', s') \<Rightarrow> (Unwound, ExecOver, scope_exec_drop ops wops s')
      | (Returned Pending, f', s') \<Rightarrow> (Returned Pending, ExecRunning f', s')
      | (Returned (Ready r), f', s') \<Rightarrow>
          join_stage ops wops ctx r (task_handles s') (s'\<lparr>task_handles := []\<rparr>))"
| "exec_scope_poll user ops wops ctx (ExecJoining r hs) s = join_stage ops wops ctx r hs s"
| "exec_scope_poll user ops wops ctx ExecOver s = (Unwound, ExecOver, s)"

text \<open>Dropping the future at one of its \<open>await\<close>s; \<open>drop_user\<close> drops the user's future.\<close>

fun exec_scope_drop ::
  "('f \<Rightarrow> ('t, 'c, 'x, 's, 'b, 'o, 'a, 'aw, 'w) exec_state \<Rightarrow> ('t, 'c, 'x, 's, 'b, 'o, 'a, 'aw, 'w) exec_state) \<Rightarrow>
   ('t, 'c, 'x, 's, 'b, 'o, 'a, 'w) task_ops \<Rightarrow> 'aw waker_ops \<Rightarrow> ('f, 'r) exec_future \<Rightarrow>
   ('t, 'c, 'x, 's, 'b, 'o, 'a, 'aw, 'w) exec_state \<Rightarrow> ('t, 'c, 'x, 's, 'b, 'o, 'a, 'aw, 'w) exec_state" where
  "exec_scope_drop drop_user ops wops (ExecRunning f) s = scope_exec_drop ops wops (drop_user f s)"
| "exec_scope_drop drop_user ops wops (ExecJoining r hs) s =
     scope_exec_drop ops wops (drop_refs ops hs s)"
| "exec_scope_drop drop_user ops wops ExecOver s = s"

section \<open>Tasks and their handles\<close>

text \<open>
  The task a piece of a handle belongs to, the tasks that are over, those whose abort was requested,
  and those that a scope spawned.
\<close>

record ('t, 'c, 'x, 's, 'b, 'o, 'n, 'w) job_view =
  of_tokio :: "'t \<Rightarrow> 'n"
  of_compio :: "'c \<Rightarrow> 'n"
  of_cancel :: "'x \<Rightarrow> 'n"
  of_smol :: "'s \<Rightarrow> 'n"
  of_abort :: "'b \<Rightarrow> 'n"
  of_receiver :: "'o \<Rightarrow> 'n"
  over :: "'w \<Rightarrow> 'n set"
  asked :: "'w \<Rightarrow> 'n set"
  spawned :: "'w \<Rightarrow> 'n list"

text \<open>What is over or asked for stays so.\<close>

definition grows :: "('t, 'c, 'x, 's, 'b, 'o, 'n, 'w) job_view \<Rightarrow> 'w \<Rightarrow> 'w \<Rightarrow> bool" where
  "grows vw w w' \<longleftrightarrow> over vw w \<subseteq> over vw w' \<and> asked vw w \<subseteq> asked vw w' \<and> spawned vw w' = spawned vw w"

text \<open>A handle of another crate answers when its task is over; aborting it asks for its own task.\<close>

definition poll_law ::
  "('t, 'c, 'x, 's, 'b, 'o, 'n, 'w) job_view \<Rightarrow> ('h \<Rightarrow> 'n) \<Rightarrow> ('h \<Rightarrow> 'w \<Rightarrow> 'v poll \<times> 'h \<times> 'w) \<Rightarrow> bool" where
  "poll_law vw name poll \<longleftrightarrow>
     (\<forall>h w r h' w'. poll h w = (r, h', w') \<longrightarrow>
        grows vw w w' \<and> name h' = name h \<and> (is_ready r \<longrightarrow> name h \<in> over vw w'))"

definition abort_law ::
  "('t, 'c, 'x, 's, 'b, 'o, 'n, 'w) job_view \<Rightarrow> ('h \<Rightarrow> 'n) \<Rightarrow> ('h \<Rightarrow> 'w \<Rightarrow> 'w) \<Rightarrow> bool" where
  "abort_law vw name ab \<longleftrightarrow> (\<forall>h w. grows vw w (ab h w) \<and> name h \<in> asked vw (ab h w))"

definition job_laws ::
  "('t, 'c, 'x, 's, 'b, 'o, 'a, 'w) task_ops \<Rightarrow> ('t, 'c, 'x, 's, 'b, 'o, 'n, 'w) job_view \<Rightarrow> bool" where
  "job_laws ops vw \<longleftrightarrow>
     poll_law vw (of_tokio vw) (tk_poll ops) \<and> poll_law vw (of_compio vw) (co_poll ops) \<and>
     poll_law vw (of_cancel vw) (cx_poll ops) \<and> poll_law vw (of_smol vw) (sm_poll ops) \<and>
     poll_law vw (of_receiver vw) (cu_poll ops) \<and>
     abort_law vw (of_tokio vw) (tk_abort ops) \<and> abort_law vw (of_abort vw) (ab_abort ops) \<and>
     abort_law vw (of_compio vw) (\<lambda>c w. snd (co_cancel ops c w)) \<and>
     (\<forall>c w. of_cancel vw (fst (co_cancel ops c w)) = of_compio vw c) \<and>
     (\<forall>t w t' w'. tk_poll ops t w = (Pending, t', w') \<longrightarrow> tk_some ops t' = tk_some ops t) \<and>
     (\<forall>c w. grows vw w (co_detach ops c w)) \<and> (\<forall>s w. grows vw w (sm_detach ops s w))"

text \<open>A handle stands for a task as long as the task may still run.\<close>

fun stands_for ::
  "('t, 'c, 'x, 's, 'b, 'o, 'a, 'w) task_ops \<Rightarrow> ('t, 'c, 'x, 's, 'b, 'o, 'n, 'w) job_view \<Rightarrow> 'n \<Rightarrow> 'w \<Rightarrow>
   ('t, 'c, 'x, 's, 'b, 'o, 'a) join_handle \<Rightarrow> bool" where
  "stands_for ops vw n w (TokioHandle t q) = (of_tokio vw t = n \<and> (tk_some ops t \<or> n \<in> over vw w))"
| "stands_for ops vw n w (CompioHandle (compio_inner.Running (Some c)) q) = (of_compio vw c = n)"
| "stands_for ops vw n w (CompioHandle (compio_inner.Running None) q) = (n \<in> over vw w)"
| "stands_for ops vw n w (CompioHandle (Cancelling x) q) = (of_cancel vw x = n \<and> n \<in> asked vw w)"
| "stands_for ops vw n w (CompioHandle (Settled r) q) = (n \<in> over vw w)"
| "stands_for ops vw n w (SmolHandle s b) = (of_smol vw s = n \<and> of_abort vw b = n)"
| "stands_for ops vw n w (CustomHandle p b fl) = (of_receiver vw p = n \<and> of_abort vw b = n)"
| "stands_for ops vw n w EmptyHandle = False"

lemma grows_trans: "grows vw w w1 \<Longrightarrow> grows vw w1 w2 \<Longrightarrow> grows vw w w2"
  by (auto simp: grows_def)

lemma grows_refl [simp]: "grows vw w w"
  by (simp add: grows_def)

lemma stands_for_grows: "stands_for ops vw n w h \<Longrightarrow> grows vw w w' \<Longrightarrow> stands_for ops vw n w' h"
  by (cases "(ops, vw, n, w, h)" rule: stands_for.cases) (auto simp: grows_def)

lemma poll_lawD:
  "poll_law vw name poll \<Longrightarrow> poll h w = (r, h', w') \<Longrightarrow>
     grows vw w w' \<and> name h' = name h \<and> (is_ready r \<longrightarrow> name h \<in> over vw w')"
  unfolding poll_law_def by blast

lemma job_laws_poll:
  assumes "job_laws ops vw"
  shows "poll_law vw (of_tokio vw) (tk_poll ops)" "poll_law vw (of_compio vw) (co_poll ops)"
    "poll_law vw (of_cancel vw) (cx_poll ops)" "poll_law vw (of_smol vw) (sm_poll ops)"
    "poll_law vw (of_receiver vw) (cu_poll ops)"
  using assms by (simp_all add: job_laws_def)

lemma job_laws_pending:
  "job_laws ops vw \<Longrightarrow> tk_poll ops t w = (Pending, t', w') \<Longrightarrow> tk_some ops t' = tk_some ops t"
  unfolding job_laws_def by (elim conjE) blast

lemma job_laws_abort:
  assumes "job_laws ops vw"
  shows "grows vw w (tk_abort ops t w) \<and> of_tokio vw t \<in> asked vw (tk_abort ops t w)"
    and "co_cancel ops c w = (x, w') \<Longrightarrow> grows vw w w' \<and> of_cancel vw x = of_compio vw c \<and>
      of_compio vw c \<in> asked vw w'"
    and "grows vw w (ab_abort ops b w) \<and> of_abort vw b \<in> asked vw (ab_abort ops b w)"
    and "grows vw w (co_detach ops c w)" and "grows vw w (sm_detach ops s w)"
proof -
  assume "co_cancel ops c w = (x, w')"
  then have "x = fst (co_cancel ops c w)" "w' = snd (co_cancel ops c w)" by simp_all
  with assms show "grows vw w w' \<and> of_cancel vw x = of_compio vw c \<and> of_compio vw c \<in> asked vw w'"
    by (simp add: job_laws_def abort_law_def)
qed (use assms in \<open>simp_all add: job_laws_def abort_law_def\<close>)

lemma handle_poll_stands:
  assumes "job_laws ops vw" "stands_for ops vw n w h" "handle_poll ops h w = (r, h', w')"
  shows "stands_for ops vw n w' h' \<and> grows vw w w' \<and> (is_ready r \<longrightarrow> n \<in> over vw w')"
proof (cases h)
  case (TokioHandle t q)
  obtain y t1 w1 where p: "tk_poll ops t w = (y, t1, w1)" by (cases "tk_poll ops t w")
  from poll_lawD [OF job_laws_poll(1) [OF assms(1)] p] job_laws_pending [OF assms(1)] TokioHandle p assms(2,3) show ?thesis
    by (auto simp: grows_def split: poll.splits sum.splits)
next
  case (CompioHandle st q)
  show ?thesis
  proof (cases st)
    case (Running c)
    show ?thesis
    proof (cases c)
      case (Some c0)
      obtain y c1 w1 where p: "co_poll ops c0 w = (y, c1, w1)" by (cases "co_poll ops c0 w")
      from poll_lawD [OF job_laws_poll(2) [OF assms(1)] p] CompioHandle Running Some p assms(2,3) show ?thesis
        by (auto split: poll.splits sum.splits if_splits)
    qed (use CompioHandle Running assms(2,3) in \<open>auto split: if_splits\<close>)
  next
    case (Cancelling x)
    obtain y x1 w1 where p: "cx_poll ops x w = (y, x1, w1)" by (cases "cx_poll ops x w")
    from poll_lawD [OF job_laws_poll(3) [OF assms(1)] p] CompioHandle Cancelling p assms(2,3) show ?thesis
      by (auto simp: grows_def split: poll.splits option.splits)
  next
    case (Settled v)
    with CompioHandle assms(2,3) show ?thesis
      by (cases v) (auto split: option.splits if_splits)
  qed
next
  case (SmolHandle s b)
  obtain y s1 w1 where p: "sm_poll ops s w = (y, s1, w1)" by (cases "sm_poll ops s w")
  from poll_lawD [OF job_laws_poll(4) [OF assms(1)] p] SmolHandle p assms(2,3) show ?thesis
    by (auto split: poll.splits option.splits)
next
  case (CustomHandle o' b fl)
  obtain y o1 w1 where p: "cu_poll ops o' w = (y, o1, w1)" by (cases "cu_poll ops o' w")
  from poll_lawD [OF job_laws_poll(5) [OF assms(1)] p] CustomHandle p assms(2,3) show ?thesis
    by (auto split: poll.splits sum.splits)
qed (use assms(2) in simp)

lemma handle_abort_stands:
  assumes "job_laws ops vw" "stands_for ops vw n w h" "handle_abort ops h w = (h', w')"
  shows "stands_for ops vw n w' h' \<and> grows vw w w' \<and> n \<in> over vw w' \<union> asked vw w'"
proof (cases h)
  case (TokioHandle t q)
  from job_laws_abort(1) [OF assms(1), of w t] TokioHandle assms(2,3) show ?thesis
    by (auto simp: grows_def split: if_splits)
next
  case (CompioHandle st q)
  show ?thesis
  proof (cases st)
    case (Running c)
    show ?thesis
    proof (cases c)
      case (Some c0)
      obtain x w1 where c: "co_cancel ops c0 w = (x, w1)" by (cases "co_cancel ops c0 w")
      obtain y x2 w2 where p: "cx_poll ops x w1 = (y, x2, w2)" by (cases "cx_poll ops x w1")
      from job_laws_abort(2) [OF assms(1) c] poll_lawD [OF job_laws_poll(3) [OF assms(1)] p] CompioHandle Running Some c p
        assms(2,3) show ?thesis
        by (auto simp: grows_def split: poll.splits)
    qed (use CompioHandle Running assms(2,3) in auto)
  qed (use CompioHandle assms(2,3) in auto)
next
  case (SmolHandle s b)
  from job_laws_abort(3) [OF assms(1), of w b] SmolHandle assms(2,3) show ?thesis by auto
next
  case (CustomHandle p b fl)
  from job_laws_abort(3) [OF assms(1), of w b] CustomHandle assms(2,3) show ?thesis by auto
qed (use assms(2) in simp)

lemma handle_drop_grows: "job_laws ops vw \<Longrightarrow> grows vw w (handle_drop ops h w)"
  by (cases "(ops, h, w)" rule: handle_drop.cases) (auto simp: job_laws_abort(4,5))

section \<open>References of the scope\<close>

definition owns ::
  "('t, 'c, 'x, 's, 'b, 'o, 'a, 'w) task_ops \<Rightarrow> ('t, 'c, 'x, 's, 'b, 'o, 'n, 'w) job_view \<Rightarrow>
   ('t, 'c, 'x, 's, 'b, 'o, 'a, 'aw, 'w) handles \<Rightarrow> nat \<Rightarrow> 'n \<Rightarrow> bool" where
  "owns ops vw s a n \<longleftrightarrow>
     (\<exists>c. cells s a = Some c \<and> strong c = 1 \<and> stands_for ops vw n (backend s) (joinee c)) \<and> a < next_cell s"

definition owns_all ::
  "('t, 'c, 'x, 's, 'b, 'o, 'a, 'w) task_ops \<Rightarrow> ('t, 'c, 'x, 's, 'b, 'o, 'n, 'w) job_view \<Rightarrow>
   ('t, 'c, 'x, 's, 'b, 'o, 'a, 'aw, 'w) handles \<Rightarrow> nat list \<Rightarrow> 'n list \<Rightarrow> bool" where
  "owns_all ops vw s hs ns \<longleftrightarrow> distinct hs \<and> list_all2 (owns ops vw s) hs ns"

text \<open>Code that leaves some cells alone.\<close>

definition keeps ::
  "('t, 'c, 'x, 's, 'b, 'o, 'n, 'w) job_view \<Rightarrow> ('h, 'aw, 'w) store \<Rightarrow> ('h, 'aw, 'w) store \<Rightarrow> nat set \<Rightarrow> bool"
where
  "keeps vw s s' A \<longleftrightarrow>
     (\<forall>a\<in>A. cells s' a = cells s a) \<and> grows vw (backend s) (backend s') \<and> next_cell s \<le> next_cell s'"

lemma keeps_trans: "keeps vw s s1 A \<Longrightarrow> keeps vw s1 s2 A \<Longrightarrow> keeps vw s s2 A"
  by (auto simp: keeps_def intro: grows_trans)

lemma keeps_mono: "keeps vw s s' A \<Longrightarrow> B \<subseteq> A \<Longrightarrow> keeps vw s s' B"
  by (auto simp: keeps_def)

lemma keeps_refl [simp]: "keeps vw s s A"
  by (simp add: keeps_def)

lemma keepsD: "keeps vw s s' A \<Longrightarrow> grows vw (backend s) (backend s')"
  by (simp add: keeps_def)

lemma owns_keeps: "owns ops vw s a n \<Longrightarrow> keeps vw s s' A \<Longrightarrow> a \<in> A \<Longrightarrow> owns ops vw s' a n"
  unfolding owns_def keeps_def by (auto intro: stands_for_grows)

lemma owns_all_keeps: "owns_all ops vw s hs ns \<Longrightarrow> keeps vw s s' (set hs) \<Longrightarrow> owns_all ops vw s' hs ns"
  unfolding owns_all_def by (auto elim!: list.rel_mono_strong intro: owns_keeps)

lemma owns_all_Cons:
  "owns_all ops vw s (a # as) ns \<longleftrightarrow>
     (\<exists>n ns'. ns = n # ns' \<and> owns ops vw s a n \<and> a \<notin> set as \<and> owns_all ops vw s as ns')"
  by (auto simp: owns_all_def list_all2_Cons1)

lemma shared_poll_owns:
  assumes "job_laws ops vw" "owns ops vw s a n" "shared_poll ops wops ctx a s = (r, s')"
  shows "owns ops vw s' a n \<and> keeps vw s s' (- {a}) \<and> (is_ready r \<longrightarrow> n \<in> over vw (backend s'))"
proof -
  from assms(2) obtain c where c: "cells s a = Some c" "strong c = 1" "a < next_cell s"
    and st: "stands_for ops vw n (backend s) (joinee c)" by (auto simp: owns_def)
  obtain y h w where p: "handle_poll ops (joinee c) (backend s) = (y, h, w)"
    by (cases "handle_poll ops (joinee c) (backend s)")
  from handle_poll_stands [OF assms(1) st p] assms(3) c p show ?thesis
    by (auto simp: shared_poll_def update_cell_def owns_def keeps_def split: if_splits)
qed

lemma shared_wake_keeps:
  "cells (shared_wake wops a s) b =
     (if a = b then map_option (\<lambda>c. c\<lparr>cell_waker := snd (aw_wake wops (cell_waker c))\<rparr>) (cells s a) else cells s b)"
  "backend (shared_wake wops a s) = backend s" "next_cell (shared_wake wops a s) = next_cell s"
  by (auto simp: shared_wake_def update_cell_def split: option.split prod.split)

lemma shared_abort_owns:
  assumes "job_laws ops vw" "owns ops vw s a n"
  shows "owns ops vw (shared_abort ops wops a s) a n \<and> keeps vw s (shared_abort ops wops a s) (- {a})"
proof -
  from assms(2) obtain c where c: "cells s a = Some c" "strong c = 1" "a < next_cell s"
    and st: "stands_for ops vw n (backend s) (joinee c)" by (auto simp: owns_def)
  obtain h w where p: "handle_abort ops (joinee c) (backend s) = (h, w)"
    by (cases "handle_abort ops (joinee c) (backend s)")
  from handle_abort_stands [OF assms(1) st p] c p show ?thesis
    by (auto simp: shared_abort_def shared_wake_keeps update_cell_def owns_def keeps_def)
qed

lemma shared_drop_owns:
  assumes "job_laws ops vw" "owns ops vw s a n"
  shows "keeps vw s (shared_drop ops a s) (- {a}) \<and>
    n \<in> over vw (backend (shared_drop ops a s)) \<union> asked vw (backend (shared_drop ops a s))"
proof -
  from assms(2) obtain c where c: "cells s a = Some c" "strong c = 1"
    and st: "stands_for ops vw n (backend s) (joinee c)" by (auto simp: owns_def)
  obtain h w where p: "handle_abort ops (joinee c) (backend s) = (h, w)"
    by (cases "handle_abort ops (joinee c) (backend s)")
  have "grows vw w (handle_drop ops h w)" by (rule handle_drop_grows [OF assms(1)])
  with handle_abort_stands [OF assms(1) st p] c p show ?thesis
    by (auto simp: shared_drop_def keeps_def grows_def)
qed

lemma fold_drop_owns:
  assumes "job_laws ops vw"
  shows "owns_all ops vw s hs ns \<Longrightarrow> s' = fold (shared_drop ops) hs s \<Longrightarrow>
    grows vw (backend s) (backend s') \<and> set ns \<subseteq> over vw (backend s') \<union> asked vw (backend s')"
proof (induction hs arbitrary: s ns)
  case (Cons a as)
  then obtain n ns' where ns: "ns = n # ns'" "owns ops vw s a n" "a \<notin> set as" "owns_all ops vw s as ns'"
    by (auto simp: owns_all_Cons)
  note D = shared_drop_owns [OF assms ns(2)]
  then have "keeps vw s (shared_drop ops a s) (set as)" using ns(3) by (auto elim: keeps_mono)
  from Cons.IH [OF owns_all_keeps [OF ns(4) this]] Cons.prems(2) D ns(1) show ?case
    by (auto simp: grows_def keeps_def)
qed (simp add: owns_all_def)

lemma fold_abort_owns:
  assumes "job_laws ops vw"
  shows "owns_all ops vw s hs ns \<Longrightarrow>
    owns_all ops vw (fold (shared_abort ops wops) hs s) hs ns \<and>
    keeps vw s (fold (shared_abort ops wops) hs s) (- set hs)"
proof (induction hs arbitrary: s ns)
  case (Cons a as)
  then obtain n ns' where ns: "ns = n # ns'" "owns ops vw s a n" "a \<notin> set as" "owns_all ops vw s as ns'"
    by (auto simp: owns_all_Cons)
  let ?s = "shared_abort ops wops a s"
  note A = shared_abort_owns [OF assms ns(2), of wops]
  then have "keeps vw s ?s (set as)" using ns(3) by (auto elim: keeps_mono)
  from Cons.IH [OF owns_all_keeps [OF ns(4) this]]
  have I: "owns_all ops vw (fold (shared_abort ops wops) as ?s) as ns'"
    "keeps vw ?s (fold (shared_abort ops wops) as ?s) (- set as)" by simp_all
  from A I(2) ns(3) have "owns ops vw (fold (shared_abort ops wops) as ?s) a n"
    by (auto intro: owns_keeps)
  moreover have "keeps vw s (fold (shared_abort ops wops) as ?s) (- set (a # as))"
    using A I(2) by (auto intro: keeps_trans elim: keeps_mono)
  ultimately show ?case using I(1) ns by (simp add: owns_all_Cons)
qed (simp add: owns_all_def)

lemma scope_exec_drop_aborts:
  assumes "job_laws ops vw" "owns_all ops vw (refs s) (task_handles s) ns"
  shows "grows vw (backend (refs s)) (backend (refs (scope_exec_drop ops wops s))) \<and>
    set ns \<subseteq> over vw (backend (refs (scope_exec_drop ops wops s))) \<union>
      asked vw (backend (refs (scope_exec_drop ops wops s)))"
proof -
  let ?m = "fold (shared_abort ops wops) (task_handles s) (refs s)"
  from fold_abort_owns [OF assms, of wops]
  have m: "owns_all ops vw ?m (task_handles s) ns" "grows vw (backend (refs s)) (backend ?m)"
    by (auto simp: keeps_def)
  from fold_drop_owns [OF assms(1) m(1) refl] m(2) show ?thesis
    by (auto simp: scope_exec_drop_def drop_refs_def abort_all_def intro: grows_trans)
qed

section \<open>The states of a scope\<close>

text \<open>The executor that is wrapped starts the task it is given and answers with a handle of it.\<close>

definition spawn_laws ::
  "('t, 'c, 'x, 's, 'b, 'o, 'a, 'w) task_ops \<Rightarrow> ('t, 'c, 'x, 's, 'b, 'o, 'n, 'w) job_view \<Rightarrow>
   ('f, 'tt, 'o, 'b, 'w) block_ops \<Rightarrow> ('tt \<Rightarrow> 'w \<Rightarrow> ('t, 'c, 'x, 's, 'b, 'o, 'a) join_handle \<times> 'w) \<Rightarrow> bool" where
  "spawn_laws ops vw bops spawn \<longleftrightarrow>
     (\<forall>f w. grows vw w (snd (bk_make bops f w))) \<and>
     (\<forall>b w h w'. spawn b w = (h, w') \<longrightarrow> (\<exists>n. stands_for ops vw n w' h \<and>
        over vw w \<subseteq> over vw w' \<and> asked vw w \<subseteq> asked vw w' \<and> spawned vw w' = spawned vw w @ [n]))"

text \<open>
  What can happen while the user's future runs: a task is spawned through the scope, or other code
  runs, which cannot reach the references of the scope.
\<close>

inductive scope_use ::
  "('t, 'c, 'x, 's, 'b, 'o, 'n, 'w) job_view \<Rightarrow> 'aw \<Rightarrow> ('f, 'tt, 'o, 'b, 'w) block_ops \<Rightarrow>
   ('tt \<Rightarrow> 'w \<Rightarrow> ('t, 'c, 'x, 's, 'b, 'o, 'a) join_handle \<times> 'w) \<Rightarrow>
   ('t, 'c, 'x, 's, 'b, 'o, 'a, 'aw, 'w) exec_state \<Rightarrow> ('t, 'c, 'x, 's, 'b, 'o, 'a, 'aw, 'w) exec_state \<Rightarrow> bool"
  for vw aw bops spawn where
  tracked: "scope_use vw aw bops spawn s (snd (spawn_tracked aw bops spawn f s))"
| elsewhere: "task_handles s' = task_handles s \<Longrightarrow> keeps vw (refs s) (refs s') (set (task_handles s)) \<Longrightarrow>
    scope_use vw aw bops spawn s s'"
| again: "scope_use vw aw bops spawn s s1 \<Longrightarrow> scope_use vw aw bops spawn s1 s2 \<Longrightarrow>
    scope_use vw aw bops spawn s s2"

definition tracked_all ::
  "('t, 'c, 'x, 's, 'b, 'o, 'a, 'w) task_ops \<Rightarrow> ('t, 'c, 'x, 's, 'b, 'o, 'n, 'w) job_view \<Rightarrow>
   ('t, 'c, 'x, 's, 'b, 'o, 'a, 'aw, 'w) exec_state \<Rightarrow> bool" where
  "tracked_all ops vw s \<longleftrightarrow> owns_all ops vw (refs s) (task_handles s) (spawned vw (backend (refs s)))"

lemma spawn_tracked_all:
  assumes "spawn_laws ops vw bops spawn" "tracked_all ops vw s"
  shows "tracked_all ops vw (snd (spawn_tracked aw bops spawn f s))"
proof -
  obtain block rx ab fl w where m: "bk_make bops f (backend (refs s)) = ((block, rx, ab, fl), w)"
    by (metis prod_cases4 surj_pair)
  obtain h w' where sp: "spawn block w = (h, w')" by (cases "spawn block w")
  let ?s = "snd (spawn_tracked aw bops spawn f s)"
  from assms(1) m have g: "grows vw (backend (refs s)) w" unfolding spawn_laws_def by (metis snd_conv)
  from assms(1) sp obtain n where n: "stands_for ops vw n w' h" "over vw w \<subseteq> over vw w'"
    "asked vw w \<subseteq> asked vw w'" "spawned vw w' = spawned vw w @ [n]"
    unfolding spawn_laws_def by blast
  have r: "refs ?s = (refs s)\<lparr>cells := (cells (refs s))(next_cell (refs s) \<mapsto>
      \<lparr>joinee = h, cell_waker = aw, strong = 1\<rparr>), next_cell := Suc (next_cell (refs s)), backend := w'\<rparr>"
    and th: "task_handles ?s = task_handles s @ [next_cell (refs s)]"
    using m sp by (simp_all add: spawn_tracked_def spawn_abortable_def shared_from_def)
  let ?ns = "spawned vw (backend (refs s))"
  have own: "list_all2 (owns ops vw (refs s)) (task_handles s) ?ns" "distinct (task_handles s)"
    using assms(2) by (auto simp: tracked_all_def owns_all_def)
  have old: "owns ops vw (refs ?s) a k" if "owns ops vw (refs s) a k" for a k
  proof -
    from that obtain c where c: "cells (refs s) a = Some c" "strong c = 1" "a < next_cell (refs s)"
      "stands_for ops vw k (backend (refs s)) (joinee c)" by (auto simp: owns_def)
    from c(4) g n(2,3) have "stands_for ops vw k w' (joinee c)"
      by (cases "(ops, vw, k, w, joinee c)" rule: stands_for.cases) (auto simp: grows_def)
    with c r show ?thesis by (auto simp: owns_def)
  qed
  have "list_all2 (owns ops vw (refs ?s)) (task_handles s) ?ns"
    using own(1) by (rule list.rel_mono_strong) (rule old)
  moreover have "owns ops vw (refs ?s) (next_cell (refs s)) n" using r n(1) by (simp add: owns_def)
  moreover have "next_cell (refs s) \<notin> set (task_handles s)"
    using own(1) by (auto simp: owns_def list_all2_conv_all_nth in_set_conv_nth)
  ultimately show ?thesis
    using own(2) th r n(4) g by (simp add: tracked_all_def owns_all_def list_all2_appendI grows_def)
qed

lemma scope_use_tracked:
  assumes "spawn_laws ops vw bops spawn"
  shows "scope_use vw aw bops spawn s s' \<Longrightarrow> tracked_all ops vw s \<Longrightarrow> tracked_all ops vw s'"
proof (induction rule: scope_use.induct)
  case (tracked s f)
  with assms show ?case by (rule spawn_tracked_all)
next
  case (elsewhere s' s)
  then have "owns_all ops vw (refs s') (task_handles s) (spawned vw (backend (refs s)))"
    by (auto simp: tracked_all_def intro: owns_all_keeps)
  with elsewhere show ?case by (simp add: tracked_all_def keeps_def grows_def)
qed simp

text \<open>What a future of \<open>executor_scope\<close> holds, and the states it reaches.\<close>

fun held :: "('f, 'r) exec_future \<Rightarrow> ('h, 'aw, 'w) scope_exec \<Rightarrow> nat set" where
  "held (ExecJoining r hs) s = set hs"
| "held fut s = set (task_handles s)"

definition exec_user_laws where
  "exec_user_laws vw aw bops spawn user drop_user \<longleftrightarrow>
     (\<forall>ctx f s r f' s'. user ctx f s = (r, f', s') \<longrightarrow> scope_use vw aw bops spawn s s') \<and>
     (\<forall>f s. scope_use vw aw bops spawn s (drop_user f s))"

inductive exec_reach ::
  "(nat \<Rightarrow> 'f \<Rightarrow> ('t, 'c, 'x, 's, 'b, 'o, 'a, 'aw, 'w) exec_state \<Rightarrow>
     'r poll outcome \<times> 'f \<times> ('t, 'c, 'x, 's, 'b, 'o, 'a, 'aw, 'w) exec_state) \<Rightarrow>
   ('t, 'c, 'x, 's, 'b, 'o, 'a, 'w) task_ops \<Rightarrow> 'aw waker_ops \<Rightarrow>
   ('t, 'c, 'x, 's, 'b, 'o, 'n, 'w) job_view \<Rightarrow> ('f, 'r) exec_future \<Rightarrow>
   ('t, 'c, 'x, 's, 'b, 'o, 'a, 'aw, 'w) exec_state \<Rightarrow> bool"
  for user ops wops vw where
  start: "spawned vw (backend st) = [] \<Longrightarrow>
    exec_reach user ops wops vw (ExecRunning f) (scope_exec_new st)"
| other: "exec_reach user ops wops vw fut s \<Longrightarrow> task_handles s' = task_handles s \<Longrightarrow>
    keeps vw (refs s) (refs s') (held fut s) \<Longrightarrow> exec_reach user ops wops vw fut s'"
| polled: "exec_reach user ops wops vw fut s \<Longrightarrow>
    exec_scope_poll user ops wops ctx fut s = (Returned Pending, fut', s') \<Longrightarrow>
    exec_reach user ops wops vw fut' s'"

fun exec_inv ::
  "('t, 'c, 'x, 's, 'b, 'o, 'a, 'w) task_ops \<Rightarrow> ('t, 'c, 'x, 's, 'b, 'o, 'n, 'w) job_view \<Rightarrow>
   ('f, 'r) exec_future \<Rightarrow> ('t, 'c, 'x, 's, 'b, 'o, 'a, 'aw, 'w) exec_state \<Rightarrow> bool" where
  "exec_inv ops vw (ExecRunning f) s = tracked_all ops vw s"
| "exec_inv ops vw (ExecJoining r hs) s =
     (task_handles s = [] \<and> (\<exists>dn ns. spawned vw (backend (refs s)) = dn @ ns \<and>
        set dn \<subseteq> over vw (backend (refs s)) \<and> owns_all ops vw (refs s) hs ns))"
| "exec_inv ops vw ExecOver s = False"

lemma join_handles_inv:
  assumes "job_laws ops vw"
  shows "owns_all ops vw st hs ns \<Longrightarrow> join_handles ops wops ctx hs st = (hs', st') \<Longrightarrow>
    grows vw (backend st) (backend st') \<and>
    (\<exists>dn ns'. ns = dn @ ns' \<and> set dn \<subseteq> over vw (backend st') \<and> owns_all ops vw st' hs' ns')"
proof (induction hs arbitrary: st ns)
  case (Cons a as)
  then obtain n ns1 where ns: "ns = n # ns1" "owns ops vw st a n" "a \<notin> set as" "owns_all ops vw st as ns1"
    by (auto simp: owns_all_Cons)
  obtain r s1 where p: "shared_poll ops wops ctx a st = (r, s1)" by (cases "shared_poll ops wops ctx a st")
  note P = shared_poll_owns [OF assms ns(2) p]
  then have k: "keeps vw st s1 (set as)" using ns(3) by (auto elim: keeps_mono)
  note own1 = owns_all_keeps [OF ns(4) k]
  show ?case
  proof (cases r)
    case Pending
    with Cons.prems(2) p have "hs' = a # as" "st' = s1" by simp_all
    moreover have "owns_all ops vw s1 (a # as) ns" using P ns own1 by (auto simp: owns_all_Cons)
    ultimately show ?thesis using keepsD [OF k] by (intro conjI exI [of _ "[]"] exI [of _ ns]) auto
  next
    case (Ready x)
    with P have n: "n \<in> over vw (backend s1)" and o: "owns ops vw s1 a n" by simp_all
    let ?s2 = "shared_drop ops a s1"
    note D = shared_drop_owns [OF assms o]
    then have k2: "keeps vw s1 ?s2 (set as)" using ns(3) by (auto elim: keeps_mono)
    have "join_handles ops wops ctx as ?s2 = (hs', st')" using Cons.prems(2) p Ready by simp
    from Cons.IH [OF owns_all_keeps [OF own1 k2] this] obtain dn ns' where
      I: "grows vw (backend ?s2) (backend st')" "ns1 = dn @ ns'" "set dn \<subseteq> over vw (backend st')"
        "owns_all ops vw st' hs' ns'" by blast
    have g: "grows vw (backend s1) (backend st')" using keepsD [OF k2] I(1) by (rule grows_trans)
    moreover have "grows vw (backend st) (backend st')" using keepsD [OF k] g by (rule grows_trans)
    moreover have "set (n # dn) \<subseteq> over vw (backend st')" using n I(3) g by (auto simp: grows_def)
    ultimately show ?thesis using ns(1) I(2,4) by (intro conjI exI [of _ "n # dn"] exI [of _ ns']) simp_all
  qed
qed (auto simp: owns_all_def)

lemma join_stage_inv:
  assumes "job_laws ops vw" "task_handles s = []"
    and sp: "spawned vw (backend (refs s)) = dn @ ns" "set dn \<subseteq> over vw (backend (refs s))"
      "owns_all ops vw (refs s) hs ns"
    and j: "join_stage ops wops ctx r hs s = (x, fut, s')"
  shows "(x = Returned Pending \<and> exec_inv ops vw fut s') \<or>
    (x = Returned (Ready r) \<and> set (spawned vw (backend (refs s'))) \<subseteq> over vw (backend (refs s')))"
proof -
  obtain hs' st where h: "join_handles ops wops ctx hs (refs s) = (hs', st)"
    by (cases "join_handles ops wops ctx hs (refs s)")
  from join_handles_inv [OF assms(1) sp(3) h] obtain dn' ns' where
    I: "grows vw (backend (refs s)) (backend st)" "ns = dn' @ ns'" "set dn' \<subseteq> over vw (backend st)"
      "owns_all ops vw st hs' ns'" by blast
  have all: "spawned vw (backend st) = (dn @ dn') @ ns'" "set (dn @ dn') \<subseteq> over vw (backend st)"
    using I(1-3) sp(1,2) by (auto simp: grows_def)
  show ?thesis
  proof (cases hs')
    case Nil
    with I(4) have "ns' = []" by (simp add: owns_all_def)
    with Nil all h j assms(2) show ?thesis
      by (auto simp: join_stage_def scope_exec_drop_def drop_refs_def abort_all_def)
  next
    case (Cons a as)
    then have "x = Returned Pending" "fut = ExecJoining r (a # as)" "s' = s\<lparr>refs := st\<rparr>"
      using h j by (simp_all add: join_stage_def)
    moreover have "exec_inv ops vw (ExecJoining r (a # as)) (s\<lparr>refs := st\<rparr>)"
      using assms(2) all I(4) Cons by (simp, intro exI [of _ "dn @ dn'"] exI [of _ ns']) simp
    ultimately show ?thesis by simp
  qed
qed

lemma exec_poll_inv:
  assumes laws: "job_laws ops vw" "spawn_laws ops vw bops spawn"
    "exec_user_laws vw aw bops spawn user drop_user"
    and inv: "exec_inv ops vw fut s"
    and p: "exec_scope_poll user ops wops ctx fut s = (x, fut', s')"
  shows "(x = Returned Pending \<and> exec_inv ops vw fut' s') \<or>
    (\<exists>r. x = Returned (Ready r) \<and> set (spawned vw (backend (refs s'))) \<subseteq> over vw (backend (refs s'))) \<or>
    (x = Unwound \<and> set (spawned vw (backend (refs s'))) \<subseteq>
       over vw (backend (refs s')) \<union> asked vw (backend (refs s')))"
proof (cases fut)
  case (ExecRunning f)
  obtain y f1 s1 where u: "user ctx f s = (y, f1, s1)" by (cases "user ctx f s")
  with laws(3) have "scope_use vw aw bops spawn s s1" unfolding exec_user_laws_def by blast
  then have t: "tracked_all ops vw s1" using inv ExecRunning scope_use_tracked [OF laws(2)] by auto
  then have o: "owns_all ops vw (refs s1) (task_handles s1) (spawned vw (backend (refs s1)))"
    by (simp add: tracked_all_def)
  consider "y = Unwound" | "y = Returned Pending" | r where "y = Returned (Ready r)"
    by (metis outcome.exhaust poll.exhaust)
  then show ?thesis
  proof cases
    case 1
    with p u ExecRunning have "x = Unwound" "s' = scope_exec_drop ops wops s1" by simp_all
    with scope_exec_drop_aborts [OF laws(1) o, of wops] show ?thesis by (simp add: grows_def)
  next
    case 2
    with p u ExecRunning t show ?thesis by auto
  next
    case (3 r)
    let ?s = "s1\<lparr>task_handles := []\<rparr>"
    have "join_stage ops wops ctx r (task_handles s1) ?s = (x, fut', s')" using p u ExecRunning 3 by simp
    from join_stage_inv [OF laws(1) _ _ _ _ this, of "[]" "spawned vw (backend (refs s1))"] o
    show ?thesis by auto
  qed
next
  case (ExecJoining r hs)
  with inv obtain dn ns where "task_handles s = []" "spawned vw (backend (refs s)) = dn @ ns"
    "set dn \<subseteq> over vw (backend (refs s))" "owns_all ops vw (refs s) hs ns" by auto
  note J = join_stage_inv [OF laws(1) this, of wops ctx r x fut' s']
  have "join_stage ops wops ctx r hs s = (x, fut', s')" using p ExecJoining by simp
  from J [OF this] show ?thesis by auto
qed (use inv in simp)

lemma exec_reach_inv:
  assumes "job_laws ops vw" "spawn_laws ops vw bops spawn" "exec_user_laws vw aw bops spawn user drop_user"
  shows "exec_reach user ops wops vw fut s \<Longrightarrow> exec_inv ops vw fut s"
proof (induction rule: exec_reach.induct)
  case (start st f)
  then show ?case by (simp add: tracked_all_def scope_exec_new_def owns_all_def)
next
  case (other fut s s')
  then show ?case
    by (cases fut) (fastforce simp: tracked_all_def keeps_def grows_def intro: owns_all_keeps)+
next
  case (polled fut s ctx fut' s')
  from exec_poll_inv [OF assms polled.IH polled.hyps(2)] show ?case by simp
qed

text \<open>
  C30: \<open>executor_scope\<close> waits for its tasks. Whatever else runs between the polls of its future, when it
  gives its result every task that was spawned through the scope is over.
\<close>

theorem executor_scope_joins:
  assumes "job_laws ops vw" and "spawn_laws ops vw bops spawn"
    and "exec_user_laws vw aw bops spawn user drop_user"
    and "exec_reach user ops wops vw fut s"
    and "exec_scope_poll user ops wops ctx fut s = (Returned (Ready r), fut', s')"
  shows "set (spawned vw (backend (refs s'))) \<subseteq> over vw (backend (refs s'))"
  using exec_poll_inv [OF assms(1-3) exec_reach_inv [OF assms(1-3) assms(4)] assms(5)] by simp

text \<open>
  C31: dropping the future of \<open>executor_scope\<close> at any \<open>await\<close> leaves no task of the scope behind, and so
  does a panic of the user's future: every task that was spawned through the scope is over or its abort
  was requested.
\<close>

theorem executor_scope_drop_aborts:
  assumes "job_laws ops vw" and "spawn_laws ops vw bops spawn"
    and "exec_user_laws vw aw bops spawn user drop_user"
    and "exec_reach user ops wops vw fut s"
    and "s' = exec_scope_drop drop_user ops wops fut s \<or>
      (Unwound, fut', s') = exec_scope_poll user ops wops ctx fut s"
  shows "set (spawned vw (backend (refs s'))) \<subseteq> over vw (backend (refs s')) \<union> asked vw (backend (refs s'))"
proof -
  have inv: "exec_inv ops vw fut s" by (rule exec_reach_inv [OF assms(1-4)])
  from assms(5) show ?thesis
  proof
    assume d: "s' = exec_scope_drop drop_user ops wops fut s"
    show ?thesis
    proof (cases fut)
      case (ExecRunning f)
      have "scope_use vw aw bops spawn s (drop_user f s)" using assms(3) by (simp add: exec_user_laws_def)
      with inv ExecRunning have "tracked_all ops vw (drop_user f s)"
        using scope_use_tracked [OF assms(2)] by auto
      then have "owns_all ops vw (refs (drop_user f s)) (task_handles (drop_user f s))
          (spawned vw (backend (refs (drop_user f s))))" by (simp add: tracked_all_def)
      from scope_exec_drop_aborts [OF assms(1) this, of wops] d ExecRunning show ?thesis
        by (simp add: grows_def)
    next
      case (ExecJoining r hs)
      with inv obtain dn ns where n: "task_handles s = []" "spawned vw (backend (refs s)) = dn @ ns"
        "set dn \<subseteq> over vw (backend (refs s))" "owns_all ops vw (refs s) hs ns" by auto
      have "refs s' = fold (shared_drop ops) hs (refs s)"
        using d ExecJoining n(1) by (simp add: scope_exec_drop_def drop_refs_def abort_all_def)
      from fold_drop_owns [OF assms(1) n(4) this] n(2,3) show ?thesis by (auto simp: grows_def)
    qed (use inv in simp)
  next
    assume "(Unwound, fut', s') = exec_scope_poll user ops wops ctx fut s"
    from exec_poll_inv [OF assms(1-3) inv this [symmetric]] show ?thesis by simp
  qed
qed

text \<open>A world of numbered tasks: those spawned, those over, those asked to end.\<close>

type_synonym shed = "nat list \<times> nat set \<times> nat set"

type_synonym shed_state = "(nat, nat, nat, nat, nat, nat, unit, nat option, shed) exec_state"

definition ask_shed :: "nat \<Rightarrow> shed \<Rightarrow> shed" where
  "ask_shed n w = (fst w, fst (snd w), insert n (snd (snd w)))"

definition look_shed :: "'v \<Rightarrow> nat \<Rightarrow> shed \<Rightarrow> 'v poll \<times> nat \<times> shed" where
  "look_shed v n w = (if n \<in> fst (snd w) then Ready v else Pending, n, w)"

definition shed_ops :: "(nat, nat, nat, nat, nat, nat, unit, shed) task_ops" where
  "shed_ops = \<lparr>
     tk_poll = look_shed (Inr ()), tk_some = (\<lambda>t. True), tk_is_finished = (\<lambda>t w. t \<in> fst (snd w)),
     tk_abort = ask_shed, co_poll = look_shed (Inr ()), co_is_finished = (\<lambda>c w. c \<in> fst (snd w)),
     co_cancel = (\<lambda>c w. (c, ask_shed c w)), co_detach = (\<lambda>c w. w), cx_poll = look_shed None,
     sm_poll = look_shed None, sm_some = (\<lambda>s. True), sm_is_finished = (\<lambda>s w. s \<in> fst (snd w)),
     sm_detach = (\<lambda>s w. w), ab_abort = ask_shed, cu_poll = look_shed (Inr (Inr ())),
     cu_none = (\<lambda>p. False), flag_set = (\<lambda>n w. n \<in> fst (snd w))\<rparr>"

definition shed_view :: "(nat, nat, nat, nat, nat, nat, nat, shed) job_view" where
  "shed_view = \<lparr>of_tokio = (\<lambda>n. n), of_compio = (\<lambda>n. n), of_cancel = (\<lambda>n. n), of_smol = (\<lambda>n. n),
     of_abort = (\<lambda>n. n), of_receiver = (\<lambda>n. n), over = (\<lambda>w. fst (snd w)), asked = (\<lambda>w. snd (snd w)),
     spawned = fst\<rparr>"

definition shed_blocks :: "(nat, nat, nat, nat, shed) block_ops" where
  "shed_blocks = \<lparr>bk_make = (\<lambda>f w. ((f, f, f, f), w)), bk_drop = (\<lambda>t w. w)\<rparr>"

definition shed_spawn :: "nat \<Rightarrow> shed \<Rightarrow> (nat, nat, nat, nat, nat, nat, unit) join_handle \<times> shed" where
  "shed_spawn b w = (CustomHandle b b b, (fst w @ [b], snd w))"

text \<open>A user who spawns tasks f, ..., 1, one per poll, and answers 9.\<close>

definition shed_user :: "nat \<Rightarrow> nat \<Rightarrow> shed_state \<Rightarrow> nat poll outcome \<times> nat \<times> shed_state" where
  "shed_user ctx f s = (if f = 0 then (Returned (Ready 9), 0, s)
     else (Returned Pending, f - 1, snd (spawn_tracked None shed_blocks shed_spawn f s)))"

lemma shed_laws:
  "job_laws shed_ops shed_view" "spawn_laws shed_ops shed_view shed_blocks shed_spawn"
  "exec_user_laws shed_view None shed_blocks shed_spawn shed_user (\<lambda>f s. s)"
proof -
  show "job_laws shed_ops shed_view"
    by (auto simp: job_laws_def poll_law_def abort_law_def grows_def shed_ops_def shed_view_def
        look_shed_def ask_shed_def)
  show "spawn_laws shed_ops shed_view shed_blocks shed_spawn"
    by (auto simp: spawn_laws_def grows_def shed_view_def shed_blocks_def shed_spawn_def)
  have same: "scope_use shed_view None shed_blocks shed_spawn s s" for s
    by (rule scope_use.elsewhere) simp_all
  then show "exec_user_laws shed_view None shed_blocks shed_spawn shed_user (\<lambda>f s. s)"
    by (auto simp: exec_user_laws_def shed_user_def intro: scope_use.tracked split: if_splits)
qed

definition shed_at :: "shed \<Rightarrow> shed_state" where
  "shed_at w = \<lparr>refs = \<lparr>cells = [0 \<mapsto> \<lparr>joinee = CustomHandle 1 1 1, cell_waker = None, strong = 1\<rparr>],
     next_cell = 1, woken = [], backend = w\<rparr>, task_handles = [0]\<rparr>"

lemma shed_reach:
  "exec_reach shed_user shed_ops slot_waker shed_view (ExecRunning 0 :: (nat, nat) exec_future)
     (shed_at ([1], A, {}))"
proof -
  let ?st = "\<lparr>cells = (\<lambda>a. None), next_cell = 0, woken = [], backend = ([], {}, {})\<rparr>"
  have "exec_reach shed_user shed_ops slot_waker shed_view (ExecRunning 1 :: (nat, nat) exec_future)
      (scope_exec_new ?st)"
    by (rule exec_reach.start) (simp add: shed_view_def)
  moreover have "exec_scope_poll shed_user shed_ops slot_waker 5 (ExecRunning 1 :: (nat, nat) exec_future)
      (scope_exec_new ?st) = (Returned Pending, ExecRunning 0, shed_at ([1], {}, {}))"
    by (simp add: shed_user_def spawn_tracked_def shed_blocks_def shed_spawn_def spawn_abortable_def
        shared_from_def scope_exec_new_def shed_at_def)
  ultimately have "exec_reach shed_user shed_ops slot_waker shed_view
      (ExecRunning 0 :: (nat, nat) exec_future) (shed_at ([1], {}, {}))"
    by (rule exec_reach.polled)
  then show ?thesis
    by (rule exec_reach.other) (simp_all add: keeps_def shed_at_def grows_def shed_view_def)
qed

theorem executor_scope_joins_witness:
  "\<exists>s'. exec_scope_poll shed_user shed_ops slot_waker 5 (ExecRunning 0 :: (nat, nat) exec_future)
      (shed_at ([1], {1}, {})) = (Returned (Ready 9), ExecOver, s') \<and>
    set (spawned shed_view (backend (refs s'))) \<subseteq> over shed_view (backend (refs s'))"
proof -
  obtain s' where p: "exec_scope_poll shed_user shed_ops slot_waker 5 (ExecRunning 0 :: (nat, nat) exec_future)
      (shed_at ([1], {1}, {})) = (Returned (Ready 9), ExecOver, s')"
    by (simp add: shed_user_def join_stage_def shed_at_def shared_poll_def shed_ops_def look_shed_def
        update_cell_def)
  from executor_scope_joins [OF shed_laws shed_reach p] p show ?thesis by blast
qed

theorem executor_scope_drop_aborts_witness:
  "set (spawned shed_view (backend (refs (exec_scope_drop (\<lambda>f s. s) shed_ops slot_waker
      (ExecRunning 0 :: (nat, nat) exec_future) (shed_at ([1], {}, {})))))) \<subseteq>
    over shed_view (backend (refs (exec_scope_drop (\<lambda>f s. s) shed_ops slot_waker
      (ExecRunning 0 :: (nat, nat) exec_future) (shed_at ([1], {}, {}))))) \<union>
    asked shed_view (backend (refs (exec_scope_drop (\<lambda>f s. s) shed_ops slot_waker
      (ExecRunning 0 :: (nat, nat) exec_future) (shed_at ([1], {}, {})))))"
  by (rule executor_scope_drop_aborts [OF shed_laws shed_reach [of "{}"] disjI1 [OF refl]])

end
