(* ===== verification/Tracker.thy ===== *)
theory Tracker
  imports Prelude
begin

text \<open>
  \<open>TrackerExecutor\<close> of \<open>src/src/tracker.rs\<close>: an executor that counts the futures and blocking closures
  it handed to the executor it wraps and that still exist. The counter is a shared \<open>AtomicUsize\<close>, here
  a 64-bit word that wraps; it is part of the state next to the state \<open>'w\<close> of everything else. What the
  wrapped executor does with a job it owns is a sequence of polls of a future, at most one call of a
  closure, and at most one drop, which is all that ownership lets it do.
\<close>

section \<open>State\<close>

record 'w tracked =
  counter :: u64
  untracked :: 'w

datatype 'f future_counter = FutureCounter 'f

datatype 'b counted_closure = CountedClosure 'b

definition fetch_add_one :: "'w tracked \<Rightarrow> 'w tracked" where
  "fetch_add_one s = s\<lparr>counter := counter s + 1\<rparr>"

definition fetch_sub_one :: "'w tracked \<Rightarrow> 'w tracked" where
  "fetch_sub_one s = s\<lparr>counter := counter s - 1\<rparr>"

definition tracker_new :: "'w \<Rightarrow> 'w tracked" where
  "tracker_new w = \<lparr>counter = 0, untracked = w\<rparr>"

definition tracker_count :: "'w tracked \<Rightarrow> u64" where
  "tracker_count s = counter s"

section \<open>Counted futures and closures\<close>

definition future_counter_new :: "'f \<Rightarrow> 'w tracked \<Rightarrow> 'f future_counter \<times> 'w tracked" where
  "future_counter_new f s = (FutureCounter f, fetch_add_one s)"

fun future_counter_poll ::
  "('f \<Rightarrow> 'w \<Rightarrow> 'a poll outcome \<times> 'f \<times> 'w) \<Rightarrow> 'f future_counter \<Rightarrow> 'w tracked \<Rightarrow>
   'a poll outcome \<times> 'f future_counter \<times> 'w tracked" where
  "future_counter_poll poll (FutureCounter f) s =
     (case poll f (untracked s) of (r, f', w) \<Rightarrow> (r, FutureCounter f', s\<lparr>untracked := w\<rparr>))"

text \<open>\<open>Drop::drop\<close> runs before the future inside is dropped.\<close>

fun future_counter_drop ::
  "('f \<Rightarrow> 'w \<Rightarrow> 'w) \<Rightarrow> 'f future_counter \<Rightarrow> 'w tracked \<Rightarrow> 'w tracked" where
  "future_counter_drop dropf (FutureCounter f) s =
     (let s1 = fetch_sub_one s in s1\<lparr>untracked := dropf f (untracked s1)\<rparr>)"

definition counted_closure_new :: "'b \<Rightarrow> 'w tracked \<Rightarrow> 'b counted_closure \<times> 'w tracked" where
  "counted_closure_new f s = (CountedClosure f, fetch_add_one s)"

text \<open>The guard goes after the call, also when the call unwinds.\<close>

fun counted_closure_call ::
  "('b \<Rightarrow> 'w \<Rightarrow> 'r outcome \<times> 'w) \<Rightarrow> 'b counted_closure \<Rightarrow> 'w tracked \<Rightarrow> 'r outcome \<times> 'w tracked" where
  "counted_closure_call call (CountedClosure f) s =
     (case call f (untracked s) of (r, w) \<Rightarrow> (r, fetch_sub_one (s\<lparr>untracked := w\<rparr>)))"

fun counted_closure_drop ::
  "('b \<Rightarrow> 'w \<Rightarrow> 'w) \<Rightarrow> 'b counted_closure \<Rightarrow> 'w tracked \<Rightarrow> 'w tracked" where
  "counted_closure_drop dropf (CountedClosure f) s =
     (let s1 = fetch_sub_one s in s1\<lparr>untracked := dropf f (untracked s1)\<rparr>)"

section \<open>The executor\<close>

definition tracker_spawn ::
  "('f future_counter \<Rightarrow> 'w tracked \<Rightarrow> 'h \<times> 'w tracked) \<Rightarrow> 'f \<Rightarrow> 'w tracked \<Rightarrow> 'h \<times> 'w tracked" where
  "tracker_spawn spawn f s = (case future_counter_new f s of (c, s1) \<Rightarrow> spawn c s1)"

definition tracker_spawn_blocking ::
  "('b counted_closure \<Rightarrow> 'w tracked \<Rightarrow> 'h \<times> 'w tracked) \<Rightarrow> 'b \<Rightarrow> 'w tracked \<Rightarrow> 'h \<times> 'w tracked" where
  "tracker_spawn_blocking spawn f s = (case counted_closure_new f s of (c, s1) \<Rightarrow> spawn c s1)"

section \<open>What a wrapped executor does with its jobs\<close>

text \<open>The operations on the jobs of an executor; \<open>'f\<close> is a future, \<open>'b\<close> a blocking closure.\<close>

record ('f, 'b, 'a, 'r, 's) job_ops =
  jo_poll :: "'f \<Rightarrow> 's \<Rightarrow> 'a poll outcome \<times> 'f \<times> 's"
  jo_drop :: "'f \<Rightarrow> 's \<Rightarrow> 's"
  jo_call :: "'b \<Rightarrow> 's \<Rightarrow> 'r outcome \<times> 's"
  jo_discard :: "'b \<Rightarrow> 's \<Rightarrow> 's"

definition tracked_ops ::
  "('f, 'b, 'a, 'r, 'w) job_ops \<Rightarrow>
   ('f future_counter, 'b counted_closure, 'a, 'r, 'w tracked) job_ops" where
  "tracked_ops ops = \<lparr>jo_poll = future_counter_poll (jo_poll ops),
     jo_drop = future_counter_drop (jo_drop ops), jo_call = counted_closure_call (jo_call ops),
     jo_discard = counted_closure_drop (jo_discard ops)\<rparr>"

text \<open>An executor owns its jobs, each until it dropped it or called it.\<close>

datatype ('f, 'b) job = Task 'f | Closure 'b

type_synonym ('f, 'b, 's) pool = "('f, 'b) job option list \<times> 's"

datatype ('x, 'y) event = SpawnTask 'x | SpawnBlocking 'y | PollJob nat | CallJob nat | DropJob nat

datatype ('a, 'r) reply = Handle nat | Polled "'a poll outcome" | Called "'r outcome" | Silent

text \<open>
  One event of a pool. \<open>st\<close> and \<open>sb\<close> are the \<open>spawn\<close> and \<open>spawn_blocking\<close> that clients call, given
  what the pool itself does with a job.
\<close>

definition pool_add :: "('f, 'b) job \<Rightarrow> ('f, 'b, 's) pool \<Rightarrow> nat \<times> ('f, 'b, 's) pool" where
  "pool_add j p = (length (fst p), (fst p @ [Some j], snd p))"

fun pool_act ::
  "('f, 'b, 'a, 'r, 's) job_ops \<Rightarrow> ('x, 'y) event \<Rightarrow> ('f, 'b, 's) pool \<Rightarrow> ('a, 'r) reply \<times> ('f, 'b, 's) pool"
where
  "pool_act ops (PollJob i) (js, s) =
     (if i < length js then
        (case js ! i of
           Some (Task f) \<Rightarrow> (case jo_poll ops f s of (r, f', s') \<Rightarrow> (Polled r, (js[i := Some (Task f')], s')))
         | _ \<Rightarrow> (Silent, (js, s)))
      else (Silent, (js, s)))"
| "pool_act ops (CallJob i) (js, s) =
     (if i < length js then
        (case js ! i of
           Some (Closure b) \<Rightarrow> (case jo_call ops b s of (r, s') \<Rightarrow> (Called r, (js[i := None], s')))
         | _ \<Rightarrow> (Silent, (js, s)))
      else (Silent, (js, s)))"
| "pool_act ops (DropJob i) (js, s) =
     (if i < length js then
        (case js ! i of
           Some (Task f) \<Rightarrow> (Silent, (js[i := None], jo_drop ops f s))
         | Some (Closure b) \<Rightarrow> (Silent, (js[i := None], jo_discard ops b s))
         | None \<Rightarrow> (Silent, (js, s)))
      else (Silent, (js, s)))"
| "pool_act ops e p = (Silent, p)"

text \<open>A pool used directly.\<close>

fun plain_step ::
  "('f, 'b, 'a, 'r, 'w) job_ops \<Rightarrow> ('f, 'b) event \<Rightarrow> ('f, 'b, 'w) pool \<Rightarrow> ('a, 'r) reply \<times> ('f, 'b, 'w) pool"
where
  "plain_step ops (SpawnTask f) p = (case pool_add (Task f) p of (h, p') \<Rightarrow> (Handle h, p'))"
| "plain_step ops (SpawnBlocking b) p = (case pool_add (Closure b) p of (h, p') \<Rightarrow> (Handle h, p'))"
| "plain_step ops e p = pool_act ops e p"

text \<open>The same pool behind a tracker: its jobs are counted ones.\<close>

fun tracked_step ::
  "('f, 'b, 'a, 'r, 'w) job_ops \<Rightarrow> ('f, 'b) event \<Rightarrow>
   ('f future_counter, 'b counted_closure, 'w tracked) pool \<Rightarrow>
   ('a, 'r) reply \<times> ('f future_counter, 'b counted_closure, 'w tracked) pool" where
  "tracked_step ops (SpawnTask f) (js, s) =
     (case tracker_spawn (\<lambda>c s1. case pool_add (Task c) (js, s1) of (h, (js', s2)) \<Rightarrow> ((h, js'), s2)) f s of
        ((h, js'), s') \<Rightarrow> (Handle h, (js', s')))"
| "tracked_step ops (SpawnBlocking b) (js, s) =
     (case tracker_spawn_blocking
         (\<lambda>c s1. case pool_add (Closure c) (js, s1) of (h, (js', s2)) \<Rightarrow> ((h, js'), s2)) b s of
        ((h, js'), s') \<Rightarrow> (Handle h, (js', s')))"
| "tracked_step ops e p = pool_act (tracked_ops ops) e p"

fun trace :: "('e \<Rightarrow> 'p \<Rightarrow> 'o \<times> 'p) \<Rightarrow> 'e list \<Rightarrow> 'p \<Rightarrow> 'o list \<times> 'p" where
  "trace step [] p = ([], p)"
| "trace step (e # es) p =
     (case step e p of (out, p') \<Rightarrow> (case trace step es p' of (outs, p'') \<Rightarrow> (out # outs, p'')))"

section \<open>Erasing the counter\<close>

fun erase_job :: "('f future_counter, 'b counted_closure) job \<Rightarrow> ('f, 'b) job" where
  "erase_job (Task (FutureCounter f)) = Task f"
| "erase_job (Closure (CountedClosure b)) = Closure b"

definition erase ::
  "('f future_counter, 'b counted_closure, 'w tracked) pool \<Rightarrow> ('f, 'b, 'w) pool" where
  "erase p = (map (map_option erase_job) (fst p), untracked (snd p))"

definition live_jobs :: "'j option list \<Rightarrow> nat" where
  "live_jobs js = length (filter (\<lambda>j. j \<noteq> None) js)"

lemma live_jobs_simps [simp]:
  "live_jobs [] = 0" "live_jobs (js @ [Some j]) = Suc (live_jobs js)"
  by (simp_all add: live_jobs_def)

lemma live_jobs_update:
  assumes "i < length js" "js ! i = Some j"
  shows "live_jobs (js[i := Some j']) = live_jobs js" "Suc (live_jobs (js[i := None])) = live_jobs js"
  using assms by (induction js arbitrary: i) (auto simp: live_jobs_def split: nat.splits)

lemma erase_job_eq:
  "erase_job j = Task f \<longleftrightarrow> j = Task (FutureCounter f)"
  "erase_job j = Closure b \<longleftrightarrow> j = Closure (CountedClosure b)"
  by (cases j rule: erase_job.cases; auto)+

lemmas tracker_defs = tracker_spawn_def tracker_spawn_blocking_def future_counter_new_def
  counted_closure_new_def fetch_add_one_def fetch_sub_one_def tracked_ops_def pool_add_def erase_def

lemma tracked_step_erases:
  "tracked_step ops e p = (out, p') \<Longrightarrow> plain_step ops e (erase p) = (out, erase p')"
proof (cases e)
  case (PollJob i)
  assume "tracked_step ops e p = (out, p')"
  with PollJob show ?thesis
    by (cases p) (auto simp: tracker_defs map_update
        split: if_splits option.splits job.splits prod.splits elim!: erase_job.elims
        intro: future_counter.exhaust)
qed (cases p; auto simp: tracker_defs map_update Let_def
      split: if_splits option.splits job.splits prod.splits elim!: erase_job.elims)+

text \<open>
  A tracker changes nothing but its counter. Whatever sequence of spawns, polls, calls and drops an
  executor goes through behind a tracker, erasing the counter and the wrappers from it gives the same
  executor used directly, with the same answers of every poll and call, panics included.
\<close>

theorem tracker_transparent:
  "trace (plain_step ops) es (erase p) =
     (case trace (tracked_step ops) es p of (outs, p') \<Rightarrow> (outs, erase p'))"
proof (induction es arbitrary: p)
  case (Cons e es)
  obtain out p1 where s: "tracked_step ops e p = (out, p1)" by (metis surj_pair)
  with tracked_step_erases [OF s] Cons.IH [of p1] show ?case by (simp split: prod.splits)
qed simp

section \<open>The count\<close>

definition counts_live ::
  "('f future_counter, 'b counted_closure, 'w tracked) pool \<Rightarrow> bool" where
  "counts_live p \<longleftrightarrow> counter (snd p) = of_nat (live_jobs (fst p))"

lemma live_jobs_drop:
  "i < length js \<Longrightarrow> js ! i = Some j \<Longrightarrow>
     (of_nat (live_jobs js) :: u64) - 1 = of_nat (live_jobs (js[i := None]))"
  by (simp flip: live_jobs_update(2))

lemma counter_after:
  "counter (future_counter_drop d c s) = counter s - 1"
  "counter (counted_closure_drop d' k s) = counter s - 1"
  "counted_closure_call call k s = (r, s') \<Longrightarrow> counter s' = counter s - 1"
  "future_counter_poll poll c s = (r', c', s') \<Longrightarrow> counter s' = counter s"
  by (cases c; cases k; auto simp: fetch_sub_one_def Let_def split: prod.splits)+

lemma tracked_step_counts:
  "tracked_step ops e p = (out, p') \<Longrightarrow> counts_live p \<Longrightarrow> counts_live p'"
  by (cases e; cases p)
     (auto simp: tracker_defs counts_live_def live_jobs_update(1) live_jobs_drop counter_after Let_def
        add.commute split: if_splits option.splits job.splits prod.splits)

lemma tracked_trace_counts:
  "trace (tracked_step ops) es p = (outs, p') \<Longrightarrow> counts_live p \<Longrightarrow> counts_live p'"
  by (induction es arbitrary: p outs) (auto split: prod.splits dest: tracked_step_counts)

text \<open>
  C34: the count of a tracker is the number of futures and blocking closures that were spawned through
  it and neither dropped nor called to their end, in every state that an executor behind it reaches; the
  counter never goes below zero, and is off only by whole turns of the 64-bit counter.
\<close>

theorem tracker_counts:
  "case trace (tracked_step ops) es ([], tracker_new w) of
     (outs, js, s) \<Rightarrow> unat (tracker_count s) = live_jobs js mod 2 ^ 64"
proof -
  obtain outs js s where t: "trace (tracked_step ops) es ([], tracker_new w) = (outs, js, s)"
    by (metis prod_cases3)
  have "counts_live ([], tracker_new w)" by (simp add: counts_live_def tracker_new_def)
  then have "counts_live (js, s)" by (rule tracked_trace_counts [OF t])
  then have "tracker_count s = of_nat (live_jobs js)"
    by (simp add: counts_live_def tracker_count_def)
  then have "unat (tracker_count s) = live_jobs js mod 2 ^ 64"
    by (simp add: unat_of_nat)
  with t show ?thesis by simp
qed

end
