(* ===== verification/Metadata.thy ===== *)
theory Metadata
  imports Prelude
begin

text \<open>
  \<open>Metadata\<close>, \<open>FileType\<close>, \<open>Permissions\<close> (\<open>src/src/fs/metadata.rs\<close>) and \<open>OpenOptions\<close>
  (\<open>src/src/fs/open_options.rs\<close>). The metadata of the standard library and of Compio are values of
  their own types, read through a record of accessors; a time is a \<open>'t\<close>.
\<close>

section \<open>State\<close>

text \<open>What the crate reads of a foreign metadata value \<open>'n\<close> and of its file type \<open>'k\<close>.\<close>

record ('n, 'k, 't) meta_ops =
  mt_file_type :: "'n \<Rightarrow> 'k"
  mt_len :: "'n \<Rightarrow> u64"
  mt_readonly :: "'n \<Rightarrow> bool"
  mt_modified :: "'n \<Rightarrow> 't io_result"
  mt_accessed :: "'n \<Rightarrow> 't io_result"
  mt_created :: "'n \<Rightarrow> 't io_result"
  kind_is_dir :: "'k \<Rightarrow> bool"
  kind_is_file :: "'k \<Rightarrow> bool"
  kind_is_symlink :: "'k \<Rightarrow> bool"

datatype wasm_file_type = WasmPlainFile | WasmDirectory

datatype ('n, 'c, 't) metadata = NativeMeta 'n | CompioMeta 'c | WasmMeta wasm_file_type u64 "'t option"

datatype ('k, 'l) file_type = NativeType 'k | CompioType 'l | WasmType wasm_file_type

definition from_native :: "'n \<Rightarrow> ('n, 'c, 't) metadata" where
  "from_native m = NativeMeta m"

definition from_compio :: "'c \<Rightarrow> ('n, 'c, 't) metadata" where
  "from_compio m = CompioMeta m"

definition wasm_file_meta :: "u64 \<Rightarrow> 't \<Rightarrow> ('n, 'c, 't) metadata" where
  "wasm_file_meta len t = WasmMeta WasmPlainFile len (Some t)"

definition wasm_directory_meta :: "('n, 'c, 't) metadata" where
  "wasm_directory_meta = WasmMeta WasmDirectory 0 None"

section \<open>Accessors\<close>

fun file_type_of ::
  "('n, 'k, 't) meta_ops \<Rightarrow> ('c, 'l, 't) meta_ops \<Rightarrow> ('n, 'c, 't) metadata \<Rightarrow> ('k, 'l) file_type" where
  "file_type_of nops cops (NativeMeta m) = NativeType (mt_file_type nops m)"
| "file_type_of nops cops (CompioMeta m) = CompioType (mt_file_type cops m)"
| "file_type_of nops cops (WasmMeta k len t) = WasmType k"

fun type_is_dir :: "('n, 'k, 't) meta_ops \<Rightarrow> ('c, 'l, 't) meta_ops \<Rightarrow> ('k, 'l) file_type \<Rightarrow> bool" where
  "type_is_dir nops cops (NativeType k) = kind_is_dir nops k"
| "type_is_dir nops cops (CompioType k) = kind_is_dir cops k"
| "type_is_dir nops cops (WasmType k) = (k = WasmDirectory)"

fun type_is_file :: "('n, 'k, 't) meta_ops \<Rightarrow> ('c, 'l, 't) meta_ops \<Rightarrow> ('k, 'l) file_type \<Rightarrow> bool" where
  "type_is_file nops cops (NativeType k) = kind_is_file nops k"
| "type_is_file nops cops (CompioType k) = kind_is_file cops k"
| "type_is_file nops cops (WasmType k) = (k = WasmPlainFile)"

fun type_is_symlink :: "('n, 'k, 't) meta_ops \<Rightarrow> ('c, 'l, 't) meta_ops \<Rightarrow> ('k, 'l) file_type \<Rightarrow> bool" where
  "type_is_symlink nops cops (NativeType k) = kind_is_symlink nops k"
| "type_is_symlink nops cops (CompioType k) = kind_is_symlink cops k"
| "type_is_symlink nops cops (WasmType k) = False"

definition meta_is_dir :: "('n, 'k, 't) meta_ops \<Rightarrow> ('c, 'l, 't) meta_ops \<Rightarrow> ('n, 'c, 't) metadata \<Rightarrow> bool" where
  "meta_is_dir nops cops m = type_is_dir nops cops (file_type_of nops cops m)"

definition meta_is_file :: "('n, 'k, 't) meta_ops \<Rightarrow> ('c, 'l, 't) meta_ops \<Rightarrow> ('n, 'c, 't) metadata \<Rightarrow> bool" where
  "meta_is_file nops cops m = type_is_file nops cops (file_type_of nops cops m)"

definition meta_is_symlink :: "('n, 'k, 't) meta_ops \<Rightarrow> ('c, 'l, 't) meta_ops \<Rightarrow> ('n, 'c, 't) metadata \<Rightarrow> bool" where
  "meta_is_symlink nops cops m = type_is_symlink nops cops (file_type_of nops cops m)"

fun meta_len :: "('n, 'k, 't) meta_ops \<Rightarrow> ('c, 'l, 't) meta_ops \<Rightarrow> ('n, 'c, 't) metadata \<Rightarrow> u64" where
  "meta_len nops cops (NativeMeta m) = mt_len nops m"
| "meta_len nops cops (CompioMeta m) = mt_len cops m"
| "meta_len nops cops (WasmMeta k len t) = len"

record permissions =
  readonly_flag :: bool

definition set_readonly :: "bool \<Rightarrow> permissions \<Rightarrow> permissions" where
  "set_readonly b p = p\<lparr>readonly_flag := b\<rparr>"

fun meta_permissions ::
  "('n, 'k, 't) meta_ops \<Rightarrow> ('c, 'l, 't) meta_ops \<Rightarrow> ('n, 'c, 't) metadata \<Rightarrow> permissions" where
  "meta_permissions nops cops (NativeMeta m) = \<lparr>readonly_flag = mt_readonly nops m\<rparr>"
| "meta_permissions nops cops (CompioMeta m) = \<lparr>readonly_flag = mt_readonly cops m\<rparr>"
| "meta_permissions nops cops (WasmMeta k len t) = \<lparr>readonly_flag = False\<rparr>"

definition unsupported_time :: io_error where
  "unsupported_time = IoError Unsupported ''OPFS does not provide this timestamp''"

fun meta_modified :: "('n, 'k, 't) meta_ops \<Rightarrow> ('c, 'l, 't) meta_ops \<Rightarrow> ('n, 'c, 't) metadata \<Rightarrow> 't io_result" where
  "meta_modified nops cops (NativeMeta m) = mt_modified nops m"
| "meta_modified nops cops (CompioMeta m) = mt_modified cops m"
| "meta_modified nops cops (WasmMeta k len (Some t)) = Inr t"
| "meta_modified nops cops (WasmMeta k len None) = Inl unsupported_time"

fun meta_accessed :: "('n, 'k, 't) meta_ops \<Rightarrow> ('c, 'l, 't) meta_ops \<Rightarrow> ('n, 'c, 't) metadata \<Rightarrow> 't io_result" where
  "meta_accessed nops cops (NativeMeta m) = mt_accessed nops m"
| "meta_accessed nops cops (CompioMeta m) = mt_accessed cops m"
| "meta_accessed nops cops (WasmMeta k len t) = Inl unsupported_time"

fun meta_created :: "('n, 'k, 't) meta_ops \<Rightarrow> ('c, 'l, 't) meta_ops \<Rightarrow> ('n, 'c, 't) metadata \<Rightarrow> 't io_result" where
  "meta_created nops cops (NativeMeta m) = mt_created nops m"
| "meta_created nops cops (CompioMeta m) = mt_created cops m"
| "meta_created nops cops (WasmMeta k len t) = Inl unsupported_time"

section \<open>Equality and hashing\<close>

text \<open>\<open>PartialEq\<close> and \<open>Hash\<close> of \<open>FileType\<close>; a hasher absorbs booleans one after the other.\<close>

definition file_type_eq ::
  "('n, 'k, 't) meta_ops \<Rightarrow> ('c, 'l, 't) meta_ops \<Rightarrow> ('k, 'l) file_type \<Rightarrow> ('k, 'l) file_type \<Rightarrow> bool" where
  "file_type_eq nops cops a b \<longleftrightarrow>
     type_is_dir nops cops a = type_is_dir nops cops b \<and>
     type_is_file nops cops a = type_is_file nops cops b \<and>
     type_is_symlink nops cops a = type_is_symlink nops cops b"

definition file_type_hash ::
  "('n, 'k, 't) meta_ops \<Rightarrow> ('c, 'l, 't) meta_ops \<Rightarrow> (bool \<Rightarrow> 'h \<Rightarrow> 'h) \<Rightarrow> ('k, 'l) file_type \<Rightarrow> 'h \<Rightarrow> 'h" where
  "file_type_hash nops cops absorb_bool a h =
     absorb_bool (type_is_symlink nops cops a)
       (absorb_bool (type_is_file nops cops a) (absorb_bool (type_is_dir nops cops a) h))"

section \<open>Open options\<close>

record open_options =
  opt_read :: bool
  opt_write :: bool
  opt_append :: bool
  opt_truncate :: bool
  opt_create :: bool
  opt_create_new :: bool

definition open_options_new :: open_options where
  "open_options_new = \<lparr>opt_read = False, opt_write = False, opt_append = False, opt_truncate = False,
     opt_create = False, opt_create_new = False\<rparr>"

definition set_read :: "bool \<Rightarrow> open_options \<Rightarrow> open_options" where
  "set_read b o' = o'\<lparr>opt_read := b\<rparr>"

definition set_write :: "bool \<Rightarrow> open_options \<Rightarrow> open_options" where
  "set_write b o' = o'\<lparr>opt_write := b\<rparr>"

definition set_append :: "bool \<Rightarrow> open_options \<Rightarrow> open_options" where
  "set_append b o' = o'\<lparr>opt_append := b\<rparr>"

definition set_truncate :: "bool \<Rightarrow> open_options \<Rightarrow> open_options" where
  "set_truncate b o' = o'\<lparr>opt_truncate := b\<rparr>"

definition set_create :: "bool \<Rightarrow> open_options \<Rightarrow> open_options" where
  "set_create b o' = o'\<lparr>opt_create := b\<rparr>"

definition set_create_new :: "bool \<Rightarrow> open_options \<Rightarrow> open_options" where
  "set_create_new b o' = o'\<lparr>opt_create_new := b\<rparr>"

section \<open>Properties\<close>

text \<open>
  The equality of file types is an equivalence, and values that are equal have the same hash under
  every hasher, whichever backends they come from.
\<close>

theorem file_type_eq_hash:
  "reflp (file_type_eq nops cops) \<and> symp (file_type_eq nops cops) \<and> transp (file_type_eq nops cops) \<and>
   (file_type_eq nops cops a b \<longrightarrow> file_type_hash nops cops mix a h = file_type_hash nops cops mix b h)"
  by (auto simp: file_type_eq_def file_type_hash_def reflp_def symp_def transp_def)

definition flag_meta :: "(bool, bool, nat) meta_ops" where
  "flag_meta = \<lparr>mt_file_type = id, mt_len = (\<lambda>n. 0), mt_readonly = (\<lambda>n. False), mt_modified = (\<lambda>n. Inr 0),
     mt_accessed = (\<lambda>n. Inr 0), mt_created = (\<lambda>n. Inr 0), kind_is_dir = id, kind_is_file = Not,
     kind_is_symlink = (\<lambda>k. False)\<rparr>"

theorem file_type_eq_hash_witness:
  "file_type_hash flag_meta flag_meta (\<lambda>b h. b # h) (NativeType True) [] =
   file_type_hash flag_meta flag_meta (\<lambda>b h. b # h) (WasmType WasmDirectory) []"
proof -
  have "file_type_eq flag_meta flag_meta (NativeType True) (WasmType WasmDirectory)"
    by (simp add: file_type_eq_def flag_meta_def)
  with file_type_eq_hash [of flag_meta flag_meta "NativeType True" "WasmType WasmDirectory" "\<lambda>b h. b # h" "[]"]
  show ?thesis by blast
qed

end
