(* ===== verification/Wasm_Paths.thy ===== *)
theory Wasm_Paths
  imports Prelude
begin

text \<open>
  Paths of the browser file system, \<open>src/src/fs/wasm.rs\<close>: \<open>split_path\<close>, \<open>split_parent\<close> and
  \<open>joined_path\<close>, over the parts of \<open>std::path\<close> that they use (\<open>Path::components\<close>, \<open>PathBuf::push\<close>; the
  separator of the target is the slash), and the errors of OPFS. A path is the list of its characters;
  \<open>to_str\<close> of a name succeeds for the names that \<open>valid\<close> accepts.
\<close>

section \<open>\<open>std::path\<close>\<close>

datatype component = RootDir | CurDir | ParentDir | Normal string | PathPrefix

text \<open>The pieces between slashes.\<close>

fun pieces :: "string \<Rightarrow> string list" where
  "pieces [] = [[]]"
| "pieces (c # cs) =
     (if c = CHR ''/'' then [] # pieces cs
      else (case pieces cs of [] \<Rightarrow> [[c]] | p # ps \<Rightarrow> (c # p) # ps))"

definition piece_component :: "string \<Rightarrow> component" where
  "piece_component p = (if p = ''..'' then ParentDir else Normal p)"

definition ordinary :: "string list \<Rightarrow> component list" where
  "ordinary ps = map piece_component (filter (\<lambda>p. p \<noteq> [] \<and> p \<noteq> ''.'') ps)"

text \<open>
  \<open>Path::components\<close>: repeated separators and dots are dropped, but a dot that starts a relative path
  is kept.
\<close>

definition components :: "string \<Rightarrow> component list" where
  "components p =
     (case p of
        [] \<Rightarrow> []
      | c # cs \<Rightarrow>
          (if c = CHR ''/'' then RootDir # ordinary (pieces cs)
           else (if hd (pieces p) = ''.'' then [CurDir] else []) @ ordinary (pieces p)))"

text \<open>\<open>PathBuf::push\<close>.\<close>

definition push_path :: "string \<Rightarrow> string \<Rightarrow> string" where
  "push_path base n =
     (if n \<noteq> [] \<and> hd n = CHR ''/'' then n
      else if base = [] \<or> last base = CHR ''/'' then base @ n
      else base @ ''/'' @ n)"

section \<open>Paths of the file system\<close>

definition outside_error :: io_error where
  "outside_error = IoError InvalidInput ''path leads outside OPFS''"

definition not_utf8_error :: io_error where
  "not_utf8_error = IoError InvalidInput ''path is not valid UTF-8''"

definition prefix_error :: io_error where
  "prefix_error = IoError InvalidInput ''path prefixes are not supported by OPFS''"

definition root_path_error :: io_error where
  "root_path_error = IoError InvalidInput ''path names the OPFS root instead of a file''"

text \<open>The loop of \<open>split_path\<close>, with the names found so far.\<close>

fun split_components :: "(string \<Rightarrow> bool) \<Rightarrow> component list \<Rightarrow> string list \<Rightarrow> string list io_result" where
  "split_components valid [] names = Inr names"
| "split_components valid (RootDir # cs) names = split_components valid cs names"
| "split_components valid (CurDir # cs) names = split_components valid cs names"
| "split_components valid (ParentDir # cs) names =
     (if names = [] then Inl outside_error else split_components valid cs (butlast names))"
| "split_components valid (Normal n # cs) names =
     (if valid n then split_components valid cs (names @ [n]) else Inl not_utf8_error)"
| "split_components valid (PathPrefix # cs) names = Inl prefix_error"

definition split_path :: "(string \<Rightarrow> bool) \<Rightarrow> string \<Rightarrow> string list io_result" where
  "split_path valid p = split_components valid (components p) []"

definition split_parent :: "(string \<Rightarrow> bool) \<Rightarrow> string \<Rightarrow> (string list \<times> string) io_result" where
  "split_parent valid p =
     (case split_path valid p of
        Inl e \<Rightarrow> Inl e
      | Inr names \<Rightarrow> (if names = [] then Inl root_path_error else Inr (butlast names, last names)))"

definition joined_path :: "string list \<Rightarrow> string" where
  "joined_path names = foldl push_path ''/'' names"

section \<open>Errors of OPFS\<close>

datatype entry_kind = EntryFile | EntryDirectory | EntryEither

text \<open>
  A value thrown by JavaScript: its \<open>name\<close> and \<open>message\<close> where they are strings, and its \<open>Debug\<close> form.
\<close>

record js_exception =
  js_name :: "string option"
  js_message :: "string option"
  js_debug :: string

definition property :: "string option \<Rightarrow> string option" where
  "property v = (case v of Some s \<Rightarrow> if s = [] then None else Some s | None \<Rightarrow> None)"

definition js_error_kind :: "string \<Rightarrow> entry_kind \<Rightarrow> io_error_kind" where
  "js_error_kind n entry =
     (if n = ''NotFoundError'' then NotFound
      else if n = ''NotAllowedError'' \<or> n = ''SecurityError'' then PermissionDenied
      else if n = ''TypeMismatchError'' then
        (case entry of EntryFile \<Rightarrow> IsADirectory | EntryDirectory \<Rightarrow> NotADirectory | EntryEither \<Rightarrow> InvalidInput)
      else if n = ''InvalidModificationError'' then DirectoryNotEmpty
      else if n = ''NoModificationAllowedError'' then ResourceBusy
      else if n = ''QuotaExceededError'' then QuotaExceeded
      else if n = ''AbortError'' then Interrupted
      else Other)"

definition js_error :: "js_exception \<Rightarrow> entry_kind \<Rightarrow> io_error" where
  "js_error v entry =
     (let n = (case property (js_name v) of Some s \<Rightarrow> s | None \<Rightarrow> []);
          m = (case property (js_message v) of Some s \<Rightarrow> s | None \<Rightarrow> js_debug v)
      in IoError (js_error_kind n entry) (if n = [] then m else n @ '': '' @ m))"

section \<open>Lemmas\<close>

text \<open>A name that one component can have: no separator in it, and not one of the special ones.\<close>

definition plain_name :: "string \<Rightarrow> bool" where
  "plain_name n \<longleftrightarrow> n \<noteq> [] \<and> n \<noteq> ''.'' \<and> n \<noteq> ''..'' \<and> CHR ''/'' \<notin> set n"

lemma pieces_nonempty [simp]: "pieces p \<noteq> []"
  by (induction p) (auto split: list.splits)

lemma pieces_no_slash: "q \<in> set (pieces p) \<Longrightarrow> CHR ''/'' \<notin> set q"
proof (induction p arbitrary: q)
  case (Cons c cs)
  obtain r rs where "pieces cs = r # rs" by (cases "pieces cs") auto
  with Cons show ?case by (auto split: if_splits)
qed simp

lemma pieces_plain: "CHR ''/'' \<notin> set n \<Longrightarrow> pieces n = [n]"
  by (induction n) auto

lemma pieces_append: "CHR ''/'' \<notin> set n \<Longrightarrow> pieces (n @ CHR ''/'' # p) = n # pieces p"
  by (induction n) auto

lemma ordinary_names: "Normal n \<in> set (ordinary ps) \<Longrightarrow> n \<in> set ps \<and> n \<noteq> [] \<and> n \<noteq> ''.'' \<and> n \<noteq> ''..''"
  by (auto simp: ordinary_def piece_component_def split: if_splits)

lemma component_names: "Normal n \<in> set (components p) \<Longrightarrow> plain_name n"
  by (auto simp: components_def plain_name_def split: list.splits if_splits
      dest!: ordinary_names dest: pieces_no_slash)

lemma split_components_names:
  "split_components valid cs names = Inr ns \<Longrightarrow> n \<in> set ns \<Longrightarrow>
   n \<in> set names \<or> (Normal n \<in> set cs \<and> valid n)"
  by (induction valid cs names rule: split_components.induct)
    (auto split: if_splits dest: in_set_butlastD)

lemma split_normals:
  "(\<forall>n\<in>set ns. valid n) \<Longrightarrow> split_components valid (map Normal ns) names = Inr (names @ ns)"
  by (induction ns arbitrary: names) auto

text \<open>The string that \<open>joined_path\<close> makes of plain names.\<close>

fun slashed :: "string list \<Rightarrow> string" where
  "slashed [] = []"
| "slashed [n] = n"
| "slashed (n # ns) = n @ CHR ''/'' # slashed ns"

lemma slashed_append: "ns \<noteq> [] \<Longrightarrow> slashed (ns @ [n]) = slashed ns @ CHR ''/'' # n"
  by (induction ns rule: slashed.induct) auto

lemma slashed_last: "ns \<noteq> [] \<Longrightarrow> (\<forall>n\<in>set ns. plain_name n) \<Longrightarrow> slashed ns \<noteq> [] \<and> last (slashed ns) \<noteq> CHR ''/''"
proof (induction ns rule: slashed.induct)
  case (2 n)
  then have "n \<noteq> []" and "CHR ''/'' \<notin> set n" by (auto simp: plain_name_def)
  then show ?case by auto (metis last_in_set)
qed auto

lemma push_plain:
  assumes "plain_name n" and "base \<noteq> []"
  shows "push_path base n = (if last base = CHR ''/'' then base @ n else base @ CHR ''/'' # n)"
proof -
  from assms(1) obtain c cs where "n = c # cs" "c \<noteq> CHR ''/''" by (cases n) (auto simp: plain_name_def)
  with assms(2) show ?thesis by (simp add: push_path_def)
qed

lemma joined_path_eq: "(\<forall>n\<in>set ns. plain_name n) \<Longrightarrow> joined_path ns = CHR ''/'' # slashed ns"
proof (induction ns rule: rev_induct)
  case (snoc n ns)
  from snoc have IH: "joined_path ns = CHR ''/'' # slashed ns" and n: "plain_name n" by simp_all
  have step: "joined_path (ns @ [n]) = push_path (joined_path ns) n" by (simp add: joined_path_def)
  show ?case
  proof (cases "ns = []")
    case True
    then show ?thesis unfolding step IH push_plain [OF n list.distinct(2)] by simp
  next
    case False
    with snoc.prems slashed_last [of ns] show ?thesis
      unfolding step IH push_plain [OF n list.distinct(2)] by (simp add: slashed_append)
  qed
qed (simp add: joined_path_def)

lemma pieces_slashed: "ns \<noteq> [] \<Longrightarrow> (\<forall>n\<in>set ns. plain_name n) \<Longrightarrow> pieces (slashed ns) = ns"
  by (induction ns rule: slashed.induct) (auto simp: plain_name_def pieces_plain pieces_append)

lemma ordinary_plain: "(\<forall>n\<in>set ns. plain_name n) \<Longrightarrow> ordinary ns = map Normal ns"
  by (induction ns) (auto simp: ordinary_def piece_component_def plain_name_def)

lemma components_joined:
  assumes "\<forall>n\<in>set ns. plain_name n"
  shows "components (joined_path ns) = RootDir # map Normal ns"
proof (cases "ns = []")
  case True
  then show ?thesis by (simp add: joined_path_def components_def ordinary_def)
next
  case False
  with assms show ?thesis by (simp add: joined_path_eq components_def pieces_slashed ordinary_plain)
qed

lemma split_path_names:
  "split_path valid p = Inr ns \<Longrightarrow> n \<in> set ns \<Longrightarrow> plain_name n \<and> valid n"
  by (auto simp: split_path_def dest!: split_components_names component_names)

lemma split_path_joined:
  assumes "split_path valid p = Inr names"
  shows "split_path valid (joined_path names) = Inr names"
proof -
  from assms have "\<forall>n\<in>set names. plain_name n" "\<forall>n\<in>set names. valid n"
    by (auto dest: split_path_names)
  then show ?thesis by (simp add: split_path_def components_joined split_normals)
qed

section \<open>Properties\<close>

text \<open>
  No path leads out of the file system. The names that \<open>split_path\<close> answers are never empty, a dot
  or two dots, and have no separator in them, so every step of a walk along them goes down; and joining
  them gives a path that names the same entry: splitting the joined path gives back the same names.
\<close>

theorem split_path_canonical:
  assumes "split_path valid p = Inr names"
  shows "(\<forall>n\<in>set names. n \<noteq> [] \<and> n \<noteq> ''.'' \<and> n \<noteq> ''..'' \<and> CHR ''/'' \<notin> set n) \<and>
    split_path valid (joined_path names) = Inr names"
  using split_path_joined [OF assms] split_path_names [OF assms] by (auto simp: plain_name_def)

theorem split_path_canonical_witness:
  "split_path (\<lambda>n. True) (joined_path [''b'', ''c.txt'']) = Inr [''b'', ''c.txt'']"
proof -
  have "split_path (\<lambda>n. True) ''./a//.././b/c.txt/'' = Inr [''b'', ''c.txt'']"
    by (simp add: split_path_def components_def ordinary_def piece_component_def)
  from split_path_canonical [OF this] show ?thesis by blast
qed

text \<open>How far below the root a walk along components ends.\<close>

fun step_depth :: "component \<Rightarrow> int" where
  "step_depth (Normal n) = 1"
| "step_depth ParentDir = - 1"
| "step_depth c = 0"

definition depth :: "component list \<Rightarrow> int" where
  "depth cs = sum_list (map step_depth cs)"

lemma split_components_depth:
  assumes "PathPrefix \<notin> set cs" and "\<forall>n. Normal n \<in> set cs \<longrightarrow> valid n"
  shows "if \<exists>k. int (length names) + depth (take k cs) < 0
    then split_components valid cs names = Inl outside_error
    else \<exists>ns. split_components valid cs names = Inr ns \<and> int (length ns) = int (length names) + depth cs"
  using assms
proof (induction cs arbitrary: names)
  case Nil
  then show ?case by (simp add: depth_def)
next
  case (Cons c cs)
  have shift: "(\<exists>k. m + depth (take k (c # cs)) < 0) \<longleftrightarrow> m < 0 \<or> (\<exists>k. m + step_depth c + depth (take k cs) < 0)"
    for m
  proof
    assume "\<exists>k. m + depth (take k (c # cs)) < 0"
    then obtain k where "m + depth (take k (c # cs)) < 0" ..
    then show "m < 0 \<or> (\<exists>k. m + step_depth c + depth (take k cs) < 0)"
      by (cases k) (auto simp: depth_def add.assoc)
  next
    assume "m < 0 \<or> (\<exists>k. m + step_depth c + depth (take k cs) < 0)"
    then show "\<exists>k. m + depth (take k (c # cs)) < 0"
    proof
      assume "m < 0"
      then show ?thesis by (intro exI [of _ 0]) (simp add: depth_def)
    next
      assume "\<exists>k. m + step_depth c + depth (take k cs) < 0"
      then obtain k where "m + step_depth c + depth (take k cs) < 0" ..
      then show ?thesis by (intro exI [of _ "Suc k"]) (simp add: depth_def)
    qed
  qed
  have total: "depth (c # cs) = step_depth c + depth cs" by (simp add: depth_def)
  have IH: "if \<exists>k. int (length ns) + depth (take k cs) < 0
    then split_components valid cs ns = Inl outside_error
    else \<exists>ms. split_components valid cs ns = Inr ms \<and> int (length ms) = int (length ns) + depth cs" for ns
    using Cons.prems by (intro Cons.IH) auto
  show ?case
  proof (cases c)
    case (Normal n)
    with Cons.prems IH [of "names @ [n]"] show ?thesis
      unfolding shift total by (auto simp: add.commute add.left_commute split: if_splits)
  next
    case ParentDir
    show ?thesis
    proof (cases "names = []")
      case True
      then show ?thesis unfolding shift total using ParentDir
        by (auto intro: exI [of _ 0] simp: depth_def)
    next
      case False
      then have "int (length (butlast names)) = int (length names) - 1" by (simp add: of_nat_diff Suc_leI)
      with IH [of "butlast names"] False ParentDir show ?thesis unfolding shift total
        by (auto simp: algebra_simps split: if_splits)
    qed
  next
    case RootDir
    with Cons.prems IH [of names] show ?thesis unfolding shift total by (auto split: if_splits)
  next
    case CurDir
    with Cons.prems IH [of names] show ?thesis unfolding shift total by (auto split: if_splits)
  qed (use Cons.prems in simp)
qed

text \<open>
  A path is refused as leading outside exactly when one of its prefixes has more parent steps than
  names; otherwise, when every name is valid Unicode, it splits into as many names as its names exceed
  its parent steps.
\<close>

theorem split_path_depth:
  assumes "\<forall>n. Normal n \<in> set (components p) \<longrightarrow> valid n"
  shows "if \<exists>k. depth (take k (components p)) < 0 then split_path valid p = Inl outside_error
    else \<exists>names. split_path valid p = Inr names \<and> int (length names) = depth (components p)"
proof -
  have "PathPrefix \<notin> set (components p)"
    by (auto simp: components_def ordinary_def piece_component_def split: list.splits if_splits)
  from split_components_depth [OF this assms, of "[]"] show ?thesis by (auto simp: split_path_def split: if_splits)
qed

theorem split_path_depth_witness:
  "split_path (\<lambda>n. True) ''a/../../b'' = Inl outside_error"
proof -
  have "depth (take 3 (components ''a/../../b'')) < 0"
    by (simp add: depth_def components_def ordinary_def piece_component_def)
  with split_path_depth [of "''a/../../b''" "\<lambda>n. True"] show ?thesis by (auto split: if_splits)
qed

end
