(* ===== verification/Wasm.thy ===== *)
theory Wasm
  imports Wasm_Paths Metadata File_Traits
begin

text \<open>
  The files of the browser file system, \<open>src/src/fs/wasm.rs\<close>: handles, promises, casts, reading and
  writing whole files, \<open>WasmFile\<close> and \<open>open_file\<close>. The browser (OPFS through \<open>web_sys\<close>) is a record of
  operations on a world \<open>'w\<close>; a promise is what awaiting it does. An asynchronous function is its
  completed call.
\<close>

section \<open>The browser\<close>

text \<open>
  A JavaScript value: a directory handle, a file handle, a file, a writable stream, a buffer, one
  result of a directory iterator (its \<open>done\<close>, and its \<open>value\<close>, a pair whose second part has a \<open>kind\<close>),
  or anything else.
\<close>

datatype ('d, 'f, 'b, 'st) js_value =
  JsDirectory 'd | JsFileHandle 'f | JsFile 'b | JsStream 'st | JsBuffer "byte list" | JsStorage
| JsStep "bool option" "js_exception + (string option \<times> ('d, 'f, 'b, 'st) js_value \<times> string option)"
| JsOther string

text \<open>A number: NaN, positive infinity, one with the sign bit set, or the whole part of another.\<close>

datatype js_number = NotANumber | PosInfinity | SignNegative | Whole nat

type_synonym ('d, 'f, 'b, 'st, 'w) promise = "'w \<Rightarrow> (js_exception + ('d, 'f, 'b, 'st) js_value) \<times> 'w"

record ('d, 'f, 'b, 'st, 'it, 'w) opfs_ops =
  js_navigator :: "'w \<Rightarrow> js_exception option"
  js_storage :: "'w \<Rightarrow> js_exception + ('d, 'f, 'b, 'st) js_value option"
  js_get_directory :: "('d, 'f, 'b, 'st, 'w) promise"
  js_directory_handle :: "'d \<Rightarrow> string \<Rightarrow> bool \<Rightarrow> ('d, 'f, 'b, 'st, 'w) promise"
  js_file_handle :: "'d \<Rightarrow> string \<Rightarrow> bool \<Rightarrow> ('d, 'f, 'b, 'st, 'w) promise"
  js_remove_entry :: "'d \<Rightarrow> string \<Rightarrow> bool \<Rightarrow> ('d, 'f, 'b, 'st, 'w) promise"
  js_entries :: "'d \<Rightarrow> 'w \<Rightarrow> 'it \<times> 'w"
  js_next :: "'it \<Rightarrow> 'w \<Rightarrow> (js_exception + ('d, 'f, 'b, 'st, 'w) promise) \<times> 'w"
  js_get_file :: "'f \<Rightarrow> ('d, 'f, 'b, 'st, 'w) promise"
  js_array_buffer :: "'b \<Rightarrow> ('d, 'f, 'b, 'st, 'w) promise"
  js_last_modified :: "'b \<Rightarrow> js_number"
  js_size :: "'b \<Rightarrow> js_number"
  js_create_writable :: "'f \<Rightarrow> bool \<Rightarrow> ('d, 'f, 'b, 'st, 'w) promise"
  js_seek :: "'st \<Rightarrow> nat \<Rightarrow> 'w \<Rightarrow> (js_exception + ('d, 'f, 'b, 'st, 'w) promise) \<times> 'w"
  js_write :: "'st \<Rightarrow> byte list \<Rightarrow> 'w \<Rightarrow> (js_exception + ('d, 'f, 'b, 'st, 'w) promise) \<times> 'w"
  js_truncate :: "'st \<Rightarrow> nat \<Rightarrow> 'w \<Rightarrow> (js_exception + ('d, 'f, 'b, 'st, 'w) promise) \<times> 'w"
  js_close :: "'st \<Rightarrow> ('d, 'f, 'b, 'st, 'w) promise"
  js_abort :: "'st \<Rightarrow> ('d, 'f, 'b, 'st, 'w) promise"
  js_show :: "('d, 'f, 'b, 'st) js_value \<Rightarrow> string"
  epoch_plus :: "nat \<Rightarrow> nat option"
  name_valid :: "string \<Rightarrow> bool"

text \<open>The thread's cached \<open>ROOT\<close> and the browser.\<close>

record ('d, 'w) wasm =
  root_cache :: "'d option"
  browser :: 'w

definition lift_result :: "'a io_result \<Rightarrow> ('s, 'a) io" where [io_defs]:
  "lift_result r s = (r, s)"

definition await_promise ::
  "('d, 'f, 'b, 'st, 'w) promise \<Rightarrow> entry_kind \<Rightarrow> (('d, 'w) wasm, ('d, 'f, 'b, 'st) js_value) io" where
  "await_promise p entry s =
     (case p (browser s) of
        (Inl e, w) \<Rightarrow> (Inl (js_error e entry), s\<lparr>browser := w\<rparr>)
      | (Inr v, w) \<Rightarrow> (Inr v, s\<lparr>browser := w\<rparr>))"

text \<open>A call that may throw before it makes a promise.\<close>

definition js_call ::
  "('w \<Rightarrow> (js_exception + 'p) \<times> 'w) \<Rightarrow> entry_kind \<Rightarrow> (('d, 'w) wasm, 'p) io" where
  "js_call c entry s =
     (case c (browser s) of
        (Inl e, w) \<Rightarrow> (Inl (js_error e entry), s\<lparr>browser := w\<rparr>)
      | (Inr p, w) \<Rightarrow> (Inr p, s\<lparr>browser := w\<rparr>))"

section \<open>Casts\<close>

definition unexpected ::
  "('d, 'f, 'b, 'st, 'it, 'w) opfs_ops \<Rightarrow> ('d, 'f, 'b, 'st) js_value \<Rightarrow> io_error" where
  "unexpected ops v = IoError Other (''OPFS returned an unexpected value: '' @ js_show ops v)"

definition cast_directory ::
  "('d, 'f, 'b, 'st, 'it, 'w) opfs_ops \<Rightarrow> ('d, 'f, 'b, 'st) js_value \<Rightarrow> 'd io_result" where
  "cast_directory ops v = (case v of JsDirectory d \<Rightarrow> Inr d | _ \<Rightarrow> Inl (unexpected ops v))"

definition cast_file_handle ::
  "('d, 'f, 'b, 'st, 'it, 'w) opfs_ops \<Rightarrow> ('d, 'f, 'b, 'st) js_value \<Rightarrow> 'f io_result" where
  "cast_file_handle ops v = (case v of JsFileHandle f \<Rightarrow> Inr f | _ \<Rightarrow> Inl (unexpected ops v))"

definition cast_file ::
  "('d, 'f, 'b, 'st, 'it, 'w) opfs_ops \<Rightarrow> ('d, 'f, 'b, 'st) js_value \<Rightarrow> 'b io_result" where
  "cast_file ops v = (case v of JsFile b \<Rightarrow> Inr b | _ \<Rightarrow> Inl (unexpected ops v))"

definition cast_stream ::
  "('d, 'f, 'b, 'st, 'it, 'w) opfs_ops \<Rightarrow> ('d, 'f, 'b, 'st) js_value \<Rightarrow> 'st io_result" where
  "cast_stream ops v = (case v of JsStream st \<Rightarrow> Inr st | _ \<Rightarrow> Inl (unexpected ops v))"

definition cast_storage ::
  "('d, 'f, 'b, 'st, 'it, 'w) opfs_ops \<Rightarrow> ('d, 'f, 'b, 'st) js_value \<Rightarrow> unit io_result" where
  "cast_storage ops v = (case v of JsStorage \<Rightarrow> Inr () | _ \<Rightarrow> Inl (unexpected ops v))"

text \<open>\<open>Uint8Array::new(&buffer).to_vec()\<close>; of a value that is not a buffer it is empty.\<close>

fun to_vec :: "('d, 'f, 'b, 'st) js_value \<Rightarrow> byte list" where
  "to_vec (JsBuffer bs) = bs"
| "to_vec v = []"

section \<open>Directories and handles\<close>

definition unavailable_error :: io_error where
  "unavailable_error = IoError Unsupported ''OPFS is unavailable outside a secure browser context''"

text \<open>\<open>root()\<close>.\<close>

definition opfs_root :: "('d, 'f, 'b, 'st, 'it, 'w) opfs_ops \<Rightarrow> (('d, 'w) wasm, 'd) io" where
  "opfs_root ops s =
     (case root_cache s of
        Some d \<Rightarrow> (Inr d, s)
      | None \<Rightarrow>
          (case js_navigator ops (browser s) of
             Some e \<Rightarrow> (Inl (js_error e EntryEither), s)
           | None \<Rightarrow>
               (case js_storage ops (browser s) of
                  Inl e \<Rightarrow> (Inl (js_error e EntryEither), s)
                | Inr None \<Rightarrow> (Inl unavailable_error, s)
                | Inr (Some v) \<Rightarrow>
                    try_io (lift_result (cast_storage ops v))
                      (\<lambda>u. try_io (await_promise (js_get_directory ops) EntryDirectory)
                        (\<lambda>v'. try_io (lift_result (cast_directory ops v'))
                          (\<lambda>d s'. (Inr d, s'\<lparr>root_cache := Some d\<rparr>)))) s)))"

text \<open>The loop of \<open>directory_at\<close>.\<close>

fun directory_walk ::
  "('d, 'f, 'b, 'st, 'it, 'w) opfs_ops \<Rightarrow> bool \<Rightarrow> string list \<Rightarrow> 'd \<Rightarrow> (('d, 'w) wasm, 'd) io" where
  "directory_walk ops create [] d = ok_io d"
| "directory_walk ops create (n # ns) d =
     try_io (await_promise (js_directory_handle ops d n create) EntryDirectory)
       (\<lambda>v. try_io (lift_result (cast_directory ops v)) (\<lambda>d'. directory_walk ops create ns d'))"

definition directory_at ::
  "('d, 'f, 'b, 'st, 'it, 'w) opfs_ops \<Rightarrow> string list \<Rightarrow> bool \<Rightarrow> (('d, 'w) wasm, 'd) io" where
  "directory_at ops names create = try_io (opfs_root ops) (directory_walk ops create names)"

definition file_at ::
  "('d, 'f, 'b, 'st, 'it, 'w) opfs_ops \<Rightarrow> string \<Rightarrow> bool \<Rightarrow> (('d, 'w) wasm, 'f) io" where
  "file_at ops path create =
     try_io (lift_result (split_parent (name_valid ops) path))
       (\<lambda>(directories, name). try_io (directory_at ops directories False)
         (\<lambda>d. try_io (await_promise (js_file_handle ops d name create) EntryFile)
           (\<lambda>v. lift_result (cast_file_handle ops v))))"

section \<open>Contents\<close>

definition get_file ::
  "('d, 'f, 'b, 'st, 'it, 'w) opfs_ops \<Rightarrow> 'f \<Rightarrow> (('d, 'w) wasm, 'b) io" where
  "get_file ops h =
     try_io (await_promise (js_get_file ops h) EntryFile) (\<lambda>v. lift_result (cast_file ops v))"

definition read_contents ::
  "('d, 'f, 'b, 'st, 'it, 'w) opfs_ops \<Rightarrow> 'f \<Rightarrow> (('d, 'w) wasm, byte list) io" where
  "read_contents ops h =
     try_io (get_file ops h)
       (\<lambda>b. try_io (await_promise (js_array_buffer ops b) EntryFile) (\<lambda>v. ok_io (to_vec v)))"

definition timestamp_error :: io_error where
  "timestamp_error = IoError Other ''OPFS returned an invalid timestamp''"

text \<open>\<open>as u64\<close>: saturating, and zero for NaN.\<close>

fun as_u64 :: "js_number \<Rightarrow> nat" where
  "as_u64 NotANumber = 0"
| "as_u64 PosInfinity = 2 ^ 64 - 1"
| "as_u64 SignNegative = 0"
| "as_u64 (Whole n) = min n (2 ^ 64 - 1)"

definition opfs_file_metadata ::
  "('d, 'f, 'b, 'st, 'it, 'w) opfs_ops \<Rightarrow> 'f \<Rightarrow> (('d, 'w) wasm, (unit, unit, nat) metadata) io" where
  "opfs_file_metadata ops h =
     try_io (get_file ops h)
       (\<lambda>b. case js_last_modified ops b of
          Whole n \<Rightarrow>
            (case epoch_plus ops (as_u64 (Whole n)) of
               None \<Rightarrow> fail_io timestamp_error
             | Some t \<Rightarrow> ok_io (wasm_file_meta (of_nat (as_u64 (js_size ops b))) t))
        | _ \<Rightarrow> fail_io timestamp_error)"

section \<open>Writing\<close>

definition open_writer ::
  "('d, 'f, 'b, 'st, 'it, 'w) opfs_ops \<Rightarrow> 'f \<Rightarrow> bool \<Rightarrow> (('d, 'w) wasm, 'st) io" where
  "open_writer ops h keep =
     try_io (await_promise (js_create_writable ops h keep) EntryFile) (\<lambda>v. lift_result (cast_stream ops v))"

text \<open>\<open>let _ = await_promise(stream.abort(), ..).await; return Err(error)\<close>.\<close>

definition abort_with ::
  "('d, 'f, 'b, 'st, 'it, 'w) opfs_ops \<Rightarrow> 'st \<Rightarrow> io_error \<Rightarrow> (('d, 'w) wasm, 'a) io" where
  "abort_with ops st e s = (case await_promise (js_abort ops st) EntryFile s of (r, s') \<Rightarrow> (Inl e, s'))"

text \<open>\<open>operation\<close> is the call that was made on the stream, and its promise.\<close>

definition finish_write ::
  "('d, 'f, 'b, 'st, 'it, 'w) opfs_ops \<Rightarrow> 'st \<Rightarrow> ('d, 'f, 'b, 'st, 'w) promise io_result \<Rightarrow>
   (('d, 'w) wasm, unit) io" where
  "finish_write ops st operation s =
     (case (case operation of Inr p \<Rightarrow> await_promise p EntryFile s | Inl e \<Rightarrow> (Inl e, s)) of
        (Inl e, s') \<Rightarrow> abort_with ops st e s'
      | (Inr v, s') \<Rightarrow> try_io (await_promise (js_close ops st) EntryFile) (\<lambda>v'. ok_io ()) s')"

definition overwrite ::
  "('d, 'f, 'b, 'st, 'it, 'w) opfs_ops \<Rightarrow> 'f \<Rightarrow> byte list \<Rightarrow> (('d, 'w) wasm, unit) io" where
  "overwrite ops h contents =
     try_io (open_writer ops h False)
       (\<lambda>st s. case js_call (js_write ops st contents) EntryFile s of
          (operation, s') \<Rightarrow> finish_write ops st operation s')"

definition max_js_integer :: u64 where
  "max_js_integer = 9007199254740991"

definition position_range_error :: io_error where
  "position_range_error = IoError InvalidInput ''the file position exceeds JavaScript's integer range''"

definition size_range_error :: io_error where
  "size_range_error = IoError InvalidInput ''the file size exceeds JavaScript's integer range''"

definition write_at ::
  "('d, 'f, 'b, 'st, 'it, 'w) opfs_ops \<Rightarrow> 'f \<Rightarrow> u64 \<Rightarrow> byte list \<Rightarrow> (('d, 'w) wasm, unit) io" where
  "write_at ops h pos contents =
     (if contents = [] then ok_io ()
      else if max_js_integer < pos then fail_io position_range_error
      else try_io (open_writer ops h True)
        (\<lambda>st s. case js_call (js_seek ops st (unat pos)) EntryFile s of
           (Inl e, s1) \<Rightarrow> abort_with ops st e s1
         | (Inr p, s1) \<Rightarrow>
             (case await_promise p EntryFile s1 of
                (Inl e, s2) \<Rightarrow> abort_with ops st e s2
              | (Inr v, s2) \<Rightarrow>
                  (case js_call (js_write ops st contents) EntryFile s2 of
                     (operation, s3) \<Rightarrow> finish_write ops st operation s3))))"

definition wasm_truncate ::
  "('d, 'f, 'b, 'st, 'it, 'w) opfs_ops \<Rightarrow> 'f \<Rightarrow> u64 \<Rightarrow> (('d, 'w) wasm, unit) io" where
  "wasm_truncate ops h n =
     (if max_js_integer < n then fail_io size_range_error
      else try_io (open_writer ops h True)
        (\<lambda>st s. case js_call (js_truncate ops st (unat n)) EntryFile s of
           (operation, s') \<Rightarrow> finish_write ops st operation s'))"

section \<open>\<open>WasmFile\<close>\<close>

record 'f wasm_file =
  wf_handle :: 'f
  wf_readable :: bool
  wf_writable :: bool
  wf_append :: bool
  wf_position :: u64

type_synonym ('d, 'f, 'w) wasm_open = "'f wasm_file \<times> ('d, 'w) wasm"

definition not_reading_error :: io_error where
  "not_reading_error = IoError PermissionDenied ''the file was not opened for reading''"

definition not_writing_error :: io_error where
  "not_writing_error = IoError PermissionDenied ''the file was not opened for writing''"

text \<open>\<open>usize\<close> has 32 bits on the target.\<close>

definition start_index :: "u64 \<Rightarrow> nat" where
  "start_index p = (if unat p < 2 ^ 32 then unat p else 2 ^ 32 - 1)"

definition wasm_read :: "('d, 'f, 'b, 'st, 'it, 'w) opfs_ops \<Rightarrow> ('d, 'f, 'w) wasm_open reader" where
  "wasm_read ops buf fs =
     (case fs of (f, s) \<Rightarrow>
       (if \<not> wf_readable f then (Returned (Inl not_reading_error), buf, f, s)
        else
          (case read_contents ops (wf_handle f) s of
             (Inl e, s') \<Rightarrow> (Returned (Inl e), buf, f, s')
           | (Inr contents, s') \<Rightarrow>
               (let start = start_index (wf_position f)
                in if length contents \<le> start \<or> buf = [] then (Returned (Inr 0), buf, f, s')
                   else
                     (let n = min (length buf) (length contents - start)
                      in (Returned (Inr n), copy_prefix (take n (drop start contents)) buf,
                          f\<lparr>wf_position := wf_position f + of_nat n\<rparr>, s'))))))"

text \<open>\<open>Metadata::len\<close> on this target, where the other constructors do not exist.\<close>

fun wasm_len :: "(unit, unit, nat) metadata \<Rightarrow> u64" where
  "wasm_len (WasmMeta k len t) = len"
| "wasm_len m = 0"

definition wasm_write :: "('d, 'f, 'b, 'st, 'it, 'w) opfs_ops \<Rightarrow> ('d, 'f, 'w) wasm_open writer" where
  "wasm_write ops buf fs =
     (case fs of (f, s) \<Rightarrow>
       (if \<not> wf_writable f then (Returned (Inl not_writing_error), f, s)
        else
          (case (if wf_append f
                 then (case opfs_file_metadata ops (wf_handle f) s of
                         (Inl e, s1) \<Rightarrow> (Inl e, s1)
                       | (Inr m, s1) \<Rightarrow> (Inr (wasm_len m), s1))
                 else (Inr (wf_position f), s)) of
             (Inl e, s1) \<Rightarrow> (Returned (Inl e), f, s1)
           | (Inr pos, s1) \<Rightarrow>
               (case write_at ops (wf_handle f) pos buf s1 of
                  (Inl e, s2) \<Rightarrow> (Returned (Inl e), f, s2)
                | (Inr u, s2) \<Rightarrow>
                    (Returned (Inr (length buf)), f\<lparr>wf_position := pos + of_nat (length buf)\<rparr>, s2)))))"

definition wasm_flush :: "(('d, 'f, 'w) wasm_open, unit) io" where
  "wasm_flush = ok_io ()"

definition wasm_seek ::
  "('d, 'f, 'b, 'st, 'it, 'w) opfs_ops \<Rightarrow> seek_from \<Rightarrow> (('d, 'f, 'w) wasm_open, u64) io" where
  "wasm_seek ops from fs =
     (case fs of (f, s) \<Rightarrow>
       (case (case from of
                End off \<Rightarrow>
                  (case opfs_file_metadata ops (wf_handle f) s of
                     (Inl e, s1) \<Rightarrow> (Inl e, s1)
                   | (Inr m, s1) \<Rightarrow> (Inr (wasm_len m), s1))
              | _ \<Rightarrow> (Inr 0, s)) of
          (Inl e, s1) \<Rightarrow> (Inl e, f, s1)
        | (Inr eof, s1) \<Rightarrow>
            (case seek_position (wf_position f) eof from of
               Inl e \<Rightarrow> (Inl e, f, s1)
             | Inr p \<Rightarrow>
                 (if max_js_integer < p then (Inl position_range_error, f, s1)
                  else (Inr p, f\<lparr>wf_position := p\<rparr>, s1)))))"

definition wasm_set_len ::
  "('d, 'f, 'b, 'st, 'it, 'w) opfs_ops \<Rightarrow> 'f wasm_file \<Rightarrow> u64 \<Rightarrow> (('d, 'w) wasm, unit) io" where
  "wasm_set_len ops f n =
     (if \<not> wf_writable f then fail_io not_writing_error else wasm_truncate ops (wf_handle f) n)"

definition wasm_file_metadata_of ::
  "('d, 'f, 'b, 'st, 'it, 'w) opfs_ops \<Rightarrow> 'f wasm_file \<Rightarrow>
   (('d, 'w) wasm, (unit, unit, nat) metadata) io" where
  "wasm_file_metadata_of ops f = opfs_file_metadata ops (wf_handle f)"

definition unsupported_permissions :: io_error where
  "unsupported_permissions = IoError Unsupported ''OPFS does not expose filesystem permissions''"

definition wasm_set_permissions :: "permissions \<Rightarrow> (('d, 'w) wasm, unit) io" where
  "wasm_set_permissions p = fail_io unsupported_permissions"

definition wasm_sync :: "(('d, 'w) wasm, unit) io" where
  "wasm_sync = ok_io ()"

section \<open>\<open>FileSystem\<close>\<close>

definition wasm_open_path ::
  "('d, 'f, 'b, 'st, 'it, 'w) opfs_ops \<Rightarrow> string \<Rightarrow> (('d, 'w) wasm, 'f wasm_file) io" where
  "wasm_open_path ops path =
     try_io (file_at ops path False)
       (\<lambda>h. ok_io \<lparr>wf_handle = h, wf_readable = True, wf_writable = False, wf_append = False, wf_position = 0\<rparr>)"

definition wasm_create_path ::
  "('d, 'f, 'b, 'st, 'it, 'w) opfs_ops \<Rightarrow> string \<Rightarrow> (('d, 'w) wasm, 'f wasm_file) io" where
  "wasm_create_path ops path =
     try_io (file_at ops path True)
       (\<lambda>h. try_io (overwrite ops h [])
         (\<lambda>u. ok_io \<lparr>wf_handle = h, wf_readable = False, wf_writable = True, wf_append = False,
            wf_position = 0\<rparr>))"

definition wasm_read_path ::
  "('d, 'f, 'b, 'st, 'it, 'w) opfs_ops \<Rightarrow> string \<Rightarrow> (('d, 'w) wasm, byte list) io" where
  "wasm_read_path ops path = try_io (file_at ops path False) (read_contents ops)"

definition file_not_utf8_error :: io_error where
  "file_not_utf8_error = IoError InvalidData ''file is not UTF-8''"

text \<open>A string is the list of its bytes.\<close>

definition wasm_read_path_to_string ::
  "('d, 'f, 'b, 'st, 'it, 'w) opfs_ops \<Rightarrow> string \<Rightarrow> (('d, 'w) wasm, byte list) io" where
  "wasm_read_path_to_string ops path =
     try_io (file_at ops path False)
       (\<lambda>h. try_io (read_contents ops h)
         (\<lambda>bs. if utf8_valid bs then ok_io bs else fail_io file_not_utf8_error))"

definition wasm_write_path ::
  "('d, 'f, 'b, 'st, 'it, 'w) opfs_ops \<Rightarrow> string \<Rightarrow> byte list \<Rightarrow> (('d, 'w) wasm, unit) io" where
  "wasm_write_path ops path contents =
     try_io (file_at ops path True) (\<lambda>h. overwrite ops h contents)"

section \<open>\<open>open_file\<close>\<close>

definition no_access_error :: io_error where
  "no_access_error = IoError InvalidInput ''a file must be opened for reading or writing''"

definition needs_write_error :: io_error where
  "needs_write_error = IoError InvalidInput ''creating or truncating a file requires write access''"

definition truncate_append_error :: io_error where
  "truncate_append_error = IoError InvalidInput ''a file cannot be truncated and appended at the same time''"

definition file_exists_error :: io_error where
  "file_exists_error = IoError AlreadyExists ''the file already exists''"

definition path_in_use_error :: io_error where
  "path_in_use_error = IoError AlreadyExists ''the path is already in use''"

text \<open>The check of \<open>create_new\<close>.\<close>

definition require_absent ::
  "('d, 'f, 'b, 'st, 'it, 'w) opfs_ops \<Rightarrow> string \<Rightarrow> (('d, 'w) wasm, unit) io" where
  "require_absent ops path s =
     (case file_at ops path False s of
        (Inr h, s') \<Rightarrow> (Inl file_exists_error, s')
      | (Inl e, s') \<Rightarrow>
          (if err_kind e = NotFound then (Inr (), s')
           else if err_kind e = IsADirectory then (Inl path_in_use_error, s')
           else (Inl e, s')))"

definition open_file ::
  "('d, 'f, 'b, 'st, 'it, 'w) opfs_ops \<Rightarrow> string \<Rightarrow> open_options \<Rightarrow> (('d, 'w) wasm, 'f wasm_file) io" where
  "open_file ops path o' =
     (let writable = opt_write o' \<or> opt_append o'
      in if \<not> opt_read o' \<and> \<not> writable then fail_io no_access_error
         else if (opt_truncate o' \<or> opt_create o' \<or> opt_create_new o') \<and> \<not> writable
         then fail_io needs_write_error
         else if opt_truncate o' \<and> opt_append o' then fail_io truncate_append_error
         else try_io (if opt_create_new o' then require_absent ops path else ok_io ())
           (\<lambda>u. try_io (file_at ops path (opt_create o' \<or> opt_create_new o'))
             (\<lambda>h. try_io (if opt_truncate o' then overwrite ops h [] else ok_io ())
               (\<lambda>u'. ok_io \<lparr>wf_handle = h, wf_readable = opt_read o', wf_writable = writable,
                  wf_append = opt_append o', wf_position = 0\<rparr>))))"

definition wasm_open_with ::
  "('d, 'f, 'b, 'st, 'it, 'w) opfs_ops \<Rightarrow> open_options \<Rightarrow> string \<Rightarrow> (('d, 'w) wasm, 'f wasm_file) io" where
  "wasm_open_with ops o' path = open_file ops path o'"

end
