(* ===== verification/Wasm_Directories.thy ===== *)
theory Wasm_Directories
  imports Wasm
begin

text \<open>
  \<open>FileSystemMetadata\<close> and \<open>FileSystemDirectories\<close> of \<open>WasmFileSystem\<close> and the directory reader,
  \<open>src/src/fs/wasm.rs\<close>. \<open>copy_directory\<close> recurses over directories that it may be changing itself, so it
  is a function that may have no result.
\<close>

section \<open>Metadata of paths\<close>

definition path_metadata ::
  "('d, 'f, 'b, 'st, 'it, 'w) opfs_ops \<Rightarrow> string \<Rightarrow> (('d, 'w) wasm, (unit, unit, nat) metadata) io" where
  "path_metadata ops path =
     try_io (lift_result (split_path (name_valid ops) path))
       (\<lambda>names.
          if names = [] then try_io (directory_at ops [] False) (\<lambda>d. ok_io wasm_directory_meta)
          else try_io (directory_at ops (butlast names) False)
            (\<lambda>d s. case await_promise (js_file_handle ops d (last names) False) EntryFile s of
               (Inr v, s1) \<Rightarrow>
                 try_io (lift_result (cast_file_handle ops v)) (opfs_file_metadata ops) s1
             | (Inl e, s1) \<Rightarrow>
                 (if err_kind e = IsADirectory then
                    try_io (await_promise (js_directory_handle ops d (last names) False) EntryDirectory)
                      (\<lambda>v. ok_io wasm_directory_meta) s1
                  else (Inl e, s1))))"

definition wasm_metadata ::
  "('d, 'f, 'b, 'st, 'it, 'w) opfs_ops \<Rightarrow> string \<Rightarrow> (('d, 'w) wasm, (unit, unit, nat) metadata) io" where
  "wasm_metadata ops path = path_metadata ops path"

definition wasm_symlink_metadata ::
  "('d, 'f, 'b, 'st, 'it, 'w) opfs_ops \<Rightarrow> string \<Rightarrow> (('d, 'w) wasm, (unit, unit, nat) metadata) io" where
  "wasm_symlink_metadata ops path = path_metadata ops path"

definition wasm_set_path_permissions :: "string \<Rightarrow> permissions \<Rightarrow> (('d, 'w) wasm, unit) io" where
  "wasm_set_path_permissions path p = fail_io unsupported_permissions"

definition wasm_canonicalize ::
  "('d, 'f, 'b, 'st, 'it, 'w) opfs_ops \<Rightarrow> string \<Rightarrow> (('d, 'w) wasm, string) io" where
  "wasm_canonicalize ops path =
     try_io (lift_result (split_path (name_valid ops) path))
       (\<lambda>names. try_io (path_metadata ops (joined_path names)) (\<lambda>m. ok_io (joined_path names)))"

definition wasm_try_exists ::
  "('d, 'f, 'b, 'st, 'it, 'w) opfs_ops \<Rightarrow> string \<Rightarrow> (('d, 'w) wasm, bool) io" where
  "wasm_try_exists ops path s =
     (case path_metadata ops path s of
        (Inr m, s') \<Rightarrow> (Inr True, s')
      | (Inl e, s') \<Rightarrow> (if err_kind e = NotFound then (Inr False, s') else (Inl e, s')))"

section \<open>Creating and removing\<close>

definition root_exists_error :: io_error where
  "root_exists_error = IoError AlreadyExists ''the OPFS root already exists''"

definition directory_exists_error :: io_error where
  "directory_exists_error = IoError AlreadyExists ''the directory already exists''"

definition wasm_create_dir ::
  "('d, 'f, 'b, 'st, 'it, 'w) opfs_ops \<Rightarrow> string \<Rightarrow> (('d, 'w) wasm, unit) io" where
  "wasm_create_dir ops path =
     try_io (lift_result (split_path (name_valid ops) path))
       (\<lambda>names.
          if names = [] then fail_io root_exists_error
          else try_io (directory_at ops (butlast names) False)
            (\<lambda>parent s.
               case await_promise (js_directory_handle ops parent (last names) False) EntryDirectory s of
                 (Inr v, s1) \<Rightarrow> (Inl directory_exists_error, s1)
               | (Inl e, s1) \<Rightarrow>
                   (if err_kind e = NotADirectory then (Inl path_in_use_error, s1)
                    else if err_kind e = NotFound then
                      try_io (await_promise (js_directory_handle ops parent (last names) True) EntryDirectory)
                        (\<lambda>v. ok_io ()) s1
                    else (Inl e, s1))))"

definition wasm_create_dir_all ::
  "('d, 'f, 'b, 'st, 'it, 'w) opfs_ops \<Rightarrow> string \<Rightarrow> (('d, 'w) wasm, unit) io" where
  "wasm_create_dir_all ops path =
     try_io (lift_result (split_path (name_valid ops) path))
       (\<lambda>names. try_io (directory_at ops names True) (\<lambda>d. ok_io ()))"

definition remove_path ::
  "('d, 'f, 'b, 'st, 'it, 'w) opfs_ops \<Rightarrow> string \<Rightarrow> entry_kind \<Rightarrow> bool \<Rightarrow> (('d, 'w) wasm, unit) io" where
  "remove_path ops path kind recursive =
     try_io (lift_result (split_parent (name_valid ops) path))
       (\<lambda>(directories, name). try_io (directory_at ops directories False)
         (\<lambda>d. try_io
            (case kind of
               EntryFile \<Rightarrow> await_promise (js_file_handle ops d name False) EntryFile
             | EntryDirectory \<Rightarrow> await_promise (js_directory_handle ops d name False) EntryDirectory
             | EntryEither \<Rightarrow> ok_io (JsOther []))
            (\<lambda>v. try_io (await_promise (js_remove_entry ops d name recursive) kind) (\<lambda>v'. ok_io ()))))"

definition wasm_remove_dir ::
  "('d, 'f, 'b, 'st, 'it, 'w) opfs_ops \<Rightarrow> string \<Rightarrow> (('d, 'w) wasm, unit) io" where
  "wasm_remove_dir ops path = remove_path ops path EntryDirectory False"

definition wasm_remove_dir_all ::
  "('d, 'f, 'b, 'st, 'it, 'w) opfs_ops \<Rightarrow> string \<Rightarrow> (('d, 'w) wasm, unit) io" where
  "wasm_remove_dir_all ops path = remove_path ops path EntryDirectory True"

definition wasm_remove_file ::
  "('d, 'f, 'b, 'st, 'it, 'w) opfs_ops \<Rightarrow> string \<Rightarrow> (('d, 'w) wasm, unit) io" where
  "wasm_remove_file ops path = remove_path ops path EntryFile False"

section \<open>Reading directories\<close>

record 'it wasm_read_dir =
  rd_iterator :: 'it
  rd_path :: string

datatype 'f dir_entry_kind = FileEntry 'f | DirectoryEntry

record 'f wasm_dir_entry =
  de_path :: string
  de_name :: string
  de_kind :: "'f dir_entry_kind"

definition wasm_read_dir_of ::
  "('d, 'f, 'b, 'st, 'it, 'w) opfs_ops \<Rightarrow> string \<Rightarrow> (('d, 'w) wasm, 'it wasm_read_dir) io" where
  "wasm_read_dir_of ops path =
     try_io (lift_result (split_path (name_valid ops) path))
       (\<lambda>names. try_io (directory_at ops names False)
         (\<lambda>d s. case js_entries ops d (browser s) of
            (it, w) \<Rightarrow> (Inr \<lparr>rd_iterator = it, rd_path = joined_path names\<rparr>, s\<lparr>browser := w\<rparr>)))"

definition no_name_error :: io_error where
  "no_name_error = IoError Other ''OPFS returned a directory entry without a file name''"

definition unknown_entry_error :: io_error where
  "unknown_entry_error = IoError Other ''OPFS returned an unknown entry type''"

text \<open>
  The result of the iterator: \<open>done\<close>, unless it is a boolean that is true, means there is a \<open>value\<close>. A
  value that is no iterator result has neither property.
\<close>

definition entry_of ::
  "('d, 'f, 'b, 'st, 'it, 'w) opfs_ops \<Rightarrow> string \<Rightarrow> ('d, 'f, 'b, 'st) js_value \<Rightarrow>
   'f wasm_dir_entry option io_result" where
  "entry_of ops dir result =
     (case (case result of JsStep fin val \<Rightarrow> (fin, val) | _ \<Rightarrow> (None, Inr (None, JsOther [], None))) of
        (Some True, val) \<Rightarrow> Inr None
      | (_, Inl e) \<Rightarrow> Inl (js_error e EntryEither)
      | (_, Inr (None, h, k)) \<Rightarrow> Inl no_name_error
      | (_, Inr (Some n, h, k)) \<Rightarrow>
          (let kind = (case property k of Some s \<Rightarrow> s | None \<Rightarrow> [])
           in if kind = ''file'' then
                map_sum id (\<lambda>f. Some \<lparr>de_path = push_path dir n, de_name = n, de_kind = FileEntry f\<rparr>)
                  (cast_file_handle ops h)
              else if kind = ''directory'' then
                map_sum id (\<lambda>d. Some \<lparr>de_path = push_path dir n, de_name = n, de_kind = DirectoryEntry\<rparr>)
                  (cast_directory ops h)
              else Inl unknown_entry_error))"

definition next_entry ::
  "('d, 'f, 'b, 'st, 'it, 'w) opfs_ops \<Rightarrow> 'it wasm_read_dir \<Rightarrow> (('d, 'w) wasm, 'f wasm_dir_entry option) io" where
  "next_entry ops rd =
     try_io (js_call (js_next ops (rd_iterator rd)) EntryEither)
       (\<lambda>p. try_io (await_promise p EntryEither) (\<lambda>result. lift_result (entry_of ops (rd_path rd) result)))"

definition entry_metadata ::
  "('d, 'f, 'b, 'st, 'it, 'w) opfs_ops \<Rightarrow> 'f wasm_dir_entry \<Rightarrow> (('d, 'w) wasm, (unit, unit, nat) metadata) io" where
  "entry_metadata ops e =
     (case de_kind e of FileEntry f \<Rightarrow> opfs_file_metadata ops f | DirectoryEntry \<Rightarrow> ok_io wasm_directory_meta)"

text \<open>\<open>is_file\<close> and \<open>is_dir\<close> of metadata on this target.\<close>

fun wasm_is_file :: "(unit, unit, nat) metadata \<Rightarrow> bool" where
  "wasm_is_file (WasmMeta k len t) = (k = WasmPlainFile)"
| "wasm_is_file m = False"

fun wasm_is_dir :: "(unit, unit, nat) metadata \<Rightarrow> bool" where
  "wasm_is_dir (WasmMeta k len t) = (k = WasmDirectory)"
| "wasm_is_dir m = False"

text \<open>\<open>DirEntry::file_type\<close>, as whether it is a directory.\<close>

definition entry_is_dir ::
  "('d, 'f, 'b, 'st, 'it, 'w) opfs_ops \<Rightarrow> 'f wasm_dir_entry \<Rightarrow> (('d, 'w) wasm, bool) io" where
  "entry_is_dir ops e = try_io (entry_metadata ops e) (\<lambda>m. ok_io (wasm_is_dir m))"

section \<open>Copying and renaming\<close>

definition wasm_copy ::
  "('d, 'f, 'b, 'st, 'it, 'w) opfs_ops \<Rightarrow> string \<Rightarrow> string \<Rightarrow> (('d, 'w) wasm, u64) io" where
  "wasm_copy ops from to =
     try_io (wasm_read_path ops from)
       (\<lambda>contents. try_io (wasm_write_path ops to contents) (\<lambda>u. ok_io (of_nat (length contents))))"

text \<open>\<open>copy_directory\<close>: from its start, or from its loop over the entries.\<close>

datatype 'it copy_job = CopyTree string string | CopyEntries "'it wasm_read_dir" string

partial_function (option) copy_directory ::
  "('d, 'f, 'b, 'st, 'it, 'w) opfs_ops \<Rightarrow> 'it copy_job \<Rightarrow> ('d, 'w) wasm \<Rightarrow>
   (unit io_result \<times> ('d, 'w) wasm) option" where
  "copy_directory ops job s =
     (case job of
        CopyTree src dst \<Rightarrow>
          (case try_io (wasm_create_dir_all ops dst) (\<lambda>u. wasm_read_dir_of ops src) s of
             (Inl e, s1) \<Rightarrow> Some (Inl e, s1)
           | (Inr rd, s1) \<Rightarrow> copy_directory ops (CopyEntries rd dst) s1)
      | CopyEntries rd dst \<Rightarrow>
          (case next_entry ops rd s of
             (Inl e, s1) \<Rightarrow> Some (Inl e, s1)
           | (Inr None, s1) \<Rightarrow> Some (Inr (), s1)
           | (Inr (Some entry), s1) \<Rightarrow>
               (case entry_is_dir ops entry s1 of
                  (Inl e, s2) \<Rightarrow> Some (Inl e, s2)
                | (Inr is_dir, s2) \<Rightarrow>
                    Option.bind
                      (if is_dir
                       then copy_directory ops (CopyTree (de_path entry) (push_path dst (de_name entry))) s2
                       else (case wasm_copy ops (de_path entry) (push_path dst (de_name entry)) s2 of
                               (r, s3) \<Rightarrow> Some (map_sum id (\<lambda>n. ()) r, s3)))
                      (\<lambda>(r, s3). case r of Inl e \<Rightarrow> Some (Inl e, s3)
                         | Inr u \<Rightarrow> copy_directory ops (CopyEntries rd dst) s3))))"

definition into_itself_error :: io_error where
  "into_itself_error = IoError InvalidInput ''a directory cannot be moved into itself''"

fun starts_with :: "string list \<Rightarrow> string list \<Rightarrow> bool" where
  "starts_with ns [] = True"
| "starts_with [] (p # ps) = False"
| "starts_with (n # ns) (p # ps) = (n = p \<and> starts_with ns ps)"

definition wasm_rename ::
  "('d, 'f, 'b, 'st, 'it, 'w) opfs_ops \<Rightarrow> string \<Rightarrow> string \<Rightarrow> ('d, 'w) wasm \<Rightarrow>
   (unit io_result \<times> ('d, 'w) wasm) option" where
  "wasm_rename ops src dst s =
     (case (split_path (name_valid ops) src, split_path (name_valid ops) dst) of
        (Inl e, _) \<Rightarrow> Some (Inl e, s)
      | (Inr _, Inl e) \<Rightarrow> Some (Inl e, s)
      | (Inr ns, Inr ms) \<Rightarrow>
          (let from = joined_path ns; to = joined_path ms
           in case path_metadata ops from s of
                (Inl e, s1) \<Rightarrow> Some (Inl e, s1)
              | (Inr m, s1) \<Rightarrow>
                  (if from = to then Some (Inr (), s1)
                   else if wasm_is_file m then
                     Some (try_io (wasm_copy ops from to) (\<lambda>n. wasm_remove_file ops from) s1)
                   else
                     (case (split_path (name_valid ops) from, split_path (name_valid ops) to) of
                        (Inl e, _) \<Rightarrow> Some (Inl e, s1)
                      | (Inr _, Inl e) \<Rightarrow> Some (Inl e, s1)
                      | (Inr fs, Inr ts) \<Rightarrow>
                          (if starts_with ts fs then Some (Inl into_itself_error, s1)
                           else
                             (case copy_directory ops (CopyTree from to) s1 of
                                None \<Rightarrow> None
                              | Some (Inl e, s2) \<Rightarrow> Some (Inl e, s2)
                              | Some (Inr u, s2) \<Rightarrow> Some (wasm_remove_dir_all ops from s2)))))))"

end
