(* ===== verification/Wasm_Contents.thy ===== *)
theory Wasm_Contents
  imports Wasm
begin

text \<open>
  What OPFS promises about the contents of files, what the functions of \<open>Wasm\<close> do to them, and the
  contracts of \<open>File_Traits\<close> interpreted on \<open>WasmFile\<close>.
\<close>

section \<open>Contents and streams\<close>

text \<open>The largest integer of JavaScript, as a natural number.\<close>

definition js_limit :: nat where
  "js_limit = 9007199254740991"

lemma max_js_integer_nat: "max_js_integer < p \<longleftrightarrow> js_limit < unat p"
  by (simp add: max_js_integer_def js_limit_def word_less_nat_alt)

text \<open>
  The contents of the file of a handle, the bytes of a file that was read, the handle a stream was made
  from, the bytes it has staged and its cursor, and a bound on the interruptions to come.
\<close>

record ('f, 'b, 'st, 'w) opfs_view =
  content :: "'f \<Rightarrow> 'w \<Rightarrow> byte list option"
  bytes_of :: "'b \<Rightarrow> byte list"
  target :: "'st \<Rightarrow> 'f"
  staged :: "'st \<Rightarrow> 'w \<Rightarrow> byte list"
  cursor :: "'st \<Rightarrow> 'w \<Rightarrow> nat"
  interrupts :: "'w \<Rightarrow> nat"

definition undisturbed :: "('f, 'b, 'st, 'w) opfs_view \<Rightarrow> 'w \<Rightarrow> 'w \<Rightarrow> bool" where
  "undisturbed v w w' \<longleftrightarrow> (\<forall>h. content v h w' = content v h w) \<and> interrupts v w' \<le> interrupts v w"

text \<open>A step that left every file alone; an \<open>AbortError\<close> is one of the interruptions.\<close>

definition mild :: "('f, 'b, 'st, 'w) opfs_view \<Rightarrow> 'w \<Rightarrow> js_exception + 'x \<Rightarrow> 'w \<Rightarrow> bool" where
  "mild v w r w' \<longleftrightarrow> undisturbed v w w' \<and>
     (\<forall>e. r = Inl e \<longrightarrow> js_name e = Some ''AbortError'' \<longrightarrow> interrupts v w' < interrupts v w)"

text \<open>A call on a stream and its promise, which on success has a given effect on what is staged.\<close>

definition stages ::
  "('f, 'b, 'st, 'w) opfs_view \<Rightarrow> 'st \<Rightarrow> ('w \<Rightarrow> (js_exception + ('d, 'f, 'b, 'st, 'w) promise) \<times> 'w) \<Rightarrow>
   (byte list \<Rightarrow> nat \<Rightarrow> byte list \<Rightarrow> nat \<Rightarrow> bool) \<Rightarrow> bool" where
  "stages v st c effect \<longleftrightarrow>
     (\<forall>w r w1. c w = (r, w1) \<longrightarrow> mild v w r w1 \<and>
        (\<forall>p x w2. r = Inr p \<longrightarrow> p w1 = (x, w2) \<longrightarrow> mild v w1 x w2 \<and>
           (\<forall>y. x = Inr y \<longrightarrow> effect (staged v st w) (cursor v st w) (staged v st w2) (cursor v st w2))))"

definition seek_effect :: "nat \<Rightarrow> byte list \<Rightarrow> nat \<Rightarrow> byte list \<Rightarrow> nat \<Rightarrow> bool" where
  "seek_effect n b c b' c' \<longleftrightarrow> b' = b \<and> c' = n"

definition write_effect :: "byte list \<Rightarrow> byte list \<Rightarrow> nat \<Rightarrow> byte list \<Rightarrow> nat \<Rightarrow> bool" where
  "write_effect bs b c b' c' \<longleftrightarrow> b' = put_at c bs b \<and> c' = c + length bs \<and> length bs < 2 ^ 32"

definition resized :: "nat \<Rightarrow> byte list \<Rightarrow> byte list" where
  "resized n b = take n (b @ replicate (n - length b) 0)"

definition truncate_effect :: "nat \<Rightarrow> byte list \<Rightarrow> nat \<Rightarrow> byte list \<Rightarrow> nat \<Rightarrow> bool" where
  "truncate_effect n b c b' c' \<longleftrightarrow> b' = resized n b"

text \<open>
  OPFS, while no one else writes the file: a stream works on a copy, which \<open>close\<close> puts in place or, when
  it fails, not at all. Numbers of bytes fit a JavaScript integer, and buffers the address space.
\<close>

definition opfs_laws ::
  "('d, 'f, 'b, 'st, 'it, 'w) opfs_ops \<Rightarrow> ('f, 'b, 'st, 'w) opfs_view \<Rightarrow> bool" where
  "opfs_laws ops v \<longleftrightarrow>
     (\<forall>h w r w'. js_get_file ops h w = (r, w') \<longrightarrow> mild v w r w' \<and>
        (\<forall>b. r = Inr (JsFile b) \<longrightarrow> content v h w = Some (bytes_of v b))) \<and>
     (\<forall>b w r w'. js_array_buffer ops b w = (r, w') \<longrightarrow> mild v w r w' \<and>
        (\<forall>x. r = Inr x \<longrightarrow> to_vec x = bytes_of v b \<and> length (bytes_of v b) < 2 ^ 32)) \<and>
     (\<forall>b. js_size ops b = Whole (length (bytes_of v b)) \<and> length (bytes_of v b) \<le> js_limit) \<and>
     (\<forall>h k w r w'. js_create_writable ops h k w = (r, w') \<longrightarrow> mild v w r w' \<and>
        (\<forall>st. r = Inr (JsStream st) \<longrightarrow> target v st = h \<and> cursor v st w' = 0 \<and>
           (\<exists>c. content v h w = Some c \<and> staged v st w' = (if k then c else [])))) \<and>
     (\<forall>st n. stages v st (js_seek ops st n) (seek_effect n)) \<and>
     (\<forall>st bs. stages v st (js_write ops st bs) (write_effect bs)) \<and>
     (\<forall>st n. stages v st (js_truncate ops st n) (truncate_effect n)) \<and>
     (\<forall>st w r w'. js_close ops st w = (r, w') \<longrightarrow>
        (\<forall>e. r = Inl e \<longrightarrow> mild v w r w') \<and>
        (\<forall>x. r = Inr x \<longrightarrow> content v (target v st) w' = Some (staged v st w) \<and>
           interrupts v w' \<le> interrupts v w)) \<and>
     (\<forall>st w r w'. js_abort ops st w = (r, w') \<longrightarrow> undisturbed v w w')"

lemma undisturbed_refl [simp]: "undisturbed v w w"
  by (simp add: undisturbed_def)

lemma undisturbed_trans: "undisturbed v w w1 \<Longrightarrow> undisturbed v w1 w2 \<Longrightarrow> undisturbed v w w2"
  by (auto simp: undisturbed_def)

lemma laws_get_file:
  "opfs_laws ops v \<Longrightarrow> js_get_file ops h w = (r, w') \<Longrightarrow> mild v w r w' \<and>
   (\<forall>b. r = Inr (JsFile b) \<longrightarrow> content v h w = Some (bytes_of v b))"
  unfolding opfs_laws_def by (elim conjE) metis

lemma laws_array_buffer:
  "opfs_laws ops v \<Longrightarrow> js_array_buffer ops b w = (r, w') \<Longrightarrow> mild v w r w' \<and>
   (\<forall>x. r = Inr x \<longrightarrow> to_vec x = bytes_of v b \<and> length (bytes_of v b) < 2 ^ 32)"
  unfolding opfs_laws_def by (elim conjE) metis

lemma laws_size:
  "opfs_laws ops v \<Longrightarrow> js_size ops b = Whole (length (bytes_of v b)) \<and> length (bytes_of v b) \<le> js_limit"
  unfolding opfs_laws_def by (elim conjE) metis

lemma laws_create_writable:
  "opfs_laws ops v \<Longrightarrow> js_create_writable ops h k w = (r, w') \<Longrightarrow> mild v w r w' \<and>
   (\<forall>st. r = Inr (JsStream st) \<longrightarrow> target v st = h \<and> cursor v st w' = 0 \<and>
      (\<exists>c. content v h w = Some c \<and> staged v st w' = (if k then c else [])))"
  unfolding opfs_laws_def by (elim conjE) metis

lemma laws_stream:
  assumes "opfs_laws ops v"
  shows "stages v st (js_seek ops st n) (seek_effect n)"
    and "stages v st (js_write ops st bs) (write_effect bs)"
    and "stages v st (js_truncate ops st n) (truncate_effect n)"
  using assms by (simp_all add: opfs_laws_def)

lemma laws_close:
  "opfs_laws ops v \<Longrightarrow> js_close ops st w = (r, w') \<Longrightarrow>
   (\<forall>e. r = Inl e \<longrightarrow> mild v w r w') \<and>
   (\<forall>x. r = Inr x \<longrightarrow> content v (target v st) w' = Some (staged v st w) \<and> interrupts v w' \<le> interrupts v w)"
  unfolding opfs_laws_def by (elim conjE) metis

lemma laws_abort:
  "opfs_laws ops v \<Longrightarrow> js_abort ops st w = (r, w') \<Longrightarrow> undisturbed v w w'"
  unfolding opfs_laws_def by (elim conjE) metis

section \<open>Steps of the crate\<close>

text \<open>The same on the crate's side: an \<open>Interrupted\<close> error is one of the interruptions.\<close>

definition gentle ::
  "('f, 'b, 'st, 'w) opfs_view \<Rightarrow> ('d, 'w) wasm \<Rightarrow> 'x io_result \<Rightarrow> ('d, 'w) wasm \<Rightarrow> bool" where
  "gentle v s r s' \<longleftrightarrow> undisturbed v (browser s) (browser s') \<and>
     (\<forall>e. r = Inl e \<longrightarrow> err_kind e = Interrupted \<longrightarrow> interrupts v (browser s') < interrupts v (browser s))"

lemma js_error_interrupted: "err_kind (js_error e entry) = Interrupted \<longleftrightarrow> js_name e = Some ''AbortError''"
proof -
  have "js_error_kind n entry = Interrupted \<longleftrightarrow> n = ''AbortError''" for n
    by (auto simp: js_error_kind_def split: entry_kind.splits if_splits)
  then have "err_kind (js_error e entry) = Interrupted \<longleftrightarrow>
      (case property (js_name e) of Some s \<Rightarrow> s | None \<Rightarrow> []) = ''AbortError''"
    by (simp add: js_error_def Let_def)
  then show ?thesis by (auto simp: property_def split: option.splits)
qed

lemma await_gentle:
  assumes "await_promise p entry s = (r, s')" and "\<And>x w. p (browser s) = (x, w) \<Longrightarrow> mild v (browser s) x w"
  shows "gentle v s r s'"
  using assms(1) assms(2) [of "fst (p (browser s))" "snd (p (browser s))"]
  by (auto simp: await_promise_def gentle_def mild_def js_error_interrupted split: prod.splits sum.splits)

lemma gentle_trans_Inr: "gentle v s (Inr x) s1 \<Longrightarrow> gentle v s1 r s2 \<Longrightarrow> gentle v s r s2"
  by (fastforce simp: gentle_def undisturbed_def)

lemma gentle_other_Inr [simp]: "gentle v s (Inr x) s' \<longleftrightarrow> undisturbed v (browser s) (browser s')"
  by (simp add: gentle_def)

lemma gentle_Inl [simp]:
  "gentle v s (Inl e) s' \<longleftrightarrow> undisturbed v (browser s) (browser s') \<and>
     (err_kind e = Interrupted \<longrightarrow> interrupts v (browser s') < interrupts v (browser s))"
  by (simp add: gentle_def)

lemma unexpected_kind [simp]: "err_kind (unexpected ops x) = Other"
  by (simp add: unexpected_def)

lemma cast_results:
  "cast_file ops x = Inr b \<longleftrightarrow> x = JsFile b" "cast_stream ops x = Inr st \<longleftrightarrow> x = JsStream st"
  "cast_file ops x = Inl e \<Longrightarrow> err_kind e = Other" "cast_stream ops x = Inl e \<Longrightarrow> err_kind e = Other"
  by (auto simp: cast_file_def cast_stream_def split: js_value.splits)

text \<open>A step, then a cast of its result.\<close>

lemma gentle_lift:
  assumes "gentle v s (Inr x) s1" and "\<And>e. q = Inl e \<Longrightarrow> err_kind e \<noteq> Interrupted"
  shows "gentle v s q s1"
  using assms by (fastforce simp: gentle_def undisturbed_def)

lemma get_file_effect:
  assumes "opfs_laws ops v" and "get_file ops h s = (r, s')"
  shows "gentle v s r s' \<and> (\<forall>b. r = Inr b \<longrightarrow> content v h (browser s) = Some (bytes_of v b))"
proof -
  obtain x s1 where a: "await_promise (js_get_file ops h) EntryFile s = (x, s1)"
    by (cases "await_promise (js_get_file ops h) EntryFile s")
  have g: "gentle v s x s1" using laws_get_file [OF assms(1)] by (intro await_gentle [OF a]) blast
  show ?thesis
  proof (cases x)
    case (Inl e)
    with assms(2) a g show ?thesis by (auto simp: get_file_def try_io_def)
  next
    case (Inr y)
    with assms(2) a have r: "r = cast_file ops y" "s' = s1"
      by (auto simp: get_file_def try_io_def lift_result_def)
    obtain w where p: "js_get_file ops h (browser s) = (Inr y, w)"
      using a Inr by (auto simp: await_promise_def split: prod.splits sum.splits)
    have "gentle v s (cast_file ops y) s1"
      by (rule gentle_lift [OF g [unfolded Inr]]) (auto dest: cast_results(3))
    with r laws_get_file [OF assms(1) p] show ?thesis by (auto simp: cast_results)
  qed
qed

lemma read_contents_effect:
  assumes "opfs_laws ops v" and "read_contents ops h s = (r, s')"
  shows "gentle v s r s' \<and> (\<forall>bs. r = Inr bs \<longrightarrow> content v h (browser s) = Some bs \<and> length bs < 2 ^ 32)"
proof -
  obtain x s1 where g1: "get_file ops h s = (x, s1)" by (cases "get_file ops h s")
  note G = get_file_effect [OF assms(1) g1]
  show ?thesis
  proof (cases x)
    case (Inl e)
    with assms(2) g1 G show ?thesis by (auto simp: read_contents_def try_io_def)
  next
    case (Inr b)
    obtain y s2 where a: "await_promise (js_array_buffer ops b) EntryFile s1 = (y, s2)"
      by (cases "await_promise (js_array_buffer ops b) EntryFile s1")
    have g2: "gentle v s1 y s2" using laws_array_buffer [OF assms(1)] by (intro await_gentle [OF a]) blast
    from assms(2) g1 Inr a have r: "r = map_sum id to_vec y" "s' = s2"
      by (auto simp: read_contents_def try_io_def ok_io_def split: sum.splits)
    from G Inr have "gentle v s (Inr b) s1" by simp
    from gentle_trans_Inr [OF this g2] have "gentle v s y s2" .
    then have "gentle v s r s'" using r by (cases y) (auto simp: gentle_def)
    moreover have "content v h (browser s) = Some bs \<and> length bs < 2 ^ 32" if "r = Inr bs" for bs
    proof -
      from that r obtain z where z: "y = Inr z" "bs = to_vec z" by (cases y) auto
      obtain w where "js_array_buffer ops b (browser s1) = (Inr z, w)"
        using a z by (auto simp: await_promise_def split: prod.splits sum.splits)
      from laws_array_buffer [OF assms(1) this] G Inr z show ?thesis by simp
    qed
    ultimately show ?thesis by blast
  qed
qed

lemma metadata_effect:
  assumes "opfs_laws ops v" and "opfs_file_metadata ops h s = (r, s')"
  shows "gentle v s r s' \<and>
    (\<forall>m. r = Inr m \<longrightarrow> (\<exists>c. content v h (browser s) = Some c \<and> unat (wasm_len m) = length c \<and>
       length c \<le> js_limit))"
proof -
  obtain x s1 where g1: "get_file ops h s = (x, s1)" by (cases "get_file ops h s")
  note G = get_file_effect [OF assms(1) g1]
  show ?thesis
  proof (cases x)
    case (Inl e)
    with assms(2) g1 G show ?thesis by (auto simp: opfs_file_metadata_def try_io_def)
  next
    case (Inr b)
    note sz = laws_size [OF assms(1), of b]
    then have len: "unat (of_nat (as_u64 (js_size ops b)) :: u64) = length (bytes_of v b)"
      by (simp add: js_limit_def min_def unat_of_nat_u64)
    have r: "opfs_file_metadata ops h s =
       (case js_last_modified ops b of
          Whole n \<Rightarrow>
            (case epoch_plus ops (as_u64 (Whole n)) of
               None \<Rightarrow> fail_io timestamp_error
             | Some t \<Rightarrow> ok_io (wasm_file_meta (of_nat (as_u64 (js_size ops b))) t))
        | _ \<Rightarrow> fail_io timestamp_error) s1"
      using g1 Inr by (simp add: opfs_file_metadata_def try_io_def)
    have "(r = Inl timestamp_error \<or> (\<exists>t. r = Inr (wasm_file_meta (of_nat (as_u64 (js_size ops b))) t))) \<and> s' = s1"
      using assms(2) unfolding r
      by (cases "js_last_modified ops b") (auto simp: fail_io_def ok_io_def simp del: as_u64.simps split: option.splits)
    with G Inr sz len show ?thesis by (auto simp: timestamp_error_def wasm_file_meta_def)
  qed
qed

section \<open>Writing through a stream\<close>

text \<open>A call on a stream whose promise is awaited, and the end of a write, in which it is committed.\<close>

definition staged_call ::
  "('w \<Rightarrow> (js_exception + ('d, 'f, 'b, 'st, 'w) promise) \<times> 'w) \<Rightarrow>
   (('d, 'w) wasm, ('d, 'f, 'b, 'st) js_value) io" where
  "staged_call c = try_io (js_call c EntryFile) (\<lambda>p. await_promise p EntryFile)"

definition commit ::
  "('d, 'f, 'b, 'st, 'it, 'w) opfs_ops \<Rightarrow> 'st \<Rightarrow> (('d, 'w) wasm, 'x) io \<Rightarrow> (('d, 'w) wasm, unit) io" where
  "commit ops st m s =
     (case m s of
        (Inl e, s') \<Rightarrow> abort_with ops st e s'
      | (Inr x, s') \<Rightarrow> try_io (await_promise (js_close ops st) EntryFile) (\<lambda>y. ok_io ()) s')"

lemma finish_write_eq:
  "(case js_call c EntryFile s of (operation, s') \<Rightarrow> finish_write ops st operation s') =
   commit ops st (staged_call c) s"
  by (auto simp: finish_write_def commit_def staged_call_def try_io_def split: prod.splits sum.splits)

lemma overwrite_eq:
  "overwrite ops h bs = try_io (open_writer ops h False) (\<lambda>st. commit ops st (staged_call (js_write ops st bs)))"
  by (simp add: overwrite_def finish_write_eq)

lemma wasm_truncate_eq:
  "\<not> max_js_integer < n \<Longrightarrow> wasm_truncate ops h n =
    try_io (open_writer ops h True) (\<lambda>st. commit ops st (staged_call (js_truncate ops st (unat n))))"
  by (simp add: wasm_truncate_def finish_write_eq)

lemma write_at_eq:
  assumes "bs \<noteq> []" and "\<not> max_js_integer < p"
  shows "write_at ops h p bs =
    try_io (open_writer ops h True)
      (\<lambda>st. commit ops st
        (try_io (staged_call (js_seek ops st (unat p))) (\<lambda>x. staged_call (js_write ops st bs))))"
proof -
  have "(case js_call (js_seek ops st (unat p)) EntryFile s of
           (Inl e, s1) \<Rightarrow> abort_with ops st e s1
         | (Inr q, s1) \<Rightarrow>
             (case await_promise q EntryFile s1 of
                (Inl e, s2) \<Rightarrow> abort_with ops st e s2
              | (Inr x, s2) \<Rightarrow>
                  (case js_call (js_write ops st bs) EntryFile s2 of
                     (operation, s3) \<Rightarrow> finish_write ops st operation s3))) =
      commit ops st (try_io (staged_call (js_seek ops st (unat p))) (\<lambda>x. staged_call (js_write ops st bs))) s"
    for st s
    unfolding finish_write_eq
    by (simp add: commit_def staged_call_def try_io_def split: prod.split sum.split)
  with assms show ?thesis by (simp add: write_at_def)
qed

text \<open>
  A write either fails and leaves every file alone, or turns the contents of the file into what \<open>f\<close>
  makes of them.
\<close>

definition wrote ::
  "('f, 'b, 'st, 'w) opfs_view \<Rightarrow> 'f \<Rightarrow> (byte list \<Rightarrow> byte list) \<Rightarrow> ('d, 'w) wasm \<Rightarrow> unit io_result \<Rightarrow>
   ('d, 'w) wasm \<Rightarrow> bool" where
  "wrote v h f s r s' \<longleftrightarrow>
     (case r of
        Inl e \<Rightarrow> gentle v s r s'
      | Inr u \<Rightarrow> (\<exists>c. content v h (browser s) = Some c \<and> content v h (browser s') = Some (f c)) \<and>
          interrupts v (browser s') \<le> interrupts v (browser s))"

lemma js_call_gentle:
  assumes "js_call c entry s = (r, s')" and "\<And>x w. c (browser s) = (x, w) \<Longrightarrow> mild v (browser s) x w"
  shows "gentle v s r s'"
  using assms(1) assms(2) [of "fst (c (browser s))" "snd (c (browser s))"]
  by (auto simp: js_call_def gentle_def mild_def js_error_interrupted split: prod.splits sum.splits)

lemma staged_call_effect:
  assumes "stages v st c eff" and "staged_call c s = (r, s')"
  shows "gentle v s r s' \<and>
    (\<forall>y. r = Inr y \<longrightarrow> eff (staged v st (browser s)) (cursor v st (browser s))
       (staged v st (browser s')) (cursor v st (browser s')))"
proof -
  obtain x s1 where j: "js_call c EntryFile s = (x, s1)" by (cases "js_call c EntryFile s")
  have g1: "gentle v s x s1" using assms(1) unfolding stages_def by (intro js_call_gentle [OF j]) blast
  show ?thesis
  proof (cases x)
    case (Inl e)
    with assms(2) j g1 show ?thesis by (auto simp: staged_call_def try_io_def)
  next
    case (Inr p)
    with assms(2) j have a: "await_promise p EntryFile s1 = (r, s')"
      by (simp add: staged_call_def try_io_def)
    have c: "c (browser s) = (Inr p, browser s1)"
      using j Inr by (auto simp: js_call_def split: prod.splits sum.splits)
    with assms(1) have p: "p (browser s1) = (y, w2) \<Longrightarrow> mild v (browser s1) y w2 \<and>
        (\<forall>z. y = Inr z \<longrightarrow> eff (staged v st (browser s)) (cursor v st (browser s)) (staged v st w2) (cursor v st w2))"
      for y w2 unfolding stages_def by blast
    then have "gentle v s1 r s'" by (intro await_gentle [OF a]) blast
    with g1 Inr have "gentle v s r s'" using gentle_trans_Inr [of v s p s1 r s'] by simp
    moreover have "p (browser s1) = (Inr z, browser s')" if "r = Inr z" for z
      using a that by (auto simp: await_promise_def split: prod.splits sum.splits)
    ultimately show ?thesis using p by blast
  qed
qed

lemma abort_effect:
  assumes "opfs_laws ops v" and "abort_with ops st e s = (r, s')"
  shows "r = Inl e \<and> undisturbed v (browser s) (browser s')"
  using assms(2) laws_abort [OF assms(1), of st "browser s"]
  by (auto simp: abort_with_def await_promise_def split: prod.splits sum.splits)

lemma gentle_then_abort:
  "gentle v s (Inl e) s1 \<Longrightarrow> undisturbed v (browser s1) (browser s2) \<Longrightarrow> gentle v s (Inl e) s2"
  by (auto simp: undisturbed_def)

lemma commit_effect:
  assumes laws: "opfs_laws ops v" and m: "m s = (r1, s1)" and g: "gentle v s r1 s1"
    and st: "\<And>y. r1 = Inr y \<Longrightarrow> \<exists>c. content v (target v st) (browser s) = Some c \<and> staged v st (browser s1) = f c"
    and c: "commit ops st m s = (r, s')"
  shows "wrote v (target v st) f s r s'"
proof (cases r1)
  case (Inl e)
  with m c have "abort_with ops st e s1 = (r, s')" by (simp add: commit_def)
  from abort_effect [OF laws this] have "r = Inl e" and u: "undisturbed v (browser s1) (browser s')" by simp_all
  moreover from gentle_then_abort [OF g [unfolded Inl] u] have "gentle v s (Inl e :: unit io_result) s'" by simp
  ultimately show ?thesis by (simp add: wrote_def)
next
  case (Inr y)
  obtain x s2 where a: "await_promise (js_close ops st) EntryFile s1 = (x, s2)"
    by (cases "await_promise (js_close ops st) EntryFile s1")
  from m c Inr a have s': "s' = s2" and r: "r = map_sum id (\<lambda>y. ()) x"
    by (auto simp: commit_def try_io_def ok_io_def split: sum.splits)
  obtain q w where cl: "js_close ops st (browser s1) = (q, w)" by (cases "js_close ops st (browser s1)")
  note L = laws_close [OF laws cl]
  show ?thesis
  proof (cases q)
    case ql: (Inl e)
    have "gentle v s1 x s2" using L cl ql by (intro await_gentle [OF a]) auto
    with g Inr have "gentle v s x s2" using gentle_trans_Inr [of v s y s1 x s2] by simp
    moreover from a cl ql have "x = Inl (js_error e EntryFile)" by (auto simp: await_promise_def)
    ultimately show ?thesis using r s' by (simp add: wrote_def)
  next
    case qr: (Inr z)
    from a cl qr have x: "x = Inr z" and w: "browser s2 = w" by (auto simp: await_promise_def)
    from st [OF Inr] L qr g Inr r s' x w show ?thesis
      by (auto simp: wrote_def undisturbed_def intro: order_trans)
  qed
qed

lemma commit_Inr: "commit ops st m s = (Inr u, s') \<Longrightarrow> \<exists>y s1. m s = (Inr y, s1)"
  by (auto simp: commit_def abort_with_def split: prod.splits sum.splits)

lemma open_writer_effect:
  assumes "opfs_laws ops v" and "open_writer ops h keep s = (r, s')"
  shows "gentle v s r s' \<and>
    (\<forall>st. r = Inr st \<longrightarrow> target v st = h \<and> cursor v st (browser s') = 0 \<and>
       (\<exists>c. content v h (browser s) = Some c \<and> staged v st (browser s') = (if keep then c else [])))"
proof -
  obtain x s1 where a: "await_promise (js_create_writable ops h keep) EntryFile s = (x, s1)"
    by (cases "await_promise (js_create_writable ops h keep) EntryFile s")
  have g: "gentle v s x s1" using laws_create_writable [OF assms(1)] by (intro await_gentle [OF a]) blast
  show ?thesis
  proof (cases x)
    case (Inl e)
    with assms(2) a g show ?thesis by (auto simp: open_writer_def try_io_def)
  next
    case (Inr y)
    with assms(2) a have r: "r = cast_stream ops y" "s' = s1"
      by (auto simp: open_writer_def try_io_def lift_result_def)
    have p: "js_create_writable ops h keep (browser s) = (Inr y, browser s1)"
      using a Inr by (auto simp: await_promise_def split: prod.splits sum.splits)
    have "gentle v s (cast_stream ops y) s1"
      by (rule gentle_lift [OF g [unfolded Inr]]) (auto dest: cast_results(4))
    with r laws_create_writable [OF assms(1) p] show ?thesis by (auto simp: cast_results)
  qed
qed

text \<open>Opening a stream, working on it and committing.\<close>

lemma stream_write_effect:
  assumes laws: "opfs_laws ops v"
    and run: "try_io (open_writer ops h keep) (\<lambda>st. commit ops st (m st)) s = (r, s')"
    and work: "\<And>st s1 r2 s2. m st s1 = (r2, s2) \<Longrightarrow> cursor v st (browser s1) = 0 \<Longrightarrow>
      gentle v s1 r2 s2 \<and> (\<forall>y. r2 = Inr y \<longrightarrow> staged v st (browser s2) = g (staged v st (browser s1)))"
  shows "wrote v h (\<lambda>c. g (if keep then c else [])) s r s'"
proof -
  obtain x s1 where o': "open_writer ops h keep s = (x, s1)" by (cases "open_writer ops h keep s")
  note O = open_writer_effect [OF laws o']
  show ?thesis
  proof (cases x)
    case (Inl e)
    with run o' O show ?thesis by (auto simp: try_io_def wrote_def)
  next
    case (Inr st)
    with run o' have c: "commit ops st (m st) s1 = (r, s')" by (simp add: try_io_def)
    from O Inr obtain b where h: "target v st = h" "cursor v st (browser s1) = 0"
        "content v h (browser s) = Some b" "staged v st (browser s1) = (if keep then b else [])"
        "undisturbed v (browser s) (browser s1)" by auto
    then have b: "content v h (browser s1) = Some b" by (simp add: undisturbed_def)
    obtain r2 s2 where m: "m st s1 = (r2, s2)" by (cases "m st s1")
    note W = work [OF m h(2)]
    have "wrote v h (\<lambda>c. g (if keep then c else [])) s1 r s'"
      using commit_effect [OF laws m _ _ c, where f = "\<lambda>c. g (if keep then c else [])"] W h b by auto
    with h show ?thesis
      by (auto simp: wrote_def undisturbed_def split: sum.splits)
  qed
qed

lemma overwrite_effect:
  assumes "opfs_laws ops v" and "overwrite ops h bs s = (r, s')"
  shows "wrote v h (\<lambda>c. bs) s r s'"
proof -
  have "wrote v h (\<lambda>c. put_at 0 bs (if False then c else [])) s r s'"
  proof (rule stream_write_effect [OF assms(1) assms(2) [unfolded overwrite_eq]])
    fix st s1 r2 s2
    assume m: "staged_call (js_write ops st bs) s1 = (r2, s2)" and z: "cursor v st (browser s1) = 0"
    from staged_call_effect [OF laws_stream(2) [OF assms(1)] m] z
    show "gentle v s1 r2 s2 \<and> (\<forall>y. r2 = Inr y \<longrightarrow> staged v st (browser s2) = put_at 0 bs (staged v st (browser s1)))"
      by (simp add: write_effect_def)
  qed
  moreover have "put_at 0 bs [] = bs" by (simp add: put_at_def)
  ultimately show ?thesis by simp
qed

lemma truncate_effect:
  assumes "opfs_laws ops v" and "wasm_truncate ops h n s = (r, s')"
  shows "wrote v h (resized (unat n)) s r s'"
proof (cases "max_js_integer < n")
  case True
  with assms(2) show ?thesis by (auto simp: wasm_truncate_def fail_io_def wrote_def size_range_error_def)
next
  case False
  have "wrote v h (\<lambda>c. resized (unat n) (if True then c else [])) s r s'"
  proof (rule stream_write_effect [OF assms(1) assms(2) [unfolded wasm_truncate_eq [OF False]]])
    fix st s1 r2 s2
    assume m: "staged_call (js_truncate ops st (unat n)) s1 = (r2, s2)"
    from staged_call_effect [OF laws_stream(3) [OF assms(1)] m]
    show "gentle v s1 r2 s2 \<and> (\<forall>y. r2 = Inr y \<longrightarrow> staged v st (browser s2) = resized (unat n) (staged v st (browser s1)))"
      by (simp add: truncate_effect_def)
  qed
  then show ?thesis by simp
qed

lemma write_at_effect:
  assumes "opfs_laws ops v" and "write_at ops h p bs s = (r, s')" and "bs \<noteq> []"
  shows "wrote v h (put_at (unat p) bs) s r s'"
    and "r = Inr u \<Longrightarrow> unat p \<le> js_limit \<and> length bs < 2 ^ 32"
proof -
  show "wrote v h (put_at (unat p) bs) s r s'"
  proof (cases "max_js_integer < p")
    case True
    with assms(2,3) show ?thesis by (auto simp: write_at_def fail_io_def wrote_def position_range_error_def)
  next
    case False
    have "wrote v h (\<lambda>c. put_at (unat p) bs (if True then c else [])) s r s'"
    proof (rule stream_write_effect [OF assms(1) assms(2) [unfolded write_at_eq [OF assms(3) False]]])
      fix st s1 r2 s2
      assume m: "try_io (staged_call (js_seek ops st (unat p))) (\<lambda>x. staged_call (js_write ops st bs)) s1 = (r2, s2)"
      obtain x s3 where k: "staged_call (js_seek ops st (unat p)) s1 = (x, s3)"
        by (cases "staged_call (js_seek ops st (unat p)) s1")
      note K = staged_call_effect [OF laws_stream(1) [OF assms(1)] k]
      show "gentle v s1 r2 s2 \<and>
          (\<forall>y. r2 = Inr y \<longrightarrow> staged v st (browser s2) = put_at (unat p) bs (staged v st (browser s1)))"
      proof (cases x)
        case (Inl e)
        with m k K show ?thesis by (auto simp: try_io_def)
      next
        case (Inr y)
        with m k have w: "staged_call (js_write ops st bs) s3 = (r2, s2)" by (simp add: try_io_def)
        from staged_call_effect [OF laws_stream(2) [OF assms(1)] w] K Inr gentle_trans_Inr [of v s1 y s3 r2 s2]
        show ?thesis by (simp add: seek_effect_def write_effect_def)
      qed
    qed
    then show ?thesis by simp
  qed
  assume r: "r = Inr u"
  with assms(2,3) have in_range: "\<not> max_js_integer < p"
    by (auto simp: write_at_def fail_io_def split: if_splits)
  from assms(2) r obtain st s1 where
    "commit ops st (try_io (staged_call (js_seek ops st (unat p))) (\<lambda>x. staged_call (js_write ops st bs))) s1 =
      (Inr u, s')"
    unfolding write_at_eq [OF assms(3) in_range] by (auto simp: try_io_Inr_iff)
  from commit_Inr [OF this] obtain y s2 s3 where "staged_call (js_write ops st bs) s2 = (Inr y, s3)"
    by (auto simp: try_io_Inr_iff)
  from staged_call_effect [OF laws_stream(2) [OF assms(1)] this] in_range [unfolded max_js_integer_nat]
  show "unat p \<le> js_limit \<and> length bs < 2 ^ 32" by (simp add: write_effect_def)
qed

section \<open>Reading and writing through a \<open>WasmFile\<close>\<close>

text \<open>What is left to read, and what the file becomes when bytes are written.\<close>

definition contents_of :: "('f, 'b, 'st, 'w) opfs_view \<Rightarrow> ('d, 'f, 'w) wasm_open \<Rightarrow> byte list" where
  "contents_of v fs = (case content v (wf_handle (fst fs)) (browser (snd fs)) of None \<Rightarrow> [] | Some c \<Rightarrow> c)"

definition wasm_rest :: "('f, 'b, 'st, 'w) opfs_view \<Rightarrow> ('d, 'f, 'w) wasm_open \<Rightarrow> byte list" where
  "wasm_rest v fs = drop (unat (wf_position (fst fs))) (contents_of v fs)"

definition wasm_put :: "('f, 'b, 'st, 'w) opfs_view \<Rightarrow> byte list \<Rightarrow> ('d, 'f, 'w) wasm_open \<Rightarrow> byte list" where
  "wasm_put v b fs =
     put_at (if wf_append (fst fs) then length (contents_of v fs) else unat (wf_position (fst fs))) b
       (contents_of v fs)"

definition same_file :: "'f wasm_file \<Rightarrow> 'f wasm_file \<Rightarrow> bool" where
  "same_file f f' \<longleftrightarrow> wf_handle f' = wf_handle f \<and> wf_readable f' = wf_readable f \<and>
     wf_writable f' = wf_writable f \<and> wf_append f' = wf_append f"

lemma contents_undisturbed:
  "undisturbed v (browser s) (browser s') \<Longrightarrow> same_file f f' \<Longrightarrow> contents_of v (f', s') = contents_of v (f, s)"
  by (simp add: contents_of_def same_file_def undisturbed_def)

lemma wasm_read_effect:
  assumes laws: "opfs_laws ops v" and read: "wf_readable f"
    and run: "wasm_read ops buf (f, s) = (out, buf', f', s')"
  shows "length buf' = length buf \<and> same_file f f' \<and>
    (case out of
       Unwound \<Rightarrow> False
     | Returned (Inr n) \<Rightarrow> n \<le> length buf \<and> wasm_rest v (f, s) = take n buf' @ wasm_rest v (f', s') \<and>
         interrupts v (browser s') \<le> interrupts v (browser s) \<and>
         (n = 0 \<longrightarrow> buf = [] \<or> wasm_rest v (f, s) = [])
     | Returned (Inl e) \<Rightarrow> f' = f \<and> gentle v s (Inl e :: unit io_result) s')"
proof -
  obtain r s1 where c: "read_contents ops (wf_handle f) s = (r, s1)"
    by (cases "read_contents ops (wf_handle f) s")
  note C = read_contents_effect [OF laws c]
  show ?thesis
  proof (cases r)
    case (Inl e)
    with run c read C show ?thesis by (auto simp: wasm_read_def same_file_def)
  next
    case (Inr bs)
    with C have bs: "content v (wf_handle f) (browser s) = Some bs" "length bs < 2 ^ 32"
      and u: "undisturbed v (browser s) (browser s1)" by auto
    then have now: "contents_of v (f, s) = bs" "contents_of v (f\<lparr>wf_position := p\<rparr>, s1) = bs" for p
      by (auto simp: contents_of_def undisturbed_def)
    let ?p = "unat (wf_position f)" and ?i = "start_index (wf_position f)"
    have i: "?p < length bs \<Longrightarrow> ?i = ?p" and stop: "length bs \<le> ?i \<longleftrightarrow> length bs \<le> ?p"
      using bs(2) by (auto simp: start_index_def)
    show ?thesis
    proof (cases "length bs \<le> ?i \<or> buf = []")
      case True
      with run c read Inr have "out = Returned (Inr 0)" "buf' = buf" "f' = f" "s' = s1"
        by (auto simp: wasm_read_def Let_def)
      with True stop now(1) now(2) [of "wf_position f"] u show ?thesis
        by (auto simp: wasm_rest_def same_file_def undisturbed_def)
    next
      case False
      let ?n = "min (length buf) (length bs - ?p)"
      from False stop have lt: "?p < length bs" by simp
      from run c read Inr False i [OF lt] have o: "out = Returned (Inr ?n)"
          "buf' = copy_prefix (take ?n (drop ?p bs)) buf"
          "f' = f\<lparr>wf_position := wf_position f + of_nat ?n\<rparr>" "s' = s1"
        by (auto simp: wasm_read_def Let_def)
      have "?p + ?n < 2 ^ 64" using lt bs(2) by simp
      then have pos: "unat (wf_position f') = ?p + ?n"
        using o(3) by (simp add: unat_add_no_wrap unat_of_nat_u64)
      have len: "length (take ?n (drop ?p bs)) = ?n" by simp
      then have "take ?n buf' = take ?n (drop ?p bs)" using o(2) take_copy_prefix_n [OF len [symmetric]] by simp
      moreover have "length buf' = length buf" using o(2) by simp
      moreover have "wasm_rest v (f', s') = drop (?p + ?n) bs"
        using pos now(2) o(3,4) by (simp add: wasm_rest_def)
      moreover have "drop ?p bs = take ?n (drop ?p bs) @ drop (?p + ?n) bs"
        by (rule take_drop_split) simp
      moreover have "same_file f f'" using o(3) by (simp add: same_file_def)
      moreover have "?n \<noteq> 0" using False lt by simp
      ultimately show ?thesis using o(1,4) now(1) u by (auto simp: wasm_rest_def undisturbed_def)
    qed
  qed
qed

text \<open>Where a write goes: the end of the file for an appending handle, the position otherwise.\<close>

definition write_offset :: "('f, 'b, 'st, 'w) opfs_view \<Rightarrow> ('d, 'f, 'w) wasm_open \<Rightarrow> nat" where
  "write_offset v fs =
     (if wf_append (fst fs) then length (contents_of v fs) else unat (wf_position (fst fs)))"

lemma wasm_put_offset: "wasm_put v b fs = put_at (write_offset v fs) b (contents_of v fs)"
  by (simp add: wasm_put_def write_offset_def)

lemma append_position_effect:
  assumes laws: "opfs_laws ops v"
    and run: "(if wf_append f
       then (case opfs_file_metadata ops (wf_handle f) s of
               (Inl e, s1) \<Rightarrow> (Inl e, s1)
             | (Inr m, s1) \<Rightarrow> (Inr (wasm_len m), s1))
       else (Inr (wf_position f), s)) = (r, s1)"
  shows "gentle v s r s1 \<and> (\<forall>p. r = Inr p \<longrightarrow> unat p = write_offset v (f, s) \<and>
    (\<not> wf_append f \<longrightarrow> p = wf_position f))"
proof (cases "wf_append f")
  case True
  obtain x s2 where m: "opfs_file_metadata ops (wf_handle f) s = (x, s2)"
    by (cases "opfs_file_metadata ops (wf_handle f) s")
  from metadata_effect [OF laws m] run m True show ?thesis
    by (auto simp: write_offset_def contents_of_def split: sum.splits)
qed (use run in \<open>auto simp: write_offset_def\<close>)

lemma wasm_write_effect:
  assumes laws: "opfs_laws ops v" and writable: "wf_writable f"
    and run: "wasm_write ops buf (f, s) = (out, f', s')"
  shows "same_file f f' \<and>
    (case out of
       Unwound \<Rightarrow> False
     | Returned (Inr n) \<Rightarrow> n = length buf \<and> interrupts v (browser s') \<le> interrupts v (browser s) \<and>
         write_offset v (f', s') = write_offset v (f, s) + length buf \<and>
         contents_of v (f', s') = put_at (write_offset v (f, s)) buf (contents_of v (f, s))
     | Returned (Inl e) \<Rightarrow> f' = f \<and> gentle v s (Inl e :: unit io_result) s')"
proof -
  obtain r s1 where a: "(if wf_append f
       then (case opfs_file_metadata ops (wf_handle f) s of
               (Inl e, s1) \<Rightarrow> (Inl e, s1)
             | (Inr m, s1) \<Rightarrow> (Inr (wasm_len m), s1))
       else (Inr (wf_position f), s)) = (r, s1)" (is "?a = _") by (cases ?a)
  note A = append_position_effect [OF laws a]
  show ?thesis
  proof (cases r)
    case (Inl e)
    with run writable a A show ?thesis by (auto simp: wasm_write_def same_file_def)
  next
    case (Inr p)
    with A have p: "unat p = write_offset v (f, s)" and u: "undisturbed v (browser s) (browser s1)"
      and np: "\<not> wf_append f \<Longrightarrow> p = wf_position f" by auto
    have same: "contents_of v (f, s1) = contents_of v (f, s)"
      using u by (rule contents_undisturbed) (simp add: same_file_def)
    obtain r2 s2 where w: "write_at ops (wf_handle f) p buf s1 = (r2, s2)"
      by (cases "write_at ops (wf_handle f) p buf s1")
    have out: "out = Returned (map_sum id (\<lambda>u. length buf) r2)" and s': "s' = s2"
      and f': "f' = (case r2 of Inl e \<Rightarrow> f | Inr u \<Rightarrow> f\<lparr>wf_position := p + of_nat (length buf)\<rparr>)"
      using run writable Inr w a [unfolded Inr] by (auto simp: wasm_write_def split: sum.splits)
    show ?thesis
    proof (cases "buf = []")
      case True
      with w have "r2 = Inr ()" "s2 = s1" by (auto simp: write_at_def ok_io_def)
      with True out s' f' u same p np show ?thesis
        by (auto simp: same_file_def write_offset_def contents_of_def undisturbed_def)
    next
      case False
      note W = write_at_effect [OF laws w False]
      show ?thesis
      proof (cases r2)
        case e: (Inl e)
        with W(1) u have "gentle v s (Inl e :: unit io_result) s2"
          by (auto simp: wrote_def undisturbed_def)
        with out s' f' e show ?thesis by (simp add: same_file_def)
      next
        case o': (Inr x)
        with W(1) obtain c where c: "content v (wf_handle f) (browser s1) = Some c"
            "content v (wf_handle f) (browser s2) = Some (put_at (unat p) buf c)"
            "interrupts v (browser s2) \<le> interrupts v (browser s1)"
          by (auto simp: wrote_def)
        have f: "f' = f\<lparr>wf_position := p + of_nat (length buf)\<rparr>" using f' o' by simp
        have b: "unat p \<le> js_limit" "length buf < 2 ^ 32" using W(2) [OF o'] by simp_all
        then have "unat p + length buf < 2 ^ 64" by (simp add: js_limit_def)
        then have pos: "unat (wf_position f') = unat p + length buf"
          using f b by (simp add: unat_add_no_wrap unat_of_nat_u64)
        have now: "contents_of v (f', s') = put_at (unat p) buf (contents_of v (f, s))"
          using c f s' same by (simp add: contents_of_def)
        have "write_offset v (f', s') = write_offset v (f, s) + length buf"
        proof (cases "wf_append f")
          case True
          with p have "unat p = length (contents_of v (f, s))" by (simp add: write_offset_def)
          with True now f False show ?thesis by (simp add: write_offset_def put_at_length)
        next
          case nap: False
          with pos p f show ?thesis by (simp add: write_offset_def)
        qed
        with now p out o' s' c(3) u f show ?thesis by (auto simp: same_file_def undisturbed_def)
      qed
    qed
  qed
qed

interpretation wasm_reader: file_reader "wasm_read ops"
  "\<lambda>fs. opfs_laws ops v \<and> wf_readable (fst fs)" "wasm_rest v" "\<lambda>fs. interrupts v (browser (snd fs))"
  for ops :: "('d, 'f, 'b, 'st, 'it, 'w) opfs_ops" and v
proof
  fix fs fs' :: "('d, 'f, 'w) wasm_open" and buf buf' out
  assume inv: "opfs_laws ops v \<and> wf_readable (fst fs)" and run: "wasm_read ops buf fs = (out, buf', fs')"
  note R = wasm_read_effect [of ops v "fst fs" buf "snd fs" out buf' "fst fs'" "snd fs'"]
  from R inv run show "out \<noteq> Unwound \<and> length buf' = length buf \<and> opfs_laws ops v \<and> wf_readable (fst fs')"
    by (auto simp: same_file_def)
next
  fix fs fs' :: "('d, 'f, 'w) wasm_open" and buf buf' n
  assume inv: "opfs_laws ops v \<and> wf_readable (fst fs)" and run: "wasm_read ops buf fs = (Returned (Inr n), buf', fs')"
  note R = wasm_read_effect [of ops v "fst fs" buf "snd fs" "Returned (Inr n)" buf' "fst fs'" "snd fs'"]
  from R inv run show "n \<le> length buf \<and> wasm_rest v fs = take n buf' @ wasm_rest v fs' \<and>
      interrupts v (browser (snd fs')) \<le> interrupts v (browser (snd fs))" by auto
next
  fix fs fs' :: "('d, 'f, 'w) wasm_open" and buf buf' and e
  assume inv: "opfs_laws ops v \<and> wf_readable (fst fs)" and run: "wasm_read ops buf fs = (Returned (Inl e), buf', fs')"
  note R = wasm_read_effect [of ops v "fst fs" buf "snd fs" "Returned (Inl e)" buf' "fst fs'" "snd fs'"]
  from R inv run have "fst fs' = fst fs" "undisturbed v (browser (snd fs)) (browser (snd fs'))" by auto
  then show "wasm_rest v fs' = wasm_rest v fs"
    by (simp add: wasm_rest_def contents_of_def undisturbed_def)
  from R inv run show "err_kind e = Interrupted \<Longrightarrow>
      interrupts v (browser (snd fs')) < interrupts v (browser (snd fs))" by auto
next
  fix fs fs' :: "('d, 'f, 'w) wasm_open" and buf buf'
  assume inv: "opfs_laws ops v \<and> wf_readable (fst fs)" and run: "wasm_read ops buf fs = (Returned (Inr 0), buf', fs')"
    and "buf \<noteq> []"
  with wasm_read_effect [of ops v "fst fs" buf "snd fs" "Returned (Inr 0)" buf' "fst fs'" "snd fs'"]
  show "wasm_rest v fs = []" by auto
qed

text \<open>Writing keeps the handle and its modes: they are those of a given file.\<close>

interpretation wasm_writer: file_writer "wasm_write ops"
  "\<lambda>fs. opfs_laws ops v \<and> wf_writable (fst fs) \<and> same_file g (fst fs)" "wasm_put v" "\<lambda>fs. interrupts v (browser (snd fs))"
  for ops :: "('d, 'f, 'b, 'st, 'it, 'w) opfs_ops" and v and g
proof
  fix fs fs' :: "('d, 'f, 'w) wasm_open" and buf out
  assume inv: "opfs_laws ops v \<and> wf_writable (fst fs) \<and> same_file g (fst fs)" and run: "wasm_write ops buf fs = (out, fs')"
  note W = wasm_write_effect [of ops v "fst fs" buf "snd fs" out "fst fs'" "snd fs'"]
  from W inv run show "out \<noteq> Unwound \<and> opfs_laws ops v \<and> wf_writable (fst fs') \<and> same_file g (fst fs')"
    by (auto simp: same_file_def)
next
  fix fs fs' :: "('d, 'f, 'w) wasm_open" and buf n
  assume inv: "opfs_laws ops v \<and> wf_writable (fst fs) \<and> same_file g (fst fs)" and run: "wasm_write ops buf fs = (Returned (Inr n), fs')"
  note W = wasm_write_effect [of ops v "fst fs" buf "snd fs" "Returned (Inr n)" "fst fs'" "snd fs'"]
  from W inv run show "n \<le> length buf \<and> (\<forall>later. wasm_put v (take n buf @ later) fs = wasm_put v later fs') \<and>
      interrupts v (browser (snd fs')) \<le> interrupts v (browser (snd fs))"
    by (auto simp: wasm_put_offset put_at_append)
next
  fix fs fs' :: "('d, 'f, 'w) wasm_open" and buf and e
  assume inv: "opfs_laws ops v \<and> wf_writable (fst fs) \<and> same_file g (fst fs)" and run: "wasm_write ops buf fs = (Returned (Inl e), fs')"
  note W = wasm_write_effect [of ops v "fst fs" buf "snd fs" "Returned (Inl e)" "fst fs'" "snd fs'"]
  from W inv run have "fst fs' = fst fs" "undisturbed v (browser (snd fs)) (browser (snd fs'))" by auto
  then have put: "wasm_put v b fs' = wasm_put v b fs" for b
    by (simp add: wasm_put_def contents_of_def undisturbed_def)
  from put show "wasm_put v [] fs' = wasm_put v [] fs" .
  from put W inv run show "err_kind e = Interrupted \<Longrightarrow> (\<forall>later. wasm_put v later fs' = wasm_put v later fs) \<and>
      interrupts v (browser (snd fs')) < interrupts v (browser (snd fs))" by auto
qed

end
