(* ===== verification/Opfs_Tree.thy ===== *)
theory Opfs_Tree
  imports Wasm_Directories Wasm_Contents "HOL-Library.AList"
begin

text \<open>
  An OPFS in memory: a tree as a list of paths and nodes, streams with staged copies, and directory
  iterators that answer the first child not answered yet, as the File System Standard describes them. It
  satisfies \<open>opfs_laws\<close>, and the witnesses of the browser file system run on it.
\<close>

section \<open>The tree\<close>

datatype node = DirNode | FileNode "byte list"

record stream_state =
  ss_staged :: "byte list"
  ss_cursor :: nat

record opfs_tree =
  nodes :: "(string list \<times> node) list"
  streams :: "stream_state list"
  iterators :: "(string list \<times> string list) list"

type_synonym tree_value = "(string list, string list, byte list, nat \<times> string list) js_value"
type_synonym tree_promise = "(string list, string list, byte list, nat \<times> string list, opfs_tree) promise"

definition tree_node :: "opfs_tree \<Rightarrow> string list \<Rightarrow> node option" where
  "tree_node w p = (if p = [] then Some DirNode else map_of (nodes w) p)"

definition js_exn :: "string \<Rightarrow> js_exception" where
  "js_exn n = \<lparr>js_name = Some n, js_message = Some n, js_debug = n\<rparr>"

definition tree_put :: "string list \<Rightarrow> node \<Rightarrow> opfs_tree \<Rightarrow> opfs_tree" where
  "tree_put p x w = w\<lparr>nodes := AList.update p x (nodes w)\<rparr>"

definition tree_directory :: "string list \<Rightarrow> string \<Rightarrow> bool \<Rightarrow> tree_promise" where
  "tree_directory d n create w =
     (case tree_node w (d @ [n]) of
        Some DirNode \<Rightarrow> (Inr (JsDirectory (d @ [n])), w)
      | Some (FileNode bs) \<Rightarrow> (Inl (js_exn ''TypeMismatchError''), w)
      | None \<Rightarrow>
          (if create \<and> tree_node w d = Some DirNode
           then (Inr (JsDirectory (d @ [n])), tree_put (d @ [n]) DirNode w)
           else (Inl (js_exn ''NotFoundError''), w)))"

definition tree_file :: "string list \<Rightarrow> string \<Rightarrow> bool \<Rightarrow> tree_promise" where
  "tree_file d n create w =
     (case tree_node w (d @ [n]) of
        Some (FileNode bs) \<Rightarrow> (Inr (JsFileHandle (d @ [n])), w)
      | Some DirNode \<Rightarrow> (Inl (js_exn ''TypeMismatchError''), w)
      | None \<Rightarrow>
          (if create \<and> tree_node w d = Some DirNode
           then (Inr (JsFileHandle (d @ [n])), tree_put (d @ [n]) (FileNode []) w)
           else (Inl (js_exn ''NotFoundError''), w)))"

definition children :: "opfs_tree \<Rightarrow> string list \<Rightarrow> string list" where
  "children w d = map last (filter (\<lambda>p. p \<noteq> [] \<and> butlast p = d) (map fst (nodes w)))"

definition tree_remove :: "string list \<Rightarrow> string \<Rightarrow> bool \<Rightarrow> tree_promise" where
  "tree_remove d n recursive w =
     (let p = d @ [n]
      in if tree_node w p = None then (Inl (js_exn ''NotFoundError''), w)
         else if \<not> recursive \<and> children w p \<noteq> [] then (Inl (js_exn ''InvalidModificationError''), w)
         else (Inr (JsOther []), w\<lparr>nodes := filter (\<lambda>(q, x). \<not> starts_with q p) (nodes w)\<rparr>))"

definition tree_entries :: "string list \<Rightarrow> opfs_tree \<Rightarrow> nat \<times> opfs_tree" where
  "tree_entries d w = (length (iterators w), w\<lparr>iterators := iterators w @ [(d, [])]\<rparr>)"

definition tree_next :: "nat \<Rightarrow> tree_promise" where
  "tree_next i w =
     (case iterators w ! i of
        (d, past) \<Rightarrow>
          (case filter (\<lambda>n. n \<notin> set past) (children w d) of
             [] \<Rightarrow> (Inr (JsStep (Some True) (Inr (None, JsOther [], None))), w)
           | n # ns \<Rightarrow>
               (Inr (JsStep (Some False) (Inr (Some n,
                  (if tree_node w (d @ [n]) = Some DirNode then JsDirectory (d @ [n]) else JsFileHandle (d @ [n])),
                  Some (if tree_node w (d @ [n]) = Some DirNode then ''directory'' else ''file'')))),
                w\<lparr>iterators := (iterators w)[i := (d, n # past)]\<rparr>)))"

text \<open>Buffers hold less than \<open>2 ^ 32\<close> bytes; comparisons over integers evaluate fast.\<close>

definition small :: "'a list \<Rightarrow> bool" where
  "small bs \<longleftrightarrow> int (length bs) < 2 ^ 32"

definition clamp :: "'a list \<Rightarrow> 'a list" where
  "clamp bs = (if small bs then bs else take (2 ^ 32 - 1) bs)"

definition tree_get_file :: "string list \<Rightarrow> tree_promise" where
  "tree_get_file f w =
     (case tree_node w f of
        Some (FileNode bs) \<Rightarrow> (Inr (JsFile (clamp bs)), w)
      | _ \<Rightarrow> (Inl (js_exn ''NotFoundError''), w))"

definition tree_writable :: "string list \<Rightarrow> bool \<Rightarrow> tree_promise" where
  "tree_writable f keep w =
     (case tree_node w f of
        Some (FileNode bs) \<Rightarrow>
          (Inr (JsStream (length (streams w), f)),
           w\<lparr>streams := streams w @ [\<lparr>ss_staged = (if keep then bs else []), ss_cursor = 0\<rparr>]\<rparr>)
      | _ \<Rightarrow> (Inl (js_exn ''NotFoundError''), w))"

text \<open>A change of a stream that is refused when the staged copy would be too large for a buffer.\<close>

definition tree_stage :: "(stream_state \<Rightarrow> stream_state) \<Rightarrow> nat \<times> string list \<Rightarrow> tree_promise" where
  "tree_stage g st w =
     (if fst st < length (streams w) \<and> small (ss_staged (g (streams w ! fst st)))
      then (Inr (JsOther []), w\<lparr>streams := (streams w)[fst st := g (streams w ! fst st)]\<rparr>)
      else (Inl (js_exn ''QuotaExceededError''), w))"

definition tree_close :: "nat \<times> string list \<Rightarrow> tree_promise" where
  "tree_close st w =
     (if fst st < length (streams w) \<and> snd st \<noteq> [] \<and> small (ss_staged (streams w ! fst st))
      then (Inr (JsOther []), tree_put (snd st) (FileNode (ss_staged (streams w ! fst st))) w)
      else (Inl (js_exn ''InvalidStateError''), w))"

definition tree_ops :: "(string list, string list, byte list, nat \<times> string list, nat, opfs_tree) opfs_ops" where
  "tree_ops = \<lparr>js_navigator = (\<lambda>w. None), js_storage = (\<lambda>w. Inr (Some JsStorage)),
     js_get_directory = (\<lambda>w. (Inr (JsDirectory []), w)),
     js_directory_handle = tree_directory, js_file_handle = tree_file, js_remove_entry = tree_remove,
     js_entries = tree_entries, js_next = (\<lambda>i w. (Inr (tree_next i), w)), js_get_file = tree_get_file,
     js_array_buffer = (\<lambda>b w. (Inr (JsBuffer (clamp b)), w)),
     js_last_modified = (\<lambda>b. Whole 0), js_size = (\<lambda>b. Whole (length (clamp b))),
     js_create_writable = tree_writable,
     js_seek = (\<lambda>st n w. (Inr (tree_stage (\<lambda>s. s\<lparr>ss_cursor := n\<rparr>) st), w)),
     js_write = (\<lambda>st bs w. (Inr (tree_stage (\<lambda>s. s\<lparr>ss_staged := put_at (ss_cursor s) bs (ss_staged s),
        ss_cursor := ss_cursor s + length bs\<rparr>) st), w)),
     js_truncate = (\<lambda>st n w. (Inr (tree_stage (\<lambda>s. s\<lparr>ss_staged := resized n (ss_staged s)\<rparr>) st), w)),
     js_close = tree_close, js_abort = (\<lambda>st w. (Inr (JsOther []), w)),
     js_show = (\<lambda>x. ''JsValue''), epoch_plus = Some, name_valid = (\<lambda>n. True)\<rparr>"

definition tree_content :: "string list \<Rightarrow> opfs_tree \<Rightarrow> byte list option" where
  "tree_content f w = (case tree_node w f of Some (FileNode bs) \<Rightarrow> Some (clamp bs) | _ \<Rightarrow> None)"

definition tree_view :: "(string list, byte list, nat \<times> string list, opfs_tree) opfs_view" where
  "tree_view = \<lparr>content = tree_content, bytes_of = clamp, target = snd,
     staged = (\<lambda>st w. if fst st < length (streams w) then clamp (ss_staged (streams w ! fst st)) else []),
     cursor = (\<lambda>st w. if fst st < length (streams w) then ss_cursor (streams w ! fst st) else 0),
     interrupts = (\<lambda>w. 0)\<rparr>"

section \<open>The tree keeps the promises of OPFS\<close>

lemma small_iff: "small bs \<longleftrightarrow> length bs < 2 ^ 32"
  by (simp add: small_def)

lemma clamp_small: "length bs < 2 ^ 32 \<Longrightarrow> clamp bs = bs"
  by (simp add: clamp_def small_iff)

lemma clamp_take: "clamp bs = take (2 ^ 32 - 1) bs"
  by (simp add: clamp_def small_iff)

lemma clamp_length: "length (clamp bs) < 2 ^ 32"
  by (simp add: clamp_take)

lemma clamp_Nil [simp]: "clamp [] = []"
  by (simp add: clamp_take)

lemma clamp_clamp [simp]: "clamp (clamp bs) = clamp bs"
  by (simp add: clamp_take)

lemma exn_name [simp]: "js_name (js_exn n) = Some n"
  by (simp add: js_exn_def)

lemma tree_undisturbed: "undisturbed tree_view w w' \<longleftrightarrow> (\<forall>f. tree_content f w' = tree_content f w)"
  by (simp add: undisturbed_def tree_view_def)

lemma tree_content_streams [simp]: "tree_content f (w\<lparr>streams := l\<rparr>) = tree_content f w"
  by (simp add: tree_content_def tree_node_def)

lemma tree_mild: "mild tree_view w r w' \<longleftrightarrow> (\<forall>f. tree_content f w' = tree_content f w) \<and>
    (\<forall>e. r = Inl e \<longrightarrow> js_name e \<noteq> Some ''AbortError'')"
  by (auto simp: mild_def tree_undisturbed) (simp_all add: tree_view_def)

lemma tree_stages:
  assumes "\<And>s. length (ss_staged (g s)) < 2 ^ 32 \<Longrightarrow>
      eff (clamp (ss_staged s)) (ss_cursor s) (ss_staged (g s)) (ss_cursor (g s))"
  shows "stages tree_view st (\<lambda>w. (Inr (tree_stage g st), w)) eff"
proof -
  have "eff (staged tree_view st w) (cursor tree_view st w) (staged tree_view st w') (cursor tree_view st w')"
    if "tree_stage g st w = (Inr y, w')" for w y w'
  proof -
    from that have i: "fst st < length (streams w)" "length (ss_staged (g (streams w ! fst st))) < 2 ^ 32"
      and w': "w' = w\<lparr>streams := (streams w)[fst st := g (streams w ! fst st)]\<rparr>"
      by (auto simp: tree_stage_def small_iff split: if_splits)
    with assms [OF i(2)] show ?thesis by (simp add: tree_view_def clamp_small)
  qed
  then show ?thesis by (auto simp: stages_def tree_mild) (auto simp: tree_stage_def split: if_splits)
qed

lemma tree_stream_laws:
  "stages tree_view st (js_seek tree_ops st n) (seek_effect n)"
  "stages tree_view st (js_write tree_ops st bs) (write_effect bs)"
  "stages tree_view st (js_truncate tree_ops st n) (truncate_effect n)"
proof -
  show "stages tree_view st (js_seek tree_ops st n) (seek_effect n)"
    unfolding tree_ops_def opfs_ops.simps by (rule tree_stages) (simp add: seek_effect_def clamp_small)
  show "stages tree_view st (js_write tree_ops st bs) (write_effect bs)"
    unfolding tree_ops_def opfs_ops.simps
    by (rule tree_stages) (auto simp: write_effect_def put_at_length clamp_small split: if_splits)
  have "resized n (take m b) = resized n b" if "length (resized n b) \<le> m" for m b
    using that by (auto simp: resized_def min_def split: if_splits)
  then show "stages tree_view st (js_truncate tree_ops st n) (truncate_effect n)"
    unfolding tree_ops_def opfs_ops.simps by (intro tree_stages) (simp add: truncate_effect_def clamp_take)
qed

lemma tree_get_file_law:
  "tree_get_file f w = (r, w') \<Longrightarrow> w' = w \<and>
   (\<forall>b. r = Inr (JsFile b) \<longrightarrow> tree_content f w = Some (clamp b)) \<and>
   (\<forall>e. r = Inl e \<longrightarrow> js_name e = Some ''NotFoundError'')"
  by (auto simp: tree_get_file_def tree_content_def split: option.splits node.splits)

lemma tree_writable_law:
  "tree_writable f keep w = (r, w') \<Longrightarrow> (\<forall>g. tree_content g w' = tree_content g w) \<and>
   (\<forall>st. r = Inr (JsStream st) \<longrightarrow> target tree_view st = f \<and> cursor tree_view st w' = 0 \<and>
      (\<exists>c. tree_content f w = Some c \<and> staged tree_view st w' = (if keep then c else []))) \<and>
   (\<forall>e. r = Inl e \<longrightarrow> js_name e = Some ''NotFoundError'')"
  by (auto simp: tree_writable_def tree_content_def tree_node_def tree_view_def split: option.splits node.splits if_splits)

lemma tree_close_law:
  "tree_close st w = (r, w') \<Longrightarrow> (\<forall>e. r = Inl e \<longrightarrow> w' = w \<and> js_name e = Some ''InvalidStateError'') \<and>
   (\<forall>x. r = Inr x \<longrightarrow> tree_content (snd st) w' = Some (staged tree_view st w))"
  by (auto simp: tree_close_def tree_content_def tree_node_def tree_put_def tree_view_def update_conv' small_iff clamp_small
      split: if_splits)

lemma tree_laws: "opfs_laws tree_ops tree_view"
proof -
  have f: "js_get_file tree_ops = tree_get_file" "js_create_writable tree_ops = tree_writable"
      "js_close tree_ops = tree_close" "js_abort tree_ops = (\<lambda>st w. (Inr (JsOther []), w))"
      "js_array_buffer tree_ops = (\<lambda>b w. (Inr (JsBuffer (clamp b)), w))"
      "js_size tree_ops = (\<lambda>b. Whole (length (clamp b)))"
    by (simp_all add: tree_ops_def)
  have v: "content tree_view = tree_content" "bytes_of tree_view = clamp" "target tree_view = snd"
      "interrupts tree_view = (\<lambda>w. 0)"
    by (simp_all add: tree_view_def)
  show ?thesis
    unfolding opfs_laws_def f tree_mild tree_undisturbed
  proof (intro conjI allI impI tree_stream_laws)
    fix h w r w' b
    assume g: "tree_get_file h w = (r, w')"
    from tree_get_file_law [OF g] show "tree_content f w' = tree_content f w" for f by simp
    from tree_get_file_law [OF g] show "r = Inl e \<Longrightarrow> js_name e \<noteq> Some ''AbortError''" for e by simp
    from tree_get_file_law [OF g] show "r = Inr (JsFile b) \<Longrightarrow> content tree_view h w = Some (bytes_of tree_view b)"
      by (simp add: v)
  next
    fix h k w r w' st
    assume g: "tree_writable h k w = (r, w')"
    from tree_writable_law [OF g] show "tree_content f w' = tree_content f w" for f by simp
    from tree_writable_law [OF g] show "r = Inl e \<Longrightarrow> js_name e \<noteq> Some ''AbortError''" for e by simp
    assume st: "r = Inr (JsStream st)"
    from tree_writable_law [OF g] st show "target tree_view st = h" "cursor tree_view st w' = 0"
      "\<exists>c. content tree_view h w = Some c \<and> staged tree_view st w' = (if k then c else [])"
      by (simp_all add: v)
  next
    fix st w r w' e f e'
    assume g: "tree_close st w = (r, w')" and "r = Inl e"
    with tree_close_law [OF g] show "tree_content f w' = tree_content f w"
      and "r = Inl e' \<Longrightarrow> js_name e' \<noteq> Some ''AbortError''" by auto
  next
    fix st w r w' x
    assume g: "tree_close st w = (r, w')" and "r = Inr x"
    with tree_close_law [OF g] show "content tree_view (target tree_view st) w' = Some (staged tree_view st w)"
      by (simp add: v)
  next
    fix b
    show "length (bytes_of tree_view b) \<le> js_limit"
      using clamp_length [of b] by (simp add: v js_limit_def)
  qed (use clamp_length in \<open>auto simp: v\<close>)
qed

section \<open>States for the witnesses\<close>

definition tree_world :: "(string list \<times> node) list \<Rightarrow> (string list, opfs_tree) wasm" where
  "tree_world ns = \<lparr>root_cache = Some [], browser = \<lparr>nodes = ns, streams = [], iterators = []\<rparr>\<rparr>"

section \<open>Evaluation\<close>

text \<open>Equations that keep large numbers as integers.\<close>

lemma as_u64_code [code]:
  "as_u64 NotANumber = 0"
  "as_u64 PosInfinity = nat (2 ^ 64 - 1)"
  "as_u64 SignNegative = 0"
  "as_u64 (Whole n) = (if int n \<le> 2 ^ 64 - 1 then n else nat (2 ^ 64 - 1))"
  by (simp_all add: nat_diff_distrib min_def)

lemma start_index_code [code]: "start_index p = (if p < 4294967296 then unat p else nat 4294967295)"
  by (simp add: start_index_def word_less_nat_alt)

declare copy_directory.simps [code] write_all.simps [code] read_exact_loop.simps [code]

end
