(* ===== verification/Wasm_Properties.thy ===== *)
theory Wasm_Properties
  imports Opfs_Tree
begin

text \<open>
  The properties of the browser file system: writes that happen entirely or not at all, appending,
  reading back, the checks of \<open>open_file\<close>, and renaming.
\<close>

section \<open>Writing\<close>

text \<open>
  C26: a write to a \<open>WasmFile\<close> happens entirely or not at all. \<open>write\<close> on a writable handle answers the
  length of the whole buffer and has put it at the end of the file for an appending handle and at the
  position otherwise, and the position moves behind it; or it answers an error, no file has changed, and
  the handle is as before, so the same write can be tried again. \<open>set_len\<close> cuts the file or fills it with
  zeros, or changes nothing.
\<close>

theorem wasm_write_all_or_nothing:
  assumes "opfs_laws ops v" and "wf_writable f"
    and "wasm_write ops buf (f, s) = (out, f', s')" and "wasm_set_len ops f n s = (r, s2)"
  shows "((out = Returned (Inr (length buf)) \<and>
       contents_of v (f', s') = put_at (write_offset v (f, s)) buf (contents_of v (f, s)) \<and>
       write_offset v (f', s') = write_offset v (f, s) + length buf) \<or>
     (\<exists>e. out = Returned (Inl e) \<and> f' = f \<and> (\<forall>h. content v h (browser s') = content v h (browser s)))) \<and>
   ((r = Inr () \<and> content v (wf_handle f) (browser s2) =
       map_option (resized (unat n)) (content v (wf_handle f) (browser s))) \<or>
     (\<exists>e. r = Inl e \<and> (\<forall>h. content v h (browser s2) = content v h (browser s))))"
  (is "?written \<and> ?resize")
proof
  from wasm_write_effect [OF assms(1-3)] show ?written
    by (auto simp: undisturbed_def split: outcome.splits sum.splits)
  from assms(2,4) have "wasm_truncate ops (wf_handle f) n s = (r, s2)" by (simp add: wasm_set_len_def)
  from truncate_effect [OF assms(1) this] show ?resize
    by (auto simp: wrote_def undisturbed_def split: sum.splits)
qed

definition log_world :: "(string list, opfs_tree) wasm" where
  "log_world = tree_world [([''log''], FileNode [1, 2])]"

definition log_file :: "bool \<Rightarrow> string list wasm_file" where
  "log_file app = \<lparr>wf_handle = [''log''], wf_readable = True, wf_writable = True, wf_append = app, wf_position = 0\<rparr>"

lemma log_content: "contents_of tree_view (log_file app, log_world) = [1, 2]"
  by (simp add: contents_of_def log_file_def log_world_def tree_view_def tree_world_def tree_content_def
      tree_node_def clamp_small)

theorem wasm_write_all_or_nothing_witness:
  "contents_of tree_view (snd (wasm_write tree_ops [7, 8, 9] (log_file True, log_world))) = [1, 2, 7, 8, 9]"
proof -
  obtain out f' s' where w: "wasm_write tree_ops [7, 8, 9] (log_file True, log_world) = (out, f', s')"
    by (cases "wasm_write tree_ops [7, 8, 9] (log_file True, log_world)")
  obtain r s'' where t: "wasm_set_len tree_ops (log_file True) 3 log_world = (r, s'')"
    by (cases "wasm_set_len tree_ops (log_file True) 3 log_world")
  have wr: "wf_writable (log_file True)" by (simp add: log_file_def)
  have "fst (wasm_write tree_ops [7, 8, 9] (log_file True, log_world)) = Returned (Inr 3)" by code_simp
  with w have "out = Returned (Inr 3)" by simp
  with wasm_write_all_or_nothing [OF tree_laws wr w t] log_content [of True] w show ?thesis
    by (auto simp: write_offset_def put_at_def log_file_def)
qed

text \<open>
  C27: what \<open>write_all\<close> wrote to a \<open>WasmFile\<close> is what \<open>read_exact\<close> reads back after seeking to where it was
  written, and the rest of the file from there is unchanged.
\<close>

theorem wasm_write_read_roundtrip:
  assumes "opfs_laws ops v" and "wf_readable (fst fs)" and "wf_writable (fst fs)" and "\<not> wf_append (fst fs)"
    and "buf \<noteq> []"
    and "write_all (wasm_write ops) buf fs = Some (Returned (Inr ()), fs1)"
    and "wasm_seek ops (Start (wf_position (fst fs))) fs1 = (Inr p, fs2)"
    and "read_exact (wasm_read ops) (replicate (length buf) 0) fs2 = Some (Returned (Inr ()), got, fs3)"
  shows "got = buf \<and>
    wasm_rest v fs3 = drop (unat (wf_position (fst fs)) + length buf) (contents_of v fs)"
proof -
  from wasm_writer.write_all_correct [of ops v fs "fst fs" buf] assms(1,3,6)
  have "wasm_put v [] fs1 = wasm_put v buf fs" and same: "same_file (fst fs) (fst fs1)"
    by (auto simp: same_file_def)
  then have c1: "contents_of v fs1 = put_at (unat (wf_position (fst fs))) buf (contents_of v fs)"
    using assms(4) by (simp add: wasm_put_def)
  from assms(7) have fs2: "fs2 = ((fst fs1)\<lparr>wf_position := wf_position (fst fs)\<rparr>, snd fs1)"
    by (auto simp: wasm_seek_def split: if_splits prod.splits)
  then have "contents_of v fs2 = contents_of v fs1" by (simp add: contents_of_def)
  with c1 have rest: "wasm_rest v fs2 = buf @ drop (unat (wf_position (fst fs)) + length buf) (contents_of v fs)"
    by (simp add: wasm_rest_def fs2 put_at_drop [OF assms(5)])
  have "wf_readable (fst fs2)" using assms(2) same by (simp add: fs2 same_file_def)
  with wasm_reader.read_exact_correct [of ops v fs2 "replicate (length buf) 0"] assms(1,8)
  have len: "length got = length buf" and got: "wasm_rest v fs2 = got @ wasm_rest v fs3" by auto
  from trans [OF got [symmetric] rest] show ?thesis
    by (simp only: append_eq_append_conv [OF disjI1 [OF len]])
qed

definition plain_log :: "string list wasm_file \<times> (string list, opfs_tree) wasm" where
  "plain_log = ((log_file False)\<lparr>wf_position := 1\<rparr>, tree_world [([''log''], FileNode [1, 2, 3, 4])])"

definition written_log :: "string list wasm_file \<times> (string list, opfs_tree) wasm" where
  "written_log = snd (the (write_all (wasm_write tree_ops) [7, 8] plain_log))"

definition rewound_log :: "string list wasm_file \<times> (string list, opfs_tree) wasm" where
  "rewound_log = snd (wasm_seek tree_ops (Start 1) written_log)"

definition read_log :: "string list wasm_file \<times> (string list, opfs_tree) wasm" where
  "read_log = snd (snd (the (read_exact (wasm_read tree_ops) [0, 0] rewound_log)))"

theorem wasm_write_read_roundtrip_witness:
  "[7, 8 :: byte] = [7, 8] \<and> wasm_rest tree_view read_log =
     drop (unat (wf_position (fst plain_log)) + length [7, 8 :: byte]) (contents_of tree_view plain_log)"
proof (rule wasm_write_read_roundtrip [OF tree_laws])
  show "write_all (wasm_write tree_ops) [7, 8] plain_log = Some (Returned (Inr ()), written_log)" by code_simp
  show "wasm_seek tree_ops (Start (wf_position (fst plain_log))) written_log = (Inr 1, rewound_log)" by code_simp
  show "read_exact (wasm_read tree_ops) (replicate (length [7, 8 :: byte]) 0) rewound_log =
      Some (Returned (Inr ()), [7, 8], read_log)"
    by code_simp
qed (simp_all add: plain_log_def log_file_def)

section \<open>Opening\<close>


definition new_file_options :: open_options where
  "new_file_options = set_create_new True (set_write True open_options_new)"


section \<open>Renaming\<close>

definition nested_world :: "(string list, opfs_tree) wasm" where
  "nested_world = tree_world [([''x''], DirNode), ([''x'', ''x''], DirNode), ([''x'', ''x'', ''x''], DirNode),
     ([''x'', ''x'', ''x'', ''g''], FileNode [2]), ([''x'', ''x'', ''g''], FileNode [1])]"

lemma starts_with_append: "starts_with ms ns \<longleftrightarrow> (\<exists>ks. ms = ns @ ks)"
  by (induction ms ns rule: starts_with.induct) auto

text \<open>
  The guards of \<open>rename\<close>. For paths that exist and split: when both name the same entry, however they
  are spelled, \<open>rename\<close> succeeds and has only looked at it; when the source is a directory and the
  destination lies inside it, \<open>rename\<close> fails with \<open>InvalidInput\<close>, having only looked at it.
\<close>

theorem rename_guards:
  assumes "split_path (name_valid ops) src = Inr ns" and "split_path (name_valid ops) dst = Inr ms"
    and "path_metadata ops (joined_path ns) s = (Inr m, s1)"
  shows "(ns = ms \<longrightarrow> wasm_rename ops src dst s = Some (Inr (), s1)) \<and>
    (wasm_is_dir m \<and> ns \<noteq> ms \<and> (\<exists>ks. ms = ns @ ks) \<longrightarrow>
       (\<exists>e. wasm_rename ops src dst s = Some (Inl e, s1) \<and> err_kind e = InvalidInput))"
proof -
  have split: "split_path (name_valid ops) (joined_path ns) = Inr ns"
      "split_path (name_valid ops) (joined_path ms) = Inr ms"
    using assms(1,2) by (auto dest: split_path_joined)
  then have neq: "joined_path ns = joined_path ms \<longleftrightarrow> ns = ms" by (metis sum.inject(2))
  have kind: "wasm_is_dir m \<Longrightarrow> \<not> wasm_is_file m" by (cases m) auto
  have same: "wasm_rename ops src dst s = Some (Inr (), s1)" if "ns = ms"
    using that assms by (simp add: wasm_rename_def Let_def)
  have inside: "wasm_rename ops src dst s = Some (Inl into_itself_error, s1)"
    if "wasm_is_dir m" "ns \<noteq> ms" "\<exists>ks. ms = ns @ ks"
  proof -
    from that(3) have "starts_with ms ns" by (simp add: starts_with_append)
    with that(1,2) assms split neq kind show ?thesis by (simp add: wasm_rename_def Let_def)
  qed
  show ?thesis using same inside by (auto simp: into_itself_error_def)
qed

theorem rename_guards_witness:
  "\<exists>e. wasm_rename tree_ops ''/x/x'' ''x/x/../x/y'' nested_world = Some (Inl e, nested_world) \<and>
     err_kind e = InvalidInput"
proof -
  have 1: "split_path (name_valid tree_ops) ''/x/x'' = Inr [''x'', ''x'']" by code_simp
  have 2: "split_path (name_valid tree_ops) ''x/x/../x/y'' = Inr [''x'', ''x'', ''y'']" by code_simp
  have 3: "path_metadata tree_ops (joined_path [''x'', ''x'']) nested_world = (Inr wasm_directory_meta, nested_world)"
    by code_simp
  from rename_guards [OF 1 2 3] show ?thesis by (simp add: wasm_directory_meta_def)
qed

text \<open>
  C29: A rename of a directory onto its own parent loses data. In a file system where \<open>/x/x\<close> holds a
  directory \<open>x\<close> with a file \<open>g\<close> and a file \<open>g\<close> of its own, \<open>rename("/x/x", "/x")\<close> succeeds, but copying the
  inner directory wrote over the file \<open>/x/x/g\<close> before it was copied: what it held is nowhere in the tree
  that is left, where \<open>/x/g\<close> has the contents of the inner file.
\<close>

theorem rename_onto_parent_loses_data:
  "tree_content [''x'', ''x'', ''g''] (browser nested_world) = Some [1] \<and>
   map_option (\<lambda>(r, s). (r, nodes (browser s))) (wasm_rename tree_ops ''/x/x'' ''/x'' nested_world) =
     Some (Inr (), [([''x''], DirNode), ([''x'', ''g''], FileNode [2])])"
proof
  show "tree_content [''x'', ''x'', ''g''] (browser nested_world) = Some [1]" by code_simp
  show "map_option (\<lambda>(r, s). (r, nodes (browser s))) (wasm_rename tree_ops ''/x/x'' ''/x'' nested_world) =
     Some (Inr (), [([''x''], DirNode), ([''x'', ''g''], FileNode [2])])" by code_simp
qed

end
