(* ===== verification/File_Systems.thy ===== *)
theory File_Systems
  imports File_Handles Metadata Selection
begin

text \<open>
  The file systems of the crate as implementations of the traits of \<open>src/src/fs.rs\<close>: Tokio's, smol's and
  Compio's (\<open>src/src/fs/tokio.rs\<close>, \<open>src/src/fs/smol.rs\<close>, \<open>src/src/fs/compio.rs\<close>), the one over a
  blocking pool (\<open>src/src/fs/blocking.rs\<close>) and the choice between them (\<open>src/src/fs/builtin.rs\<close>). One
  record per trait; the operations of the other crates and of \<open>std::fs\<close> are such records too. Paths are
  strings, a \<open>String\<close> is the list of its bytes.
\<close>

section \<open>The traits\<close>

record ('f, 'w) fs_base =
  fs_open :: "string \<Rightarrow> ('w, 'f) io"
  fs_create :: "string \<Rightarrow> ('w, 'f) io"
  fs_read :: "string \<Rightarrow> ('w, byte list) io"
  fs_read_to_string :: "string \<Rightarrow> ('w, byte list) io"
  fs_write :: "string \<Rightarrow> byte list \<Rightarrow> ('w, unit) io"

record ('f, 'w) fs_options =
  fs_open_with :: "open_options \<Rightarrow> string \<Rightarrow> ('w, 'f) io"

record ('m, 'w) fs_meta =
  fs_metadata :: "string \<Rightarrow> ('w, 'm) io"
  fs_symlink_metadata :: "string \<Rightarrow> ('w, 'm) io"

record 'w fs_perm =
  fs_set_permissions :: "string \<Rightarrow> permissions \<Rightarrow> ('w, unit) io"

record ('d, 'w) fs_dirs =
  fs_create_dir :: "string \<Rightarrow> ('w, unit) io"
  fs_create_dir_all :: "string \<Rightarrow> ('w, unit) io"
  fs_read_dir :: "string \<Rightarrow> ('w, 'd) io"
  fs_remove_dir :: "string \<Rightarrow> ('w, unit) io"
  fs_remove_dir_all :: "string \<Rightarrow> ('w, unit) io"
  fs_remove_file :: "string \<Rightarrow> ('w, unit) io"
  fs_rename :: "string \<Rightarrow> string \<Rightarrow> ('w, unit) io"
  fs_copy :: "string \<Rightarrow> string \<Rightarrow> ('w, u64) io"
  fs_canonicalize :: "string \<Rightarrow> ('w, string) io"
  fs_try_exists :: "string \<Rightarrow> ('w, bool) io"

text \<open>The operations of a crate outside, with its metadata \<open>'n\<close> and permissions \<open>'p\<close>.\<close>

record ('f, 'n, 'p, 'd, 'w) native_fs =
  nt_base :: "('f, 'w) fs_base"
  nt_open_with :: "open_options \<Rightarrow> string \<Rightarrow> ('w, 'f) io"
  nt_meta :: "('n, 'w) fs_meta"
  nt_permissions :: "'n \<Rightarrow> 'p"
  nt_set_readonly :: "bool \<Rightarrow> 'p \<Rightarrow> 'p"
  nt_set_permissions :: "string \<Rightarrow> 'p \<Rightarrow> ('w, unit) io"
  nt_dirs :: "('d, 'w) fs_dirs"

text \<open>The options set one by one on blank ones of the other crate.\<close>

definition native_options :: "open_options \<Rightarrow> open_options" where
  "native_options q = set_create_new (opt_create_new q) (set_create (opt_create q)
     (set_truncate (opt_truncate q) (set_append (opt_append q) (set_write (opt_write q)
       (set_read (opt_read q) open_options_new)))))"

text \<open>Reading the permissions, changing the read-only flag, and setting them.\<close>

definition change_readonly ::
  "('f, 'n, 'p, 'd, 'w) native_fs \<Rightarrow> string \<Rightarrow> permissions \<Rightarrow> ('w, unit) io" where
  "change_readonly nt path q =
     try_io (fs_metadata (nt_meta nt) path)
       (\<lambda>m. nt_set_permissions nt path (nt_set_readonly nt (readonly_flag q) (nt_permissions nt m)))"

text \<open>\<open>try_exists\<close> where the other crate has none.\<close>

definition exists_by_metadata :: "(string \<Rightarrow> ('w, 'n) io) \<Rightarrow> string \<Rightarrow> ('w, bool) io" where
  "exists_by_metadata md path w =
     (case md path w of
        (Inr m, w') \<Rightarrow> (Inr True, w')
      | (Inl e, w') \<Rightarrow> (if err_kind e = NotFound then (Inr False, w') else (Inl e, w')))"

section \<open>Tokio and smol\<close>

definition tokio_base :: "('f, 'n, 'p, 'd, 'w) native_fs \<Rightarrow> ('f, 'w) fs_base" where
  "tokio_base nt = nt_base nt"

definition tokio_options :: "('f, 'n, 'p, 'd, 'w) native_fs \<Rightarrow> ('f, 'w) fs_options" where
  "tokio_options nt = \<lparr>fs_open_with = (\<lambda>q path. nt_open_with nt (native_options q) path)\<rparr>"

definition tokio_meta :: "('f, 'n, 'p, 'd, 'w) native_fs \<Rightarrow> (('n, 'c, 't) metadata, 'w) fs_meta" where
  "tokio_meta nt = \<lparr>fs_metadata = (\<lambda>path. map_io from_native (fs_metadata (nt_meta nt) path)),
     fs_symlink_metadata = (\<lambda>path. map_io from_native (fs_symlink_metadata (nt_meta nt) path))\<rparr>"

definition tokio_perm :: "('f, 'n, 'p, 'd, 'w) native_fs \<Rightarrow> 'w fs_perm" where
  "tokio_perm nt = \<lparr>fs_set_permissions = change_readonly nt\<rparr>"

definition tokio_dirs :: "('f, 'n, 'p, 'd, 'w) native_fs \<Rightarrow> ('d, 'w) fs_dirs" where
  "tokio_dirs nt = nt_dirs nt"

definition smol_base :: "('f, 'n, 'p, 'd, 'w) native_fs \<Rightarrow> ('f, 'w) fs_base" where
  "smol_base nt = nt_base nt"

definition smol_options :: "('f, 'n, 'p, 'd, 'w) native_fs \<Rightarrow> ('f, 'w) fs_options" where
  "smol_options nt = \<lparr>fs_open_with = (\<lambda>q path. nt_open_with nt (native_options q) path)\<rparr>"

definition smol_meta :: "('f, 'n, 'p, 'd, 'w) native_fs \<Rightarrow> (('n, 'c, 't) metadata, 'w) fs_meta" where
  "smol_meta nt = \<lparr>fs_metadata = (\<lambda>path. map_io from_native (fs_metadata (nt_meta nt) path)),
     fs_symlink_metadata = (\<lambda>path. map_io from_native (fs_symlink_metadata (nt_meta nt) path))\<rparr>"

definition smol_perm :: "('f, 'n, 'p, 'd, 'w) native_fs \<Rightarrow> 'w fs_perm" where
  "smol_perm nt = \<lparr>fs_set_permissions = change_readonly nt\<rparr>"

definition smol_dirs :: "('f, 'n, 'p, 'd, 'w) native_fs \<Rightarrow> ('d, 'w) fs_dirs" where
  "smol_dirs nt = (nt_dirs nt)\<lparr>fs_try_exists := exists_by_metadata (fs_metadata (nt_meta nt))\<rparr>"

section \<open>The blocking pool\<close>

text \<open>\<open>spawn_blocking(job).await.map_err(join_error)?\<close> of a fallible job.\<close>

definition pool_run :: "'w blocking_ops \<Rightarrow> ('w, 'a) io \<Rightarrow> ('w, 'a) io" where
  "pool_run ops job = flatten_io (run_blocking ops job)"

definition blocking_base :: "'w blocking_ops \<Rightarrow> ('f, 'n, 'p, 'd, 'w) native_fs \<Rightarrow> ('f, 'w) fs_base" where
  "blocking_base ops nt = \<lparr>
     fs_open = (\<lambda>path. pool_run ops (fs_open (nt_base nt) path)),
     fs_create = (\<lambda>path. pool_run ops (fs_create (nt_base nt) path)),
     fs_read = (\<lambda>path. pool_run ops (fs_read (nt_base nt) path)),
     fs_read_to_string = (\<lambda>path. pool_run ops (fs_read_to_string (nt_base nt) path)),
     fs_write = (\<lambda>path contents. pool_run ops (fs_write (nt_base nt) path contents))\<rparr>"

definition blocking_options ::
  "'w blocking_ops \<Rightarrow> ('f, 'n, 'p, 'd, 'w) native_fs \<Rightarrow> ('f, 'w) fs_options" where
  "blocking_options ops nt =
     \<lparr>fs_open_with = (\<lambda>q path. pool_run ops (nt_open_with nt (native_options q) path))\<rparr>"

definition blocking_meta ::
  "'w blocking_ops \<Rightarrow> ('f, 'n, 'p, 'd, 'w) native_fs \<Rightarrow> (('n, 'c, 't) metadata, 'w) fs_meta" where
  "blocking_meta ops nt = \<lparr>
     fs_metadata = (\<lambda>path. pool_run ops (map_io from_native (fs_metadata (nt_meta nt) path))),
     fs_symlink_metadata = (\<lambda>path. pool_run ops (map_io from_native (fs_symlink_metadata (nt_meta nt) path)))\<rparr>"

definition blocking_perm :: "'w blocking_ops \<Rightarrow> ('f, 'n, 'p, 'd, 'w) native_fs \<Rightarrow> 'w fs_perm" where
  "blocking_perm ops nt = \<lparr>fs_set_permissions = (\<lambda>path q. pool_run ops (change_readonly nt path q))\<rparr>"

definition run_path :: "'w blocking_ops \<Rightarrow> string \<Rightarrow> (string \<Rightarrow> ('w, unit) io) \<Rightarrow> ('w, unit) io" where
  "run_path ops path operation = pool_run ops (operation path)"

definition blocking_dirs :: "'w blocking_ops \<Rightarrow> ('f, 'n, 'p, 'd, 'w) native_fs \<Rightarrow> ('d, 'w) fs_dirs" where
  "blocking_dirs ops nt = \<lparr>
     fs_create_dir = (\<lambda>path. run_path ops path (fs_create_dir (nt_dirs nt))),
     fs_create_dir_all = (\<lambda>path. run_path ops path (fs_create_dir_all (nt_dirs nt))),
     fs_read_dir = (\<lambda>path. pool_run ops (fs_read_dir (nt_dirs nt) path)),
     fs_remove_dir = (\<lambda>path. run_path ops path (fs_remove_dir (nt_dirs nt))),
     fs_remove_dir_all = (\<lambda>path. run_path ops path (fs_remove_dir_all (nt_dirs nt))),
     fs_remove_file = (\<lambda>path. run_path ops path (fs_remove_file (nt_dirs nt))),
     fs_rename = (\<lambda>src dst. pool_run ops (fs_rename (nt_dirs nt) src dst)),
     fs_copy = (\<lambda>src dst. pool_run ops (fs_copy (nt_dirs nt) src dst)),
     fs_canonicalize = (\<lambda>path. pool_run ops (fs_canonicalize (nt_dirs nt) path)),
     fs_try_exists = (\<lambda>path. pool_run ops (fs_try_exists (nt_dirs nt) path))\<rparr>"

section \<open>Compio\<close>

text \<open>A Compio file is the file of that crate with a cursor; \<open>std\<close> is the standard library's \<open>fs\<close>.\<close>

definition compio_base :: "('f, 'n, 'p, 'd, 'w) native_fs \<Rightarrow> ('f \<times> u64, 'w) fs_base" where
  "compio_base nt = \<lparr>
     fs_open = (\<lambda>path. map_io (\<lambda>f. (f, 0)) (fs_open (nt_base nt) path)),
     fs_create = (\<lambda>path. map_io (\<lambda>f. (f, 0)) (fs_create (nt_base nt) path)),
     fs_read = (\<lambda>path. fs_read (nt_base nt) path),
     fs_read_to_string = (\<lambda>path. try_io (fs_read (nt_base nt) path)
       (\<lambda>bs. if utf8_valid bs then ok_io bs else fail_io utf8_error)),
     fs_write = (\<lambda>path contents. fs_write (nt_base nt) path contents)\<rparr>"

definition compio_append_error :: io_error where
  "compio_append_error = IoError Unsupported ''Compio does not support append mode''"

definition compio_native_options :: "open_options \<Rightarrow> open_options" where
  "compio_native_options q = set_create_new (opt_create_new q) (set_create (opt_create q)
     (set_truncate (opt_truncate q) (set_write (opt_write q) (set_read (opt_read q) open_options_new))))"

definition compio_options :: "('f, 'n, 'p, 'd, 'w) native_fs \<Rightarrow> ('f \<times> u64, 'w) fs_options" where
  "compio_options nt = \<lparr>fs_open_with = (\<lambda>q path.
     if opt_append q then fail_io compio_append_error
     else map_io (\<lambda>f. (f, 0)) (nt_open_with nt (compio_native_options q) path))\<rparr>"

definition compio_meta :: "('f, 'c, 'p, 'd, 'w) native_fs \<Rightarrow> (('n, 'c, 't) metadata, 'w) fs_meta" where
  "compio_meta nt = \<lparr>fs_metadata = (\<lambda>path. map_io from_compio (fs_metadata (nt_meta nt) path)),
     fs_symlink_metadata = (\<lambda>path. map_io from_compio (fs_symlink_metadata (nt_meta nt) path))\<rparr>"

definition compio_perm :: "('f, 'n, 'p, 'd, 'w) native_fs \<Rightarrow> 'w fs_perm" where
  "compio_perm nt = \<lparr>fs_set_permissions = change_readonly nt\<rparr>"

text \<open>\<open>copy\<close> reads the whole file and writes it; what Compio has not goes to the blocking pool.\<close>

definition compio_copy :: "('f, 'w) fs_base \<Rightarrow> string \<Rightarrow> string \<Rightarrow> ('w, u64) io" where
  "compio_copy base src dst =
     try_io (fs_read base src) (\<lambda>contents.
       (let len = of_nat (length contents) in try_io (fs_write base dst contents) (\<lambda>u. ok_io len)))"

definition compio_dirs ::
  "'w blocking_ops \<Rightarrow> ('g, 'm, 'q, 'd, 'w) native_fs \<Rightarrow> ('f, 'n, 'p, 'e, 'w) native_fs \<Rightarrow> ('d, 'w) fs_dirs" where
  "compio_dirs ops std nt = \<lparr>
     fs_create_dir = (\<lambda>path. fs_create_dir (nt_dirs nt) path),
     fs_create_dir_all = (\<lambda>path. fs_create_dir_all (nt_dirs nt) path),
     fs_read_dir = (\<lambda>path. fs_read_dir (blocking_dirs ops std) path),
     fs_remove_dir = (\<lambda>path. fs_remove_dir (nt_dirs nt) path),
     fs_remove_dir_all = (\<lambda>path. fs_remove_dir_all (blocking_dirs ops std) path),
     fs_remove_file = (\<lambda>path. fs_remove_file (nt_dirs nt) path),
     fs_rename = (\<lambda>src dst. fs_rename (nt_dirs nt) src dst),
     fs_copy = compio_copy (nt_base nt),
     fs_canonicalize = (\<lambda>path. fs_canonicalize (blocking_dirs ops std) path),
     fs_try_exists = exists_by_metadata (fs_metadata (nt_meta nt))\<rparr>"

end
