(* ===== verification/Builtin_Files.thy ===== *)
theory Builtin_Files
  imports File_Systems Wasm_Directories Task_Context
begin

text \<open>
  The built-in file system (\<open>src/src/fs/builtin.rs\<close>), which is one of the others or none, and the files,
  directory readers and entries it gives (\<open>src/src/fs.rs\<close>, \<open>src/src/fs/directory.rs\<close>): each holds what its
  file system gave in a variant of its own and passes every call on to it. What a \<open>File\<close> keeps beside
  its variant is the subject of the theory on polled files.

  A build has either the native file systems or the browser's, so one world serves all of them.
\<close>

section \<open>State\<close>

text \<open>The operations of other crates on an open file \<open>'h\<close>, with metadata \<open>'n\<close> and permissions \<open>'p\<close>.\<close>

record ('h, 'n, 'p, 'v) native_file =
  nf_metadata :: "'h \<Rightarrow> ('v, 'n) io"
  nf_permissions :: "'n \<Rightarrow> 'p"
  nf_set_readonly :: "bool \<Rightarrow> 'p \<Rightarrow> 'p"
  nf_set_len :: "'h \<Rightarrow> u64 \<Rightarrow> ('v, unit) io"
  nf_set_permissions :: "'h \<Rightarrow> 'p \<Rightarrow> ('v, unit) io"
  nf_sync_all :: "'h \<Rightarrow> ('v, unit) io"
  nf_sync_data :: "'h \<Rightarrow> ('v, unit) io"

text \<open>
  On a directory reader \<open>'x\<close> and an entry \<open>'e\<close> with file type \<open>'k\<close>. A reader is an iterator of results, a
  stream of them, or has a method \<open>next_entry\<close>.
\<close>

record ('x, 'e, 'n, 'k, 'v) native_dir =
  nd_next :: "'x \<Rightarrow> 'v \<Rightarrow> 'e io_result option \<times> 'v"
  nd_next_entry :: "'x \<Rightarrow> ('v, 'e option) io"
  nd_path :: "'e \<Rightarrow> string"
  nd_file_name :: "'e \<Rightarrow> string"
  nd_metadata :: "'e \<Rightarrow> ('v, 'n) io"
  nd_file_type :: "'e \<Rightarrow> ('v, 'k) io"

record ('h, 'n, 'c, 'p, 'x, 'e, 'k, 'd, 'f, 'b, 'st, 'it, 'w) backends =
  be_tokio :: "('h, 'n, 'p, 'x, ('d, 'w) wasm) native_fs"
  be_smol :: "('h, 'n, 'p, 'x, ('d, 'w) wasm) native_fs"
  be_std :: "('h, 'n, 'p, 'x, ('d, 'w) wasm) native_fs"
  be_compio :: "('h, 'c, 'p, 'x, ('d, 'w) wasm) native_fs"
  be_tokio_file :: "('h, 'n, 'p, ('d, 'w) wasm) native_file"
  be_smol_file :: "('h, 'n, 'p, ('d, 'w) wasm) native_file"
  be_std_file :: "('h, 'n, 'p, ('d, 'w) wasm) native_file"
  be_compio_file :: "('h, 'c, 'p, ('d, 'w) wasm) native_file"
  be_tokio_dir :: "('x, 'e, 'n, 'k, ('d, 'w) wasm) native_dir"
  be_smol_dir :: "('x, 'e, 'n, 'k, ('d, 'w) wasm) native_dir"
  be_std_dir :: "('x, 'e, 'n, 'k, ('d, 'w) wasm) native_dir"
  be_jobs :: "builtin_executor \<Rightarrow> ('d, 'w) wasm blocking_ops"
  be_opfs :: "('d, 'f, 'b, 'st, 'it, 'w) opfs_ops"

text \<open>\<open>FileInner\<close>, \<open>ReadDirInner\<close>, \<open>DirEntryInner\<close>; what came from a blocking pool keeps its executor.\<close>

datatype ('h, 'f) opened_file = FileTokio 'h | FileSmol 'h | FileCompio 'h u64
  | FileBlocking builtin_executor 'h | FileWasm "'f wasm_file"

datatype ('x, 'it) read_dir_inner = DirTokio 'x | DirSmol 'x | DirBlocking builtin_executor 'x
  | DirWasm "'it wasm_read_dir"

datatype ('e, 'f) dir_entry_inner = EntryTokio 'e | EntrySmol 'e | EntryBlocking builtin_executor 'e
  | EntryWasm "'f wasm_dir_entry"

definition unavailable_fs :: io_error where
  "unavailable_fs = IoError Unsupported ''no filesystem backend is available''"

text \<open>\<open>current()\<close>: the file system of the executor of the running task.\<close>

definition current_fs :: "builtin_executor \<Rightarrow> thread \<Rightarrow> 'w ambient \<Rightarrow> builtin_filesystem" where
  "current_fs dflt th s = filesystem_of (task_executor dflt th s)"

text \<open>Metadata of the browser, where the other constructors do not exist, as the metadata of the crate.\<close>

fun wasm_view :: "(unit, unit, nat) metadata \<Rightarrow> ('n, 'c, nat) metadata" where
  "wasm_view (WasmMeta k len t) = WasmMeta k len t"
| "wasm_view m = wasm_directory_meta"

section \<open>\<open>FileSystem\<close> and \<open>FileSystemOpenOptions\<close>\<close>

fun builtin_open where
  "builtin_open be FsTokio path = map_io FileTokio (fs_open (tokio_base (be_tokio be)) path)"
| "builtin_open be FsSmol path = map_io FileSmol (fs_open (smol_base (be_smol be)) path)"
| "builtin_open be FsCompio path =
     map_io (\<lambda>(h, p). FileCompio h p) (fs_open (compio_base (be_compio be)) path)"
| "builtin_open be FsThreadPool path =
     map_io (FileBlocking ThreadPool) (fs_open (blocking_base (be_jobs be ThreadPool) (be_std be)) path)"
| "builtin_open be FsLite path =
     map_io (FileBlocking LiteExec) (fs_open (blocking_base (be_jobs be LiteExec) (be_std be)) path)"
| "builtin_open be FsWasm path = map_io FileWasm (wasm_open_path (be_opfs be) path)"
| "builtin_open be FsUnavailable path = fail_io unavailable_fs"

fun builtin_create where
  "builtin_create be FsTokio path = map_io FileTokio (fs_create (tokio_base (be_tokio be)) path)"
| "builtin_create be FsSmol path = map_io FileSmol (fs_create (smol_base (be_smol be)) path)"
| "builtin_create be FsCompio path =
     map_io (\<lambda>(h, p). FileCompio h p) (fs_create (compio_base (be_compio be)) path)"
| "builtin_create be FsThreadPool path =
     map_io (FileBlocking ThreadPool) (fs_create (blocking_base (be_jobs be ThreadPool) (be_std be)) path)"
| "builtin_create be FsLite path =
     map_io (FileBlocking LiteExec) (fs_create (blocking_base (be_jobs be LiteExec) (be_std be)) path)"
| "builtin_create be FsWasm path = map_io FileWasm (wasm_create_path (be_opfs be) path)"
| "builtin_create be FsUnavailable path = fail_io unavailable_fs"

fun builtin_read where
  "builtin_read be FsTokio path = fs_read (tokio_base (be_tokio be)) path"
| "builtin_read be FsSmol path = fs_read (smol_base (be_smol be)) path"
| "builtin_read be FsCompio path = fs_read (compio_base (be_compio be)) path"
| "builtin_read be FsThreadPool path = fs_read (blocking_base (be_jobs be ThreadPool) (be_std be)) path"
| "builtin_read be FsLite path = fs_read (blocking_base (be_jobs be LiteExec) (be_std be)) path"
| "builtin_read be FsWasm path = wasm_read_path (be_opfs be) path"
| "builtin_read be FsUnavailable path = fail_io unavailable_fs"

fun builtin_read_to_string where
  "builtin_read_to_string be FsTokio path = fs_read_to_string (tokio_base (be_tokio be)) path"
| "builtin_read_to_string be FsSmol path = fs_read_to_string (smol_base (be_smol be)) path"
| "builtin_read_to_string be FsCompio path = fs_read_to_string (compio_base (be_compio be)) path"
| "builtin_read_to_string be FsThreadPool path =
     fs_read_to_string (blocking_base (be_jobs be ThreadPool) (be_std be)) path"
| "builtin_read_to_string be FsLite path =
     fs_read_to_string (blocking_base (be_jobs be LiteExec) (be_std be)) path"
| "builtin_read_to_string be FsWasm path = wasm_read_path_to_string (be_opfs be) path"
| "builtin_read_to_string be FsUnavailable path = fail_io unavailable_fs"

fun builtin_write where
  "builtin_write be FsTokio path contents = fs_write (tokio_base (be_tokio be)) path contents"
| "builtin_write be FsSmol path contents = fs_write (smol_base (be_smol be)) path contents"
| "builtin_write be FsCompio path contents = fs_write (compio_base (be_compio be)) path contents"
| "builtin_write be FsThreadPool path contents =
     fs_write (blocking_base (be_jobs be ThreadPool) (be_std be)) path contents"
| "builtin_write be FsLite path contents =
     fs_write (blocking_base (be_jobs be LiteExec) (be_std be)) path contents"
| "builtin_write be FsWasm path contents = wasm_write_path (be_opfs be) path contents"
| "builtin_write be FsUnavailable path contents = fail_io unavailable_fs"

fun builtin_open_with where
  "builtin_open_with be FsTokio q path =
     map_io FileTokio (fs_open_with (tokio_options (be_tokio be)) q path)"
| "builtin_open_with be FsSmol q path =
     map_io FileSmol (fs_open_with (smol_options (be_smol be)) q path)"
| "builtin_open_with be FsCompio q path =
     map_io (\<lambda>(h, p). FileCompio h p) (fs_open_with (compio_options (be_compio be)) q path)"
| "builtin_open_with be FsThreadPool q path =
     map_io (FileBlocking ThreadPool) (fs_open_with (blocking_options (be_jobs be ThreadPool) (be_std be)) q path)"
| "builtin_open_with be FsLite q path =
     map_io (FileBlocking LiteExec) (fs_open_with (blocking_options (be_jobs be LiteExec) (be_std be)) q path)"
| "builtin_open_with be FsWasm q path = map_io FileWasm (wasm_open_with (be_opfs be) q path)"
| "builtin_open_with be FsUnavailable q path = fail_io unavailable_fs"

section \<open>\<open>FileSystemMetadata\<close> and \<open>FileSystemPermissions\<close>\<close>

fun builtin_metadata where
  "builtin_metadata be FsTokio path = fs_metadata (tokio_meta (be_tokio be)) path"
| "builtin_metadata be FsSmol path = fs_metadata (smol_meta (be_smol be)) path"
| "builtin_metadata be FsCompio path = fs_metadata (compio_meta (be_compio be)) path"
| "builtin_metadata be FsThreadPool path =
     fs_metadata (blocking_meta (be_jobs be ThreadPool) (be_std be)) path"
| "builtin_metadata be FsLite path = fs_metadata (blocking_meta (be_jobs be LiteExec) (be_std be)) path"
| "builtin_metadata be FsWasm path = map_io wasm_view (wasm_metadata (be_opfs be) path)"
| "builtin_metadata be FsUnavailable path = fail_io unavailable_fs"

fun builtin_symlink_metadata where
  "builtin_symlink_metadata be FsTokio path = fs_symlink_metadata (tokio_meta (be_tokio be)) path"
| "builtin_symlink_metadata be FsSmol path = fs_symlink_metadata (smol_meta (be_smol be)) path"
| "builtin_symlink_metadata be FsCompio path = fs_symlink_metadata (compio_meta (be_compio be)) path"
| "builtin_symlink_metadata be FsThreadPool path =
     fs_symlink_metadata (blocking_meta (be_jobs be ThreadPool) (be_std be)) path"
| "builtin_symlink_metadata be FsLite path =
     fs_symlink_metadata (blocking_meta (be_jobs be LiteExec) (be_std be)) path"
| "builtin_symlink_metadata be FsWasm path = map_io wasm_view (wasm_symlink_metadata (be_opfs be) path)"
| "builtin_symlink_metadata be FsUnavailable path = fail_io unavailable_fs"

fun builtin_set_permissions where
  "builtin_set_permissions be FsTokio path q = fs_set_permissions (tokio_perm (be_tokio be)) path q"
| "builtin_set_permissions be FsSmol path q = fs_set_permissions (smol_perm (be_smol be)) path q"
| "builtin_set_permissions be FsCompio path q = fs_set_permissions (compio_perm (be_compio be)) path q"
| "builtin_set_permissions be FsThreadPool path q =
     fs_set_permissions (blocking_perm (be_jobs be ThreadPool) (be_std be)) path q"
| "builtin_set_permissions be FsLite path q =
     fs_set_permissions (blocking_perm (be_jobs be LiteExec) (be_std be)) path q"
| "builtin_set_permissions be FsWasm path q = wasm_set_path_permissions path q"
| "builtin_set_permissions be FsUnavailable path q = fail_io unavailable_fs"

section \<open>\<open>FileSystemDirectories\<close>\<close>

fun builtin_create_dir where
  "builtin_create_dir be FsTokio path = fs_create_dir (tokio_dirs (be_tokio be)) path"
| "builtin_create_dir be FsSmol path = fs_create_dir (smol_dirs (be_smol be)) path"
| "builtin_create_dir be FsCompio path =
     fs_create_dir (compio_dirs (be_jobs be Compio) (be_std be) (be_compio be)) path"
| "builtin_create_dir be FsThreadPool path =
     fs_create_dir (blocking_dirs (be_jobs be ThreadPool) (be_std be)) path"
| "builtin_create_dir be FsLite path =
     fs_create_dir (blocking_dirs (be_jobs be LiteExec) (be_std be)) path"
| "builtin_create_dir be FsWasm path = wasm_create_dir (be_opfs be) path"
| "builtin_create_dir be FsUnavailable path = fail_io unavailable_fs"

fun builtin_create_dir_all where
  "builtin_create_dir_all be FsTokio path = fs_create_dir_all (tokio_dirs (be_tokio be)) path"
| "builtin_create_dir_all be FsSmol path = fs_create_dir_all (smol_dirs (be_smol be)) path"
| "builtin_create_dir_all be FsCompio path =
     fs_create_dir_all (compio_dirs (be_jobs be Compio) (be_std be) (be_compio be)) path"
| "builtin_create_dir_all be FsThreadPool path =
     fs_create_dir_all (blocking_dirs (be_jobs be ThreadPool) (be_std be)) path"
| "builtin_create_dir_all be FsLite path =
     fs_create_dir_all (blocking_dirs (be_jobs be LiteExec) (be_std be)) path"
| "builtin_create_dir_all be FsWasm path = wasm_create_dir_all (be_opfs be) path"
| "builtin_create_dir_all be FsUnavailable path = fail_io unavailable_fs"

fun builtin_read_dir where
  "builtin_read_dir be FsTokio path = map_io DirTokio (fs_read_dir (tokio_dirs (be_tokio be)) path)"
| "builtin_read_dir be FsSmol path = map_io DirSmol (fs_read_dir (smol_dirs (be_smol be)) path)"
| "builtin_read_dir be FsCompio path =
     map_io (DirBlocking Compio) (fs_read_dir (compio_dirs (be_jobs be Compio) (be_std be) (be_compio be)) path)"
| "builtin_read_dir be FsThreadPool path =
     map_io (DirBlocking ThreadPool) (fs_read_dir (blocking_dirs (be_jobs be ThreadPool) (be_std be)) path)"
| "builtin_read_dir be FsLite path =
     map_io (DirBlocking LiteExec) (fs_read_dir (blocking_dirs (be_jobs be LiteExec) (be_std be)) path)"
| "builtin_read_dir be FsWasm path = map_io DirWasm (wasm_read_dir_of (be_opfs be) path)"
| "builtin_read_dir be FsUnavailable path = fail_io unavailable_fs"

fun builtin_remove_dir where
  "builtin_remove_dir be FsTokio path = fs_remove_dir (tokio_dirs (be_tokio be)) path"
| "builtin_remove_dir be FsSmol path = fs_remove_dir (smol_dirs (be_smol be)) path"
| "builtin_remove_dir be FsCompio path =
     fs_remove_dir (compio_dirs (be_jobs be Compio) (be_std be) (be_compio be)) path"
| "builtin_remove_dir be FsThreadPool path =
     fs_remove_dir (blocking_dirs (be_jobs be ThreadPool) (be_std be)) path"
| "builtin_remove_dir be FsLite path =
     fs_remove_dir (blocking_dirs (be_jobs be LiteExec) (be_std be)) path"
| "builtin_remove_dir be FsWasm path = wasm_remove_dir (be_opfs be) path"
| "builtin_remove_dir be FsUnavailable path = fail_io unavailable_fs"

fun builtin_remove_dir_all where
  "builtin_remove_dir_all be FsTokio path = fs_remove_dir_all (tokio_dirs (be_tokio be)) path"
| "builtin_remove_dir_all be FsSmol path = fs_remove_dir_all (smol_dirs (be_smol be)) path"
| "builtin_remove_dir_all be FsCompio path =
     fs_remove_dir_all (compio_dirs (be_jobs be Compio) (be_std be) (be_compio be)) path"
| "builtin_remove_dir_all be FsThreadPool path =
     fs_remove_dir_all (blocking_dirs (be_jobs be ThreadPool) (be_std be)) path"
| "builtin_remove_dir_all be FsLite path =
     fs_remove_dir_all (blocking_dirs (be_jobs be LiteExec) (be_std be)) path"
| "builtin_remove_dir_all be FsWasm path = wasm_remove_dir_all (be_opfs be) path"
| "builtin_remove_dir_all be FsUnavailable path = fail_io unavailable_fs"

fun builtin_remove_file where
  "builtin_remove_file be FsTokio path = fs_remove_file (tokio_dirs (be_tokio be)) path"
| "builtin_remove_file be FsSmol path = fs_remove_file (smol_dirs (be_smol be)) path"
| "builtin_remove_file be FsCompio path =
     fs_remove_file (compio_dirs (be_jobs be Compio) (be_std be) (be_compio be)) path"
| "builtin_remove_file be FsThreadPool path =
     fs_remove_file (blocking_dirs (be_jobs be ThreadPool) (be_std be)) path"
| "builtin_remove_file be FsLite path =
     fs_remove_file (blocking_dirs (be_jobs be LiteExec) (be_std be)) path"
| "builtin_remove_file be FsWasm path = wasm_remove_file (be_opfs be) path"
| "builtin_remove_file be FsUnavailable path = fail_io unavailable_fs"

text \<open>A rename in the browser may never return, which is \<open>None\<close>.\<close>

fun builtin_rename where
  "builtin_rename be FsTokio src dst =
     (\<lambda>s. Some (fs_rename (tokio_dirs (be_tokio be)) src dst s))"
| "builtin_rename be FsSmol src dst = (\<lambda>s. Some (fs_rename (smol_dirs (be_smol be)) src dst s))"
| "builtin_rename be FsCompio src dst =
     (\<lambda>s. Some (fs_rename (compio_dirs (be_jobs be Compio) (be_std be) (be_compio be)) src dst s))"
| "builtin_rename be FsThreadPool src dst =
     (\<lambda>s. Some (fs_rename (blocking_dirs (be_jobs be ThreadPool) (be_std be)) src dst s))"
| "builtin_rename be FsLite src dst =
     (\<lambda>s. Some (fs_rename (blocking_dirs (be_jobs be LiteExec) (be_std be)) src dst s))"
| "builtin_rename be FsWasm src dst = wasm_rename (be_opfs be) src dst"
| "builtin_rename be FsUnavailable src dst = (\<lambda>s. Some (fail_io unavailable_fs s))"

fun builtin_copy where
  "builtin_copy be FsTokio src dst = fs_copy (tokio_dirs (be_tokio be)) src dst"
| "builtin_copy be FsSmol src dst = fs_copy (smol_dirs (be_smol be)) src dst"
| "builtin_copy be FsCompio src dst =
     fs_copy (compio_dirs (be_jobs be Compio) (be_std be) (be_compio be)) src dst"
| "builtin_copy be FsThreadPool src dst =
     fs_copy (blocking_dirs (be_jobs be ThreadPool) (be_std be)) src dst"
| "builtin_copy be FsLite src dst = fs_copy (blocking_dirs (be_jobs be LiteExec) (be_std be)) src dst"
| "builtin_copy be FsWasm src dst = wasm_copy (be_opfs be) src dst"
| "builtin_copy be FsUnavailable src dst = fail_io unavailable_fs"

fun builtin_canonicalize where
  "builtin_canonicalize be FsTokio path = fs_canonicalize (tokio_dirs (be_tokio be)) path"
| "builtin_canonicalize be FsSmol path = fs_canonicalize (smol_dirs (be_smol be)) path"
| "builtin_canonicalize be FsCompio path =
     fs_canonicalize (compio_dirs (be_jobs be Compio) (be_std be) (be_compio be)) path"
| "builtin_canonicalize be FsThreadPool path =
     fs_canonicalize (blocking_dirs (be_jobs be ThreadPool) (be_std be)) path"
| "builtin_canonicalize be FsLite path =
     fs_canonicalize (blocking_dirs (be_jobs be LiteExec) (be_std be)) path"
| "builtin_canonicalize be FsWasm path = wasm_canonicalize (be_opfs be) path"
| "builtin_canonicalize be FsUnavailable path = fail_io unavailable_fs"

fun builtin_try_exists where
  "builtin_try_exists be FsTokio path = fs_try_exists (tokio_dirs (be_tokio be)) path"
| "builtin_try_exists be FsSmol path = fs_try_exists (smol_dirs (be_smol be)) path"
| "builtin_try_exists be FsCompio path =
     fs_try_exists (compio_dirs (be_jobs be Compio) (be_std be) (be_compio be)) path"
| "builtin_try_exists be FsThreadPool path =
     fs_try_exists (blocking_dirs (be_jobs be ThreadPool) (be_std be)) path"
| "builtin_try_exists be FsLite path =
     fs_try_exists (blocking_dirs (be_jobs be LiteExec) (be_std be)) path"
| "builtin_try_exists be FsWasm path = wasm_try_exists (be_opfs be) path"
| "builtin_try_exists be FsUnavailable path = fail_io unavailable_fs"

section \<open>Open files\<close>

text \<open>\<open>BlockingFile\<close> and \<open>CompioFile\<close>: the methods that are not reading, writing or seeking.\<close>

definition blocking_file_metadata where
  "blocking_file_metadata ops nf h = pool_run ops (map_io from_native (nf_metadata nf h))"

definition blocking_file_set_len where
  "blocking_file_set_len ops nf h n = pool_run ops (nf_set_len nf h n)"

definition file_change_readonly ::
  "('h, 'n, 'p, 'v) native_file \<Rightarrow> 'h \<Rightarrow> permissions \<Rightarrow> ('v, unit) io" where
  "file_change_readonly nf h q =
     try_io (nf_metadata nf h)
       (\<lambda>m. nf_set_permissions nf h (nf_set_readonly nf (readonly_flag q) (nf_permissions nf m)))"

definition blocking_file_set_permissions where
  "blocking_file_set_permissions ops nf h q = pool_run ops (file_change_readonly nf h q)"

definition blocking_file_sync_all where
  "blocking_file_sync_all ops nf h = pool_run ops (nf_sync_all nf h)"

definition blocking_file_sync_data where
  "blocking_file_sync_data ops nf h = pool_run ops (nf_sync_data nf h)"

definition compio_file_metadata where
  "compio_file_metadata nf h = map_io from_compio (nf_metadata nf h)"

definition compio_file_set_permissions where
  "compio_file_set_permissions nf h q = file_change_readonly nf h q"

text \<open>
  The methods of \<open>File\<close>. For a Compio file \<open>set_permissions\<close> asks for the metadata itself, and changes
  the read-only flag of its permissions before it hands them on.
\<close>

fun file_metadata where
  "file_metadata be (FileTokio h) = map_io from_native (nf_metadata (be_tokio_file be) h)"
| "file_metadata be (FileSmol h) = map_io from_native (nf_metadata (be_smol_file be) h)"
| "file_metadata be (FileCompio h p) = compio_file_metadata (be_compio_file be) h"
| "file_metadata be (FileBlocking x h) = blocking_file_metadata (be_jobs be x) (be_std_file be) h"
| "file_metadata be (FileWasm f) = map_io wasm_view (wasm_file_metadata_of (be_opfs be) f)"

fun file_set_len where
  "file_set_len be (FileTokio h) n = nf_set_len (be_tokio_file be) h n"
| "file_set_len be (FileSmol h) n = nf_set_len (be_smol_file be) h n"
| "file_set_len be (FileCompio h p) n = nf_set_len (be_compio_file be) h n"
| "file_set_len be (FileBlocking x h) n = blocking_file_set_len (be_jobs be x) (be_std_file be) h n"
| "file_set_len be (FileWasm f) n = wasm_set_len (be_opfs be) f n"

fun file_set_permissions where
  "file_set_permissions nops cops be (FileTokio h) q = file_change_readonly (be_tokio_file be) h q"
| "file_set_permissions nops cops be (FileSmol h) q = file_change_readonly (be_smol_file be) h q"
| "file_set_permissions nops cops be (FileCompio h p) q =
     try_io (compio_file_metadata (be_compio_file be) h)
       (\<lambda>m. compio_file_set_permissions (be_compio_file be) h
              (set_readonly (readonly_flag q) (meta_permissions nops cops m)))"
| "file_set_permissions nops cops be (FileBlocking x h) q =
     blocking_file_set_permissions (be_jobs be x) (be_std_file be) h q"
| "file_set_permissions nops cops be (FileWasm f) q = wasm_set_permissions q"

fun file_sync_all where
  "file_sync_all be (FileTokio h) = nf_sync_all (be_tokio_file be) h"
| "file_sync_all be (FileSmol h) = nf_sync_all (be_smol_file be) h"
| "file_sync_all be (FileCompio h p) = nf_sync_all (be_compio_file be) h"
| "file_sync_all be (FileBlocking x h) = blocking_file_sync_all (be_jobs be x) (be_std_file be) h"
| "file_sync_all be (FileWasm f) = wasm_sync"

fun file_sync_data where
  "file_sync_data be (FileTokio h) = nf_sync_data (be_tokio_file be) h"
| "file_sync_data be (FileSmol h) = nf_sync_data (be_smol_file be) h"
| "file_sync_data be (FileCompio h p) = nf_sync_data (be_compio_file be) h"
| "file_sync_data be (FileBlocking x h) = blocking_file_sync_data (be_jobs be x) (be_std_file be) h"
| "file_sync_data be (FileWasm f) = wasm_sync"

text \<open>\<open>File::create_new\<close> and the other functions that use the file system of the running task.\<close>

definition file_create_new where
  "file_create_new be dflt th s path =
     builtin_open_with be (current_fs dflt th s) (set_create_new True (set_write True open_options_new)) path"

section \<open>Directory readers and entries\<close>

text \<open>\<open>transpose\<close> of what an iterator or a stream gave.\<close>

definition transpose_io :: "('v \<Rightarrow> 'e io_result option \<times> 'v) \<Rightarrow> ('v, 'e option) io" where
  "transpose_io m s = (case m s of (None, s') \<Rightarrow> (Inr None, s') | (Some r, s') \<Rightarrow> (map_sum id Some r, s'))"

definition blocking_next_entry where
  "blocking_next_entry ops nd x = pool_run ops (transpose_io (nd_next nd x))"

definition blocking_entry_metadata where
  "blocking_entry_metadata ops nd e = pool_run ops (map_io from_native (nd_metadata nd e))"

definition blocking_entry_file_type where
  "blocking_entry_file_type ops nd e = pool_run ops (map_io NativeType (nd_file_type nd e))"

fun dir_next_entry where
  "dir_next_entry be (DirTokio x) = map_io (map_option EntryTokio) (nd_next_entry (be_tokio_dir be) x)"
| "dir_next_entry be (DirSmol x) =
     map_io (map_option EntrySmol) (transpose_io (nd_next (be_smol_dir be) x))"
| "dir_next_entry be (DirBlocking ex x) =
     map_io (map_option (EntryBlocking ex)) (blocking_next_entry (be_jobs be ex) (be_std_dir be) x)"
| "dir_next_entry be (DirWasm rd) = map_io (map_option EntryWasm) (next_entry (be_opfs be) rd)"

fun dir_entry_path where
  "dir_entry_path be (EntryTokio e) = nd_path (be_tokio_dir be) e"
| "dir_entry_path be (EntrySmol e) = nd_path (be_smol_dir be) e"
| "dir_entry_path be (EntryBlocking ex e) = nd_path (be_std_dir be) e"
| "dir_entry_path be (EntryWasm e) = de_path e"

fun dir_entry_file_name where
  "dir_entry_file_name be (EntryTokio e) = nd_file_name (be_tokio_dir be) e"
| "dir_entry_file_name be (EntrySmol e) = nd_file_name (be_smol_dir be) e"
| "dir_entry_file_name be (EntryBlocking ex e) = nd_file_name (be_std_dir be) e"
| "dir_entry_file_name be (EntryWasm e) = de_name e"

fun dir_entry_metadata where
  "dir_entry_metadata be (EntryTokio e) = map_io from_native (nd_metadata (be_tokio_dir be) e)"
| "dir_entry_metadata be (EntrySmol e) = map_io from_native (nd_metadata (be_smol_dir be) e)"
| "dir_entry_metadata be (EntryBlocking ex e) = blocking_entry_metadata (be_jobs be ex) (be_std_dir be) e"
| "dir_entry_metadata be (EntryWasm e) = map_io wasm_view (entry_metadata (be_opfs be) e)"

text \<open>The file type of a browser entry is told by whether it is a directory.\<close>

fun dir_entry_file_type where
  "dir_entry_file_type be (EntryTokio e) = map_io NativeType (nd_file_type (be_tokio_dir be) e)"
| "dir_entry_file_type be (EntrySmol e) = map_io NativeType (nd_file_type (be_smol_dir be) e)"
| "dir_entry_file_type be (EntryBlocking ex e) = blocking_entry_file_type (be_jobs be ex) (be_std_dir be) e"
| "dir_entry_file_type be (EntryWasm e) =
     map_io (\<lambda>d. WasmType (if d then WasmDirectory else WasmPlainFile)) (entry_is_dir (be_opfs be) e)"

end
