(* ===== verification/File_System_Properties.thy ===== *)
theory File_System_Properties
  imports Builtin_Files Opfs_Tree
begin

text \<open>
  What the file systems promise: the native ones behave as the standard library's whichever executor is
  selected, and without one every operation is refused.
\<close>

section \<open>The options arrive as they were set\<close>

lemma native_options_id [simp]: "native_options q = q"
  by (cases q) (simp add: native_options_def set_create_new_def set_create_def set_truncate_def
      set_append_def set_write_def set_read_def open_options_new_def)

lemma from_native_NativeMeta: "from_native = NativeMeta"
  by (rule ext) (simp add: from_native_def)

lemma map_io_id [simp]: "map_io (\<lambda>x. x) m = m"
  by (rule ext) (auto simp: map_io_def io_defs split: prod.splits sum.splits)

lemma map_map_io [simp]: "map_io g (map_io h m) = map_io (\<lambda>x. g (h x)) m"
  by (rule ext) (auto simp: map_io_def io_defs split: prod.splits sum.splits)

section \<open>Jobs of a blocking pool\<close>

lemma pool_run_done: "(\<And>w. bl_join ops w = (None, w)) \<Longrightarrow> pool_run ops job = job"
  by (rule ext) (auto simp: pool_run_def flatten_io_def run_blocking_def split: prod.splits)

lemmas blocking_defs = blocking_base_def blocking_options_def blocking_meta_def blocking_perm_def
  blocking_dirs_def run_path_def

lemmas tokio_defs = tokio_base_def tokio_options_def tokio_meta_def tokio_perm_def tokio_dirs_def

lemmas smol_defs = smol_base_def smol_options_def smol_meta_def smol_perm_def smol_dirs_def

section \<open>The behaviour of a file system\<close>

text \<open>The handle inside a file and a directory reader, where the backend is native.\<close>

fun native_handle :: "('h, 'f) opened_file \<Rightarrow> 'h option" where
  "native_handle (FileTokio h) = Some h"
| "native_handle (FileSmol h) = Some h"
| "native_handle (FileCompio h p) = Some h"
| "native_handle (FileBlocking x h) = Some h"
| "native_handle (FileWasm f) = None"

fun native_reader :: "('x, 'it) read_dir_inner \<Rightarrow> 'x option" where
  "native_reader (DirTokio x) = Some x"
| "native_reader (DirSmol x) = Some x"
| "native_reader (DirBlocking ex x) = Some x"
| "native_reader (DirWasm rd) = None"

text \<open>Every operation of a built-in file system is the same operation of \<open>std\<close>.\<close>

definition opens_like where
  "opens_like be fs std \<longleftrightarrow>
     (\<forall>path. map_io native_handle (builtin_open be fs path) = map_io Some (fs_open (nt_base std) path)) \<and>
     (\<forall>path. map_io native_handle (builtin_create be fs path) = map_io Some (fs_create (nt_base std) path)) \<and>
     (\<forall>q path. map_io native_handle (builtin_open_with be fs q path) = map_io Some (nt_open_with std q path))"

definition contents_like where
  "contents_like be fs std \<longleftrightarrow>
     builtin_read be fs = fs_read (nt_base std) \<and>
     builtin_read_to_string be fs = fs_read_to_string (nt_base std) \<and>
     builtin_write be fs = fs_write (nt_base std)"

definition entries_like where
  "entries_like be fs std \<longleftrightarrow>
     (\<forall>path. builtin_metadata be fs path = map_io NativeMeta (fs_metadata (nt_meta std) path)) \<and>
     (\<forall>path. builtin_symlink_metadata be fs path = map_io NativeMeta (fs_symlink_metadata (nt_meta std) path)) \<and>
     builtin_set_permissions be fs = change_readonly std"

definition directories_like where
  "directories_like be fs std \<longleftrightarrow>
     builtin_create_dir be fs = fs_create_dir (nt_dirs std) \<and>
     builtin_create_dir_all be fs = fs_create_dir_all (nt_dirs std) \<and>
     (\<forall>path. map_io native_reader (builtin_read_dir be fs path) = map_io Some (fs_read_dir (nt_dirs std) path)) \<and>
     builtin_remove_dir be fs = fs_remove_dir (nt_dirs std) \<and>
     builtin_remove_dir_all be fs = fs_remove_dir_all (nt_dirs std) \<and>
     builtin_remove_file be fs = fs_remove_file (nt_dirs std) \<and>
     (\<forall>src dst s. builtin_rename be fs src dst s = Some (fs_rename (nt_dirs std) src dst s)) \<and>
     builtin_copy be fs = fs_copy (nt_dirs std) \<and>
     builtin_canonicalize be fs = fs_canonicalize (nt_dirs std) \<and>
     builtin_try_exists be fs = fs_try_exists (nt_dirs std)"

lemmas like_defs = opens_like_def contents_like_def entries_like_def directories_like_def

text \<open>What the code relies on: the crates wrap \<open>std\<close>, and the executors run the jobs they are given.\<close>

definition wraps_std where
  "wraps_std be std \<longleftrightarrow> be_tokio be = std \<and> be_smol be = std \<and> be_std be = std \<and>
     fs_try_exists (nt_dirs std) = exists_by_metadata (fs_metadata (nt_meta std))"

definition runs_jobs where
  "runs_jobs be \<longleftrightarrow> (\<forall>x w. bl_join (be_jobs be x) w = (None, w))"

lemma runs_jobsD: "runs_jobs be \<Longrightarrow> pool_run (be_jobs be x) job = job"
  by (rule pool_run_done) (simp add: runs_jobs_def)

lemma native_like_std:
  assumes fs: "fs \<in> {FsTokio, FsSmol, FsThreadPool, FsLite}"
    and wraps: "wraps_std be std" and jobs: "runs_jobs be"
  shows "opens_like be fs std \<and> contents_like be fs std \<and> entries_like be fs std \<and> directories_like be fs std"
proof -
  note w = wraps [unfolded wraps_std_def] and j = runs_jobsD [OF jobs]
  have t: "(nt_dirs std)\<lparr>fs_try_exists := exists_by_metadata (fs_metadata (nt_meta std))\<rparr> = nt_dirs std"
    using w by (cases "nt_dirs std") simp
  have "opens_like be fs std" and "contents_like be fs std" and "entries_like be fs std"
    using fs w
    by (auto simp: like_defs tokio_defs smol_defs blocking_defs j from_native_NativeMeta fun_eq_iff)
  moreover have "directories_like be fs std"
    using fs w t
    by (auto simp: like_defs tokio_defs smol_defs blocking_defs j fun_eq_iff)
  ultimately show ?thesis by blast
qed


text \<open>A file system over the browser's tree, which has one file and refuses to write.\<close>

definition refuse :: "('s, 'a) io" where
  "refuse = fail_io (IoError PermissionDenied ''read only'')"

definition sample_fs :: "(nat, nat, bool, nat, (string list, opfs_tree) wasm) native_fs" where
  "sample_fs =
     (let lookup = (\<lambda>v path. if path = ''a'' then ok_io v else fail_io (IoError NotFound ''no file''));
          md = (\<lambda>path. if path = ''a'' then ok_io 3 else fail_io (IoError NotFound ''no file''))
      in \<lparr>nt_base = \<lparr>fs_open = lookup 7, fs_create = (\<lambda>path. refuse), fs_read = (\<lambda>path. ok_io [1, 2]),
           fs_read_to_string = (\<lambda>path. ok_io [65]), fs_write = (\<lambda>path contents. refuse)\<rparr>,
          nt_open_with = (\<lambda>q path. if opt_append q then ok_io 8 else refuse),
          nt_meta = \<lparr>fs_metadata = md, fs_symlink_metadata = md\<rparr>,
          nt_permissions = (\<lambda>n. n = 3), nt_set_readonly = (\<lambda>b p. b),
          nt_set_permissions = (\<lambda>path p. refuse),
          nt_dirs = \<lparr>fs_create_dir = (\<lambda>path. refuse), fs_create_dir_all = (\<lambda>path. refuse),
            fs_read_dir = (\<lambda>path. ok_io 5), fs_remove_dir = (\<lambda>path. refuse),
            fs_remove_dir_all = (\<lambda>path. refuse), fs_remove_file = (\<lambda>path. refuse),
            fs_rename = (\<lambda>src dst. refuse), fs_copy = (\<lambda>src dst. refuse),
            fs_canonicalize = ok_io, fs_try_exists = exists_by_metadata md\<rparr>\<rparr>)"

definition sample_jobs :: "'w blocking_ops" where
  "sample_jobs = \<lparr>bl_read = (\<lambda>buf w. (Inr 0, buf, w)), bl_write = (\<lambda>buf w. (Inr 0, w)),
     bl_flush = (\<lambda>w. (Inr (), w)), bl_seek = (\<lambda>p w. (Inr 0, w)), bl_join = (\<lambda>w. (None, w))\<rparr>"

definition sample_file :: "(nat, nat, bool, (string list, opfs_tree) wasm) native_file" where
  "sample_file = \<lparr>nf_metadata = ok_io, nf_permissions = (\<lambda>n. n = 3), nf_set_readonly = (\<lambda>b p. b),
     nf_set_len = (\<lambda>h n. ok_io ()), nf_set_permissions = (\<lambda>h p. ok_io ()),
     nf_sync_all = (\<lambda>h. ok_io ()), nf_sync_data = (\<lambda>h. ok_io ())\<rparr>"

definition sample_dir :: "(nat, string, nat, bool, (string list, opfs_tree) wasm) native_dir" where
  "sample_dir = \<lparr>nd_next = (\<lambda>x s. (None, s)), nd_next_entry = (\<lambda>x. ok_io None), nd_path = (\<lambda>e. e),
     nd_file_name = (\<lambda>e. e), nd_metadata = (\<lambda>e. ok_io 3), nd_file_type = (\<lambda>e. ok_io False)\<rparr>"

definition sample_backends where
  "sample_backends = \<lparr>be_tokio = sample_fs, be_smol = sample_fs, be_std = sample_fs, be_compio = sample_fs,
     be_tokio_file = sample_file, be_smol_file = sample_file, be_std_file = sample_file,
     be_compio_file = sample_file, be_tokio_dir = sample_dir, be_smol_dir = sample_dir,
     be_std_dir = sample_dir, be_jobs = (\<lambda>x. sample_jobs), be_opfs = tree_ops\<rparr>"


text \<open>Without a file system every operation is refused, and nothing happens.\<close>

lemma unavailable_refuses:
  "builtin_open be FsUnavailable path s = (Inl unavailable_fs, s)"
  "builtin_write be FsUnavailable path contents s = (Inl unavailable_fs, s)"
  "builtin_open_with be FsUnavailable q path s = (Inl unavailable_fs, s)"
  "builtin_rename be FsUnavailable src dst s = Some (Inl unavailable_fs, s)"
  by (simp_all add: fail_io_def)

end
