(* ===== verification/Udp_Buffers.thy ===== *)
theory Udp_Buffers
  imports Prelude
begin

text \<open>
  The sockets of the Compio backend keep a buffer between their operations (\<open>CompioUdpSocket\<close> and
  \<open>BufferSlot\<close> in \<open>src/src/net/udp.rs\<close>). An operation takes the buffer out of its slot, owns it while the
  kernel works on it, and puts it back; a second operation meanwhile finds the slot empty and allocates.
  The operations run on a shared socket, so any number of them is in flight, and each may be dropped.

  A \<open>Vec<u8>\<close> is its allocation, if it has one, its capacity and its bytes. \<open>grow\<close> is the capacity the
  allocator gives when one is asked for.
\<close>

section \<open>Buffers and slots\<close>

record vec =
  allocation :: "nat option"
  capacity :: nat
  vbytes :: "byte list"

definition vec_new :: vec where
  "vec_new = \<lparr>allocation = None, capacity = 0, vbytes = []\<rparr>"

definition vec_clear :: "vec \<Rightarrow> vec" where
  "vec_clear v = v\<lparr>vbytes := []\<rparr>"

text \<open>\<open>reserve_exact\<close> for \<open>n\<close> bytes in total, where the next unused allocation is \<open>fresh\<close>.\<close>

definition reserve :: "(nat \<Rightarrow> nat) \<Rightarrow> nat \<Rightarrow> vec \<Rightarrow> nat \<Rightarrow> vec \<times> nat" where
  "reserve grow n v fresh = (v\<lparr>allocation := Some fresh, capacity := grow n\<rparr>, Suc fresh)"

text \<open>\<open>extend_from_slice\<close>, which allocates when the bytes do not fit.\<close>

definition vec_extend :: "(nat \<Rightarrow> nat) \<Rightarrow> byte list \<Rightarrow> vec \<Rightarrow> nat \<Rightarrow> vec \<times> nat" where
  "vec_extend grow bs v fresh =
     (let n = length (vbytes v) + length bs;
          (v', fresh') = (if capacity v < n then reserve grow n v fresh else (v, fresh))
      in (v'\<lparr>vbytes := vbytes v' @ bs\<rparr>, fresh'))"

type_synonym buffer_slot = "vec option"

text \<open>\<open>BufferSlot::take\<close> gives the buffer, leaves the slot empty, and says the next unused allocation.\<close>

definition slot_take :: "(nat \<Rightarrow> nat) \<Rightarrow> nat \<Rightarrow> buffer_slot \<Rightarrow> nat \<Rightarrow> vec \<times> buffer_slot \<times> nat" where
  "slot_take grow n slot fresh =
     (let v = vec_clear (case slot of None \<Rightarrow> vec_new | Some v \<Rightarrow> v);
          (v', fresh') = (if capacity v < n then reserve grow n v fresh else (v, fresh))
      in (v', None, fresh'))"

definition slot_replace :: "vec \<Rightarrow> buffer_slot \<Rightarrow> buffer_slot" where
  "slot_replace v slot =
     (let v' = vec_clear v
      in if (case slot of None \<Rightarrow> True | Some cached \<Rightarrow> capacity cached < capacity v')
         then Some v' else slot)"

section \<open>The socket\<close>

text \<open>
  An operation in flight: the buffer the kernel has, and what the future borrows from its caller: the
  output to fill, or the input and where it goes, \<open>None\<close> for \<open>send\<close> and \<open>recv\<close>.
\<close>

datatype 'a udp_op =
  Receiving (op_buffer: vec) (op_output: "byte list")
| Sending (op_buffer: vec) (op_input: "byte list") (op_address: "'a option")

record 'a udp =
  receive_slot :: buffer_slot
  send_slot :: buffer_slot
  next_allocation :: nat
  in_flight :: "nat \<Rightarrow> 'a udp_op option"

definition udp_new :: "nat \<Rightarrow> 'a udp" where
  "udp_new fresh = \<lparr>receive_slot = None, send_slot = None, next_allocation = fresh, in_flight = Map.empty\<rparr>"

text \<open>\<open>recv\<close> and \<open>recv_from\<close> up to the await; only the second is answered an address. The kernel may fill the first \<open>length output\<close> bytes.\<close>

definition recv_start :: "(nat \<Rightarrow> nat) \<Rightarrow> byte list \<Rightarrow> 'a udp \<Rightarrow> 'a udp_op \<times> 'a udp" where
  "recv_start grow out s =
     (case slot_take grow (length out) (receive_slot s) (next_allocation s) of
        (v, slot, fresh) \<Rightarrow> (Receiving v out, s\<lparr>receive_slot := slot, next_allocation := fresh\<rparr>))"

text \<open>
  And after it, with the answer of the kernel and the bytes it left in the buffer: \<open>buffer[..read]\<close> and
  \<open>output[..read]\<close> panic when there are less, and then the buffer does not go back.
\<close>

definition recv_finish ::
  "vec \<Rightarrow> byte list \<Rightarrow> (nat \<times> 'a option) io_result \<Rightarrow> byte list \<Rightarrow> 'a udp \<Rightarrow>
   (nat \<times> 'a option) io_result outcome \<times> byte list \<times> 'a udp" where
  "recv_finish v out answer filled s =
     (let v' = v\<lparr>vbytes := filled\<rparr>; s' = s\<lparr>receive_slot := slot_replace v' (receive_slot s)\<rparr>
      in case answer of
           Inl e \<Rightarrow> (Returned answer, out, s')
         | Inr (n, a) \<Rightarrow>
             (let view = take (length out) (vbytes v')
              in if n \<le> length view \<and> n \<le> length out
                 then (Returned answer, copy_prefix (take n view) out, s')
                 else (Unwound, out, s)))"

text \<open>\<open>send\<close> and \<open>send_to\<close>, before and after the await.\<close>

definition send_start :: "(nat \<Rightarrow> nat) \<Rightarrow> byte list \<Rightarrow> 'a option \<Rightarrow> 'a udp \<Rightarrow> 'a udp_op \<times> 'a udp" where
  "send_start grow input addr s =
     (case slot_take grow (length input) (send_slot s) (next_allocation s) of
        (v, slot, fresh) \<Rightarrow>
          (case vec_extend grow input v fresh of
             (v', fresh') \<Rightarrow> (Sending v' input addr, s\<lparr>send_slot := slot, next_allocation := fresh'\<rparr>)))"

definition send_finish :: "vec \<Rightarrow> nat io_result \<Rightarrow> 'a udp \<Rightarrow> nat io_result \<times> 'a udp" where
  "send_finish v answer s = (answer, s\<lparr>send_slot := slot_replace v (send_slot s)\<rparr>)"

section \<open>Interleaved operations\<close>

text \<open>
  The future \<open>i\<close> starts, is answered by the kernel, or is dropped before that; then its buffer goes with
  the operation. The kernel writes only into buffers it was given for receiving.
\<close>

datatype 'a udp_event =
  StartRecv nat "byte list"
| StartSend nat "byte list" "'a option"
| Answer nat "(nat \<times> 'a option) io_result" "byte list"
| Dropped nat

fun udp_step :: "(nat \<Rightarrow> nat) \<Rightarrow> 'a udp_event \<Rightarrow> 'a udp \<Rightarrow> 'a udp" where
  "udp_step grow (StartRecv i out) s =
     (case in_flight s i of
        Some x \<Rightarrow> s
      | None \<Rightarrow> (case recv_start grow out s of (x, s') \<Rightarrow> s'\<lparr>in_flight := (in_flight s')(i \<mapsto> x)\<rparr>))"
| "udp_step grow (StartSend i input addr) s =
     (case in_flight s i of
        Some x \<Rightarrow> s
      | None \<Rightarrow> (case send_start grow input addr s of (x, s') \<Rightarrow> s'\<lparr>in_flight := (in_flight s')(i \<mapsto> x)\<rparr>))"
| "udp_step grow (Answer i answer filled) s =
     (case in_flight s i of
        None \<Rightarrow> s
      | Some (Receiving v out) \<Rightarrow>
          (case recv_finish v out answer filled s of (r, out', s') \<Rightarrow> s'\<lparr>in_flight := (in_flight s')(i := None)\<rparr>)
      | Some (Sending v input addr) \<Rightarrow>
          (case send_finish v (map_sum id fst answer) s of (r, s') \<Rightarrow>
             s'\<lparr>in_flight := (in_flight s')(i := None)\<rparr>))"
| "udp_step grow (Dropped i) s = s\<lparr>in_flight := (in_flight s)(i := None)\<rparr>"

definition udp_run :: "(nat \<Rightarrow> nat) \<Rightarrow> 'a udp_event list \<Rightarrow> 'a udp \<Rightarrow> 'a udp" where
  "udp_run grow = fold (udp_step grow)"

section \<open>Who holds an allocation\<close>

datatype holder = ReceiveSlot | SendSlot | InFlight nat

fun held :: "'a udp \<Rightarrow> holder \<Rightarrow> vec option" where
  "held s ReceiveSlot = receive_slot s"
| "held s SendSlot = send_slot s"
| "held s (InFlight i) = map_option op_buffer (in_flight s i)"

definition unshared :: "'a udp \<Rightarrow> bool" where
  "unshared s \<longleftrightarrow> (\<forall>h h' v v' a. held s h = Some v \<longrightarrow> held s h' = Some v' \<longrightarrow>
     allocation v = Some a \<longrightarrow> allocation v' = Some a \<longrightarrow> h = h')"

definition known :: "'a udp \<Rightarrow> bool" where
  "known s \<longleftrightarrow> (\<forall>h v a. held s h = Some v \<longrightarrow> allocation v = Some a \<longrightarrow> a < next_allocation s)"

text \<open>What the kernel is given: room for the output and nothing else, or the input and nothing else.\<close>

fun well_filled :: "'a udp_op \<Rightarrow> bool" where
  "well_filled (Receiving v out) = (vbytes v = [] \<and> length out \<le> capacity v)"
| "well_filled (Sending v input a) = (vbytes v = input \<and> length input \<le> capacity v)"

definition all_well_filled :: "'a udp \<Rightarrow> bool" where
  "all_well_filled s \<longleftrightarrow> (\<forall>i x. in_flight s i = Some x \<longrightarrow> well_filled x)"

definition udp_inv :: "'a udp \<Rightarrow> bool" where
  "udp_inv s \<longleftrightarrow> unshared s \<and> known s \<and> all_well_filled s"

lemma slot_take_cases:
  assumes "slot_take grow n slot fresh = (v, slot', fresh')"
  obtains (grown) "slot' = None" "vbytes v = []" "allocation v = Some fresh" "capacity v = grow n"
      "fresh' = Suc fresh"
    | (empty) "slot' = None" "slot = None" "v = vec_new" "n = 0" "fresh' = fresh"
    | (reused) v0 where "slot' = None" "slot = Some v0" "vbytes v = []" "allocation v = allocation v0"
      "capacity v = capacity v0" "n \<le> capacity v0" "fresh' = fresh"
proof (cases slot)
  case None
  show ?thesis
  proof (cases "n = 0")
    case True
    with assms None show ?thesis by (intro empty) (simp_all add: slot_take_def vec_clear_def vec_new_def)
  next
    case False
    with assms None show ?thesis
      by (intro grown) (auto simp: slot_take_def reserve_def vec_clear_def vec_new_def)
  qed
next
  case (Some v0)
  show ?thesis
  proof (cases "capacity v0 < n")
    case True
    with assms Some show ?thesis by (intro grown) (auto simp: slot_take_def reserve_def vec_clear_def)
  next
    case False
    with assms Some show ?thesis by (intro reused [of v0]) (auto simp: slot_take_def vec_clear_def)
  qed
qed

lemma slot_replace_cases: "slot_replace v slot = slot \<or> slot_replace v slot = Some (vec_clear v)"
  by (simp add: slot_replace_def Let_def)

lemma vec_extend_fits:
  "length (vbytes v) + length bs \<le> capacity v \<Longrightarrow>
   vec_extend grow bs v fresh = (v\<lparr>vbytes := vbytes v @ bs\<rparr>, fresh)"
  by (simp add: vec_extend_def Let_def)

lemma slot_take_room:
  assumes "\<And>m. m \<le> grow m" and "slot_take grow n slot fresh = (v, slot', fresh')"
  shows "n \<le> capacity v" and "vbytes v = []"
  by (rule slot_take_cases [OF assms(2)]; use assms(1) [of n] in \<open>simp add: vec_new_def\<close>)+

text \<open>The two ways to start an operation differ in the slot and in what goes into the buffer.\<close>

definition launched :: "'a udp \<Rightarrow> holder \<Rightarrow> nat \<Rightarrow> 'a udp_op \<Rightarrow> 'a udp \<Rightarrow> bool" where
  "launched s h i x s' \<longleftrightarrow>
     in_flight s i = None \<and> in_flight s' = (in_flight s)(i \<mapsto> x) \<and> well_filled x \<and>
     held s' h = None \<and> (\<forall>h'. h' \<noteq> h \<longrightarrow> h' \<noteq> InFlight i \<longrightarrow> held s' h' = held s h') \<and>
     (allocation (op_buffer x) = Some (next_allocation s) \<and> next_allocation s' = Suc (next_allocation s) \<or>
      next_allocation s' = next_allocation s \<and>
        (allocation (op_buffer x) = None \<or>
         (\<exists>v0. held s h = Some v0 \<and> allocation (op_buffer x) = allocation v0)))"

lemma unshared_moved:
  assumes "unshared s" and "known s"
    and orig: "\<And>h v a. held s' h = Some v \<Longrightarrow> allocation v = Some a \<Longrightarrow>
      a = next_allocation s \<and> h = H \<or> (\<exists>v0. held s (f h) = Some v0 \<and> allocation v0 = Some a)"
    and inj: "inj_on f {h. held s' h \<noteq> None}"
  shows "unshared s'"
  unfolding unshared_def
proof (intro allI impI)
  fix h h' v v' a
  assume h: "held s' h = Some v" "allocation v = Some a" and h': "held s' h' = Some v'" "allocation v' = Some a"
  have old: "a < next_allocation s" if "held s g = Some u" "allocation u = Some a" for g u
    using that \<open>known s\<close> by (auto simp: known_def)
  have "f h = f h'" if "held s (f h) = Some u" "allocation u = Some a"
    "held s (f h') = Some u'" "allocation u' = Some a" for u u'
    using that \<open>unshared s\<close> unfolding unshared_def by blast
  then have "h = h' \<or> f h = f h'"
    using orig [OF h] orig [OF h'] old by (auto dest: old)
  then show "h = h'"
    using inj h(1) h'(1) by (auto simp: inj_on_def)
qed

lemma launched_inv:
  assumes inv: "udp_inv s" and l: "launched s h i x s'" and h: "h \<noteq> InFlight i"
  shows "udp_inv s'"
proof -
  note d = l [unfolded launched_def] and inv' = inv [unfolded udp_inv_def]
  have i: "held s' (InFlight i) = Some (op_buffer x)" "held s (InFlight i) = None"
    using d by simp_all
  have "unshared s'"
  proof (rule unshared_moved [where f = "\<lambda>g. if g = InFlight i then h else g" and H = "InFlight i" and s = s])
    show "inj_on (\<lambda>g. if g = InFlight i then h else g) {h. held s' h \<noteq> None}"
      using d by (auto simp: inj_on_def)
    fix g v a
    assume g: "held s' g = Some v" "allocation v = Some a"
    show "a = next_allocation s \<and> g = InFlight i \<or>
        (\<exists>v0. held s (if g = InFlight i then h else g) = Some v0 \<and> allocation v0 = Some a)"
    proof (cases "g = InFlight i")
      case True
      then show ?thesis using d g i by auto
    next
      case False
      then have "held s g = Some v" using d g by (metis option.distinct(1))
      with False g show ?thesis by auto
    qed
  qed (use inv' in auto)
  moreover have "known s'"
    unfolding known_def
  proof (intro allI impI)
    fix g v a
    assume g: "held s' g = Some v" "allocation v = Some a"
    show "a < next_allocation s'"
    proof (cases "g = InFlight i")
      case True
      then show ?thesis using d g i inv' by (auto simp: known_def dest: less_SucI)
    next
      case False
      then have "held s g = Some v" using d g by (metis option.distinct(1))
      with g inv' have "a < next_allocation s" by (auto simp: known_def)
      with d show ?thesis by auto
    qed
  qed
  moreover have "all_well_filled s'"
    using inv' d by (auto simp: all_well_filled_def)
  ultimately show ?thesis by (simp add: udp_inv_def)
qed

text \<open>The ways an operation ends: its buffer goes back into the slot, or goes with it.\<close>

definition released :: "'a udp \<Rightarrow> holder \<Rightarrow> nat \<Rightarrow> 'a udp \<Rightarrow> bool" where
  "released s h i s' \<longleftrightarrow>
     in_flight s' = (in_flight s)(i := None) \<and> next_allocation s' = next_allocation s \<and>
     (\<forall>h'. h' \<noteq> h \<longrightarrow> h' \<noteq> InFlight i \<longrightarrow> held s' h' = held s h') \<and>
     (held s' h = held s h \<or>
      (\<exists>v v'. held s (InFlight i) = Some v \<and> held s' h = Some v' \<and> allocation v' = allocation v))"

lemma released_inv:
  assumes inv: "udp_inv s" and r: "released s h i s'" and h: "h \<noteq> InFlight i"
  shows "udp_inv s'"
proof -
  note d = r [unfolded released_def] and inv' = inv [unfolded udp_inv_def]
  have gone: "held s' (InFlight i) = None" using d by simp
  define f where "f = (\<lambda>g. if g = h \<and> held s' h \<noteq> held s h then InFlight i else g)"
  have orig: "\<exists>v0. held s (f g) = Some v0 \<and> allocation v0 = allocation v" if "held s' g = Some v" for g v
  proof (cases "g = h \<and> held s' h \<noteq> held s h")
    case True
    then show ?thesis using that d by (auto simp: f_def)
  next
    case False
    moreover have "g \<noteq> InFlight i" using that gone by auto
    ultimately have "held s g = Some v" using that d by (cases "g = h") auto
    moreover have "f g = g" using False by (auto simp: f_def)
    ultimately show ?thesis by simp
  qed
  have "unshared s'"
  proof (rule unshared_moved [where f = f and s = s and H = h])
    show "inj_on f {h. held s' h \<noteq> None}"
    proof (rule inj_onI)
      fix x y
      assume xy: "x \<in> {h. held s' h \<noteq> None}" "y \<in> {h. held s' h \<noteq> None}" and eq: "f x = f y"
      have "x \<noteq> InFlight i" "y \<noteq> InFlight i" using xy gone by blast+
      with eq show "x = y" unfolding f_def by (simp split: if_splits)
    qed
    fix g v a
    assume "held s' g = Some v" "allocation v = Some a"
    then show "a = next_allocation s \<and> g = h \<or> (\<exists>v0. held s (f g) = Some v0 \<and> allocation v0 = Some a)"
      using orig [of g v] by simp
  qed (use inv' in simp_all)
  moreover have "known s'"
    unfolding known_def
  proof (intro allI impI)
    fix g v a
    assume "held s' g = Some v" "allocation v = Some a"
    with orig [of g v] inv' d show "a < next_allocation s'" by (auto simp: known_def)
  qed
  moreover have "all_well_filled s'"
    using inv' d by (auto simp: all_well_filled_def)
  ultimately show ?thesis by (simp add: udp_inv_def)
qed

section \<open>The steps keep the invariant\<close>

lemma recv_start_launched:
  assumes grow: "\<And>m. m \<le> grow m" and "recv_start grow out s = (x, s')" and i: "in_flight s i = None"
  shows "launched s ReceiveSlot i x (s'\<lparr>in_flight := (in_flight s')(i \<mapsto> x)\<rparr>)"
proof -
  obtain v slot fresh where t: "slot_take grow (length out) (receive_slot s) (next_allocation s) = (v, slot, fresh)"
    by (metis prod_cases3)
  then have x: "x = Receiving v out" "s' = s\<lparr>receive_slot := slot, next_allocation := fresh\<rparr>"
    using assms(2) by (simp_all add: recv_start_def)
  have other: "held (s'\<lparr>in_flight := (in_flight s')(i \<mapsto> x)\<rparr>) h' = held s h'"
    if "h' \<noteq> ReceiveSlot" "h' \<noteq> InFlight i" for h'
    using that x by (cases h') auto
  show ?thesis
    using slot_take_room [OF grow t] x i other
    by (intro launched_def [THEN iffD2]; cases rule: slot_take_cases [OF t]) (auto simp: vec_new_def)
qed

lemma send_start_launched:
  assumes grow: "\<And>m. m \<le> grow m" and "send_start grow input a s = (x, s')" and i: "in_flight s i = None"
  shows "launched s SendSlot i x (s'\<lparr>in_flight := (in_flight s')(i \<mapsto> x)\<rparr>)"
proof -
  obtain v slot fresh where t: "slot_take grow (length input) (send_slot s) (next_allocation s) = (v, slot, fresh)"
    by (metis prod_cases3)
  note room = slot_take_room [OF grow t]
  have x: "x = Sending (v\<lparr>vbytes := input\<rparr>) input a" "s' = s\<lparr>send_slot := slot, next_allocation := fresh\<rparr>"
    using assms(2) t room by (simp_all add: send_start_def vec_extend_fits)
  have other: "held (s'\<lparr>in_flight := (in_flight s')(i \<mapsto> x)\<rparr>) h' = held s h'"
    if "h' \<noteq> SendSlot" "h' \<noteq> InFlight i" for h'
    using that x by (cases h') auto
  show ?thesis
    using room x i other
    by (intro launched_def [THEN iffD2]; cases rule: slot_take_cases [OF t]) (auto simp: vec_new_def)
qed

lemma recv_finish_released:
  assumes "recv_finish v out answer filled s = (r, out', s')" and "in_flight s i = Some (Receiving v out)"
  shows "released s ReceiveSlot i (s'\<lparr>in_flight := (in_flight s')(i := None)\<rparr>)"
proof -
  have s': "s' = s \<or> s' = s\<lparr>receive_slot := slot_replace (v\<lparr>vbytes := filled\<rparr>) (receive_slot s)\<rparr>"
    using assms(1) by (auto simp: recv_finish_def Let_def split: sum.splits prod.splits if_splits)
  have other: "held (s'\<lparr>in_flight := (in_flight s')(i := None)\<rparr>) h' = held s h'"
    if "h' \<noteq> ReceiveSlot" "h' \<noteq> InFlight i" for h'
    using that s' by (cases h') auto
  show ?thesis
    using s' other assms(2) slot_replace_cases [of "v\<lparr>vbytes := filled\<rparr>" "receive_slot s"]
    by (auto simp: released_def vec_clear_def)
qed

lemma send_finish_released:
  assumes "send_finish v answer s = (r, s')" and "in_flight s i = Some (Sending v input a)"
  shows "released s SendSlot i (s'\<lparr>in_flight := (in_flight s')(i := None)\<rparr>)"
proof -
  have s': "s' = s\<lparr>send_slot := slot_replace v (send_slot s)\<rparr>"
    using assms(1) by (simp add: send_finish_def)
  have other: "held (s'\<lparr>in_flight := (in_flight s')(i := None)\<rparr>) h' = held s h'"
    if "h' \<noteq> SendSlot" "h' \<noteq> InFlight i" for h'
    using that s' by (cases h') auto
  show ?thesis
    using s' other assms(2) slot_replace_cases [of v "send_slot s"]
    by (auto simp: released_def vec_clear_def)
qed

lemma dropped_released: "released s ReceiveSlot i (s\<lparr>in_flight := (in_flight s)(i := None)\<rparr>)"
proof -
  have "held (s\<lparr>in_flight := (in_flight s)(i := None)\<rparr>) h' = held s h'" if "h' \<noteq> InFlight i" for h'
    using that by (cases h') auto
  then show ?thesis by (simp add: released_def)
qed

lemma udp_step_inv:
  assumes grow: "\<And>m. m \<le> grow m" and inv: "udp_inv s"
  shows "udp_inv (udp_step grow e s)"
proof (cases e)
  case (StartRecv i out)
  then show ?thesis
    using inv launched_inv [OF inv recv_start_launched [OF grow]]
    by (auto split: option.split prod.split)
next
  case (StartSend i input a)
  then show ?thesis
    using inv launched_inv [OF inv send_start_launched [OF grow]]
    by (auto split: option.split prod.split)
next
  case (Answer i answer filled)
  then show ?thesis
    using inv released_inv [OF inv recv_finish_released] released_inv [OF inv send_finish_released]
    by (auto split: option.split prod.split udp_op.split)
next
  case (Dropped i)
  then show ?thesis using released_inv [OF inv dropped_released] by simp
qed

lemma udp_run_inv: "(\<And>m. m \<le> grow m) \<Longrightarrow> udp_inv s \<Longrightarrow> udp_inv (udp_run grow es s)"
  by (induction es arbitrary: s) (simp_all add: udp_run_def udp_step_inv)

lemma udp_new_inv: "udp_inv (udp_new k :: 'a udp)"
proof -
  have "held (udp_new k :: 'a udp) h = None" for h :: holder
    by (cases h) (simp_all add: udp_new_def)
  then have "unshared (udp_new k :: 'a udp)" "known (udp_new k :: 'a udp)"
    by (simp_all add: unshared_def known_def)
  then show ?thesis
    by (simp add: udp_inv_def all_well_filled_def udp_new_def)
qed

text \<open>
  C36: whatever sends and receives are started, answered and dropped on a shared socket, in whatever
  order, no allocation is held by two of them or by one and a slot, a send in flight has exactly its
  caller's bytes in its buffer, and a receive has an empty one with room for its caller's output.
\<close>

theorem udp_buffers_sound:
  assumes "\<And>m. m \<le> grow m" and "s = udp_run grow es (udp_new k)"
  shows "unshared s \<and> (\<forall>i v input a. in_flight s i = Some (Sending v input a) \<longrightarrow> vbytes v = input) \<and>
    (\<forall>i v out. in_flight s i = Some (Receiving v out) \<longrightarrow> vbytes v = [] \<and> length out \<le> capacity v)"
proof -
  have inv: "udp_inv s" unfolding assms(2) by (rule udp_run_inv [OF assms(1) udp_new_inv])
  have "well_filled x" if "in_flight s i = Some x" for i x
    using inv that by (simp add: udp_inv_def all_well_filled_def)
  then show ?thesis
    using inv by (force simp: udp_inv_def)
qed

theorem udp_buffers_sound_witness:
  "in_flight (udp_run (\<lambda>n. n) [StartSend 0 [1, 2] (Some True), StartRecv 1 [0, 0, 0],
       Answer 0 (Inr (2, None)) [], StartSend 2 [3] None, StartSend 3 [4] None] (udp_new 0)) 2
     = Some (Sending \<lparr>allocation = Some 0, capacity = 2, vbytes = [3]\<rparr> [3] None) \<and>
   unshared (udp_run (\<lambda>n. n) [StartSend 0 [1, 2] (Some True), StartRecv 1 [0, 0, 0],
       Answer 0 (Inr (2, None)) [], StartSend 2 [3] None, StartSend 3 [4] None] (udp_new 0))"
  using udp_buffers_sound [of "\<lambda>n. n" _ "[StartSend 0 [1, 2] (Some True), StartRecv 1 [0, 0, 0],
       Answer 0 (Inr (2, None)) [], StartSend 2 [3] None, StartSend 3 [4] None]" 0, OF _ refl]
  by (simp add: udp_run_def send_start_def recv_start_def send_finish_def slot_take_def slot_replace_def
      vec_extend_def reserve_def vec_clear_def vec_new_def udp_new_def)

section \<open>One operation\<close>

text \<open>
  A datagram received into a buffer of any history fills the first bytes of the caller's output and leaves
  the rest.
\<close>

lemma recv_delivers:
  assumes "recv_start grow out s = (Receiving v out', t)"
    and "n \<le> length filled" and "length filled \<le> length out"
  shows "recv_finish v out' (Inr (n, a)) filled t' =
    (Returned (Inr (n, a)), take n filled @ drop n out,
     t'\<lparr>receive_slot := slot_replace (v\<lparr>vbytes := filled\<rparr>) (receive_slot t')\<rparr>)"
proof -
  have "out' = out"
    using assms(1) by (auto simp: recv_start_def split: prod.splits)
  with assms(2,3) show ?thesis
    by (simp add: recv_finish_def Let_def copy_prefix_def)
qed

text \<open>A buffer that went back is used again by an operation of the other sizes it has room for.\<close>

lemma slot_reused:
  assumes "n \<le> capacity v"
  shows "slot_take grow n (slot_replace v None) fresh = (vec_clear v, None, fresh)"
  using assms by (simp add: slot_take_def slot_replace_def vec_clear_def)

text \<open>\<open>replace\<close> keeps the larger buffer.\<close>

lemma slot_replace_larger:
  assumes "slot_replace v slot = Some v'"
  shows "capacity v \<le> capacity v'" and "slot = Some c \<Longrightarrow> capacity c \<le> capacity v'"
  using assms by (auto simp: slot_replace_def vec_clear_def Let_def split: option.splits if_splits)

end
