(* ===== verification/Sockets.thy ===== *)
theory Sockets
  imports Prelude
begin

text \<open>
  TCP sockets before they are streams or listeners: Smol's socket (\<open>SmolTcpSocket\<close> in
  \<open>src/src/net/smol.rs\<close>), which the crate builds from \<open>socket2\<close>, and \<open>TcpSocket\<close> over the three backends
  (\<open>src/src/net/tcp.rs\<close>). The sockets of other crates are records of operations; dropping a socket closes
  it, which is left to them.
\<close>

type_synonym u32 = "32 word"

section \<open>Smol's socket\<close>

datatype domain = IPV4 | IPV6

text \<open>
  The operations of \<open>socket2\<close> and of Smol's reactor. A failed \<open>connect\<close> gives the error and the code of the
  operating system, if there is one.
\<close>

record ('h, 'st, 'li, 'a, 'l, 'v) socket2 =
  s2_new :: "domain \<Rightarrow> ('v, 'h) io"
  s2_set_nonblocking :: "'h \<Rightarrow> bool \<Rightarrow> ('v, unit) io"
  s2_bind :: "'h \<Rightarrow> 'a \<Rightarrow> ('v, unit) io"
  s2_connect :: "'h \<Rightarrow> 'a \<Rightarrow> 'v \<Rightarrow> (io_error \<times> int option) option \<times> 'v"
  s2_stream :: "'h \<Rightarrow> ('v, 'st) io"
  s2_writable :: "'st \<Rightarrow> ('v, unit) io"
  s2_take_error :: "'st \<Rightarrow> ('v, io_error option) io"
  s2_listen :: "'h \<Rightarrow> int \<Rightarrow> ('v, unit) io"
  s2_listener :: "'h \<Rightarrow> ('v, 'li) io"
  s2_local_addr :: "'h \<Rightarrow> ('v, 'l) io"
  s2_as_socket :: "'l \<Rightarrow> 'a option"
  s2_keepalive :: "'h \<Rightarrow> ('v, bool) io"
  s2_set_keepalive :: "'h \<Rightarrow> bool \<Rightarrow> ('v, unit) io"
  s2_reuse_address :: "'h \<Rightarrow> ('v, bool) io"
  s2_set_reuse_address :: "'h \<Rightarrow> bool \<Rightarrow> ('v, unit) io"
  s2_tcp_nodelay :: "'h \<Rightarrow> ('v, bool) io"
  s2_set_tcp_nodelay :: "'h \<Rightarrow> bool \<Rightarrow> ('v, unit) io"

text \<open>\<open>SmolTcpSocket::new\<close>: a socket that does not block.\<close>

definition smol_socket_new :: "('h, 'st, 'li, 'a, 'l, 'v) socket2 \<Rightarrow> domain \<Rightarrow> ('v, 'h) io" where
  "smol_socket_new s2 d = try_io (s2_new s2 d) (\<lambda>h. try_io (s2_set_nonblocking s2 h True) (\<lambda>u. ok_io h))"

definition smol_socket_bind :: "('h, 'st, 'li, 'a, 'l, 'v) socket2 \<Rightarrow> 'h \<Rightarrow> 'a \<Rightarrow> ('v, unit) io" where
  "smol_socket_bind s2 h a = s2_bind s2 h a"

text \<open>The codes that mean a connection is on its way: \<open>EINPROGRESS\<close> on Unix, two on Windows, none elsewhere.\<close>

datatype platform = Unix int | Windows | OtherPlatform

fun connect_pending :: "platform \<Rightarrow> io_error \<times> int option \<Rightarrow> bool" where
  "connect_pending p (e, code) =
     (if err_kind e = WouldBlock then True
      else case p of
          Unix einprogress \<Rightarrow> code = Some einprogress
        | Windows \<Rightarrow> code = Some 10035 \<or> code = Some 10036
        | OtherPlatform \<Rightarrow> False)"

text \<open>The call itself: no error, or one that means the connection is on its way.\<close>

definition smol_connect_begin ::
  "platform \<Rightarrow> ('h, 'st, 'li, 'a, 'l, 'v) socket2 \<Rightarrow> 'h \<Rightarrow> 'a \<Rightarrow> ('v, unit) io" where
  "smol_connect_begin p s2 h a v =
     (case s2_connect s2 h a v of
        (None, v') \<Rightarrow> (Inr (), v')
      | (Some failure, v') \<Rightarrow> (if connect_pending p failure then (Inr (), v') else (Inl (fst failure), v')))"

definition smol_socket_connect ::
  "platform \<Rightarrow> ('h, 'st, 'li, 'a, 'l, 'v) socket2 \<Rightarrow> 'h \<Rightarrow> 'a \<Rightarrow> ('v, 'st) io" where
  "smol_socket_connect p s2 h a =
     try_io (smol_connect_begin p s2 h a)
       (\<lambda>u. try_io (s2_stream s2 h)
         (\<lambda>st. try_io (s2_writable s2 st)
           (\<lambda>u'. try_io (s2_take_error s2 st)
             (\<lambda>failure. case failure of Some e \<Rightarrow> fail_io e | None \<Rightarrow> ok_io st))))"

definition backlog_error :: io_error where
  "backlog_error = IoError InvalidInput ''backlog is too large''"

text \<open>\<open>i32::try_from\<close> of a \<open>u32\<close>.\<close>

definition backlog_i32 :: "u32 \<Rightarrow> int io_result" where
  "backlog_i32 n = (if unat n < 2 ^ 31 then Inr (int (unat n)) else Inl backlog_error)"

definition smol_socket_listen ::
  "('h, 'st, 'li, 'a, 'l, 'v) socket2 \<Rightarrow> 'h \<Rightarrow> u32 \<Rightarrow> ('v, 'li) io" where
  "smol_socket_listen s2 h backlog =
     (case backlog_i32 backlog of
        Inl e \<Rightarrow> fail_io e
      | Inr n \<Rightarrow> try_io (s2_listen s2 h n) (\<lambda>u. s2_listener s2 h))"

definition no_ip_error :: io_error where
  "no_ip_error = IoError Other ''socket does not have an IP address''"

definition smol_socket_local_addr :: "('h, 'st, 'li, 'a, 'l, 'v) socket2 \<Rightarrow> 'h \<Rightarrow> ('v, 'a) io" where
  "smol_socket_local_addr s2 h =
     try_io (s2_local_addr s2 h)
       (\<lambda>l. case s2_as_socket s2 l of Some a \<Rightarrow> ok_io a | None \<Rightarrow> fail_io no_ip_error)"

section \<open>\<open>TcpSocket\<close>\<close>

text \<open>The sockets of Tokio and of Compio; a backlog is unsigned for the first and signed for the second.\<close>

record ('h, 'st, 'li, 'a, 'b, 'v) tcp_socket_ops =
  ts_bind :: "'h \<Rightarrow> 'a \<Rightarrow> ('v, unit) io"
  ts_connect :: "'h \<Rightarrow> 'a \<Rightarrow> ('v, 'st) io"
  ts_listen :: "'h \<Rightarrow> 'b \<Rightarrow> ('v, 'li) io"
  ts_local_addr :: "'h \<Rightarrow> ('v, 'a) io"
  ts_keepalive :: "'h \<Rightarrow> ('v, bool) io"
  ts_set_keepalive :: "'h \<Rightarrow> bool \<Rightarrow> ('v, unit) io"
  ts_reuseaddr :: "'h \<Rightarrow> ('v, bool) io"
  ts_set_reuseaddr :: "'h \<Rightarrow> bool \<Rightarrow> ('v, unit) io"
  ts_nodelay :: "'h \<Rightarrow> ('v, bool) io"
  ts_set_nodelay :: "'h \<Rightarrow> bool \<Rightarrow> ('v, unit) io"

text \<open>A value of one of the three backends: every enum of the network has these variants.\<close>

datatype 'h on_net = OnTokio 'h | OnSmol 'h | OnCompio 'h

record ('h, 'st, 'li, 'a, 'l, 'v) socket_crates =
  target_platform :: platform
  tokio_sockets :: "('h, 'st, 'li, 'a, u32, 'v) tcp_socket_ops"
  smol_sockets :: "('h, 'st, 'li, 'a, 'l, 'v) socket2"
  compio_sockets :: "('h, 'st, 'li, 'a, int, 'v) tcp_socket_ops"

fun tcp_socket_bind where
  "tcp_socket_bind cs (OnTokio h) a = ts_bind (tokio_sockets cs) h a"
| "tcp_socket_bind cs (OnSmol h) a = smol_socket_bind (smol_sockets cs) h a"
| "tcp_socket_bind cs (OnCompio h) a = ts_bind (compio_sockets cs) h a"

fun tcp_socket_connect where
  "tcp_socket_connect cs (OnTokio h) a = map_io OnTokio (ts_connect (tokio_sockets cs) h a)"
| "tcp_socket_connect cs (OnSmol h) a =
     map_io OnSmol (smol_socket_connect (target_platform cs) (smol_sockets cs) h a)"
| "tcp_socket_connect cs (OnCompio h) a = map_io OnCompio (ts_connect (compio_sockets cs) h a)"

fun tcp_socket_listen where
  "tcp_socket_listen cs (OnTokio h) backlog = map_io OnTokio (ts_listen (tokio_sockets cs) h backlog)"
| "tcp_socket_listen cs (OnSmol h) backlog = map_io OnSmol (smol_socket_listen (smol_sockets cs) h backlog)"
| "tcp_socket_listen cs (OnCompio h) backlog =
     (case backlog_i32 backlog of
        Inl e \<Rightarrow> fail_io e
      | Inr n \<Rightarrow> map_io OnCompio (ts_listen (compio_sockets cs) h n))"

fun tcp_socket_local_addr where
  "tcp_socket_local_addr cs (OnTokio h) = ts_local_addr (tokio_sockets cs) h"
| "tcp_socket_local_addr cs (OnSmol h) = smol_socket_local_addr (smol_sockets cs) h"
| "tcp_socket_local_addr cs (OnCompio h) = ts_local_addr (compio_sockets cs) h"

fun tcp_socket_keepalive where
  "tcp_socket_keepalive cs (OnTokio h) = ts_keepalive (tokio_sockets cs) h"
| "tcp_socket_keepalive cs (OnSmol h) = s2_keepalive (smol_sockets cs) h"
| "tcp_socket_keepalive cs (OnCompio h) = ts_keepalive (compio_sockets cs) h"

fun tcp_socket_set_keepalive where
  "tcp_socket_set_keepalive cs (OnTokio h) b = ts_set_keepalive (tokio_sockets cs) h b"
| "tcp_socket_set_keepalive cs (OnSmol h) b = s2_set_keepalive (smol_sockets cs) h b"
| "tcp_socket_set_keepalive cs (OnCompio h) b = ts_set_keepalive (compio_sockets cs) h b"

fun tcp_socket_reuseaddr where
  "tcp_socket_reuseaddr cs (OnTokio h) = ts_reuseaddr (tokio_sockets cs) h"
| "tcp_socket_reuseaddr cs (OnSmol h) = s2_reuse_address (smol_sockets cs) h"
| "tcp_socket_reuseaddr cs (OnCompio h) = ts_reuseaddr (compio_sockets cs) h"

fun tcp_socket_set_reuseaddr where
  "tcp_socket_set_reuseaddr cs (OnTokio h) b = ts_set_reuseaddr (tokio_sockets cs) h b"
| "tcp_socket_set_reuseaddr cs (OnSmol h) b = s2_set_reuse_address (smol_sockets cs) h b"
| "tcp_socket_set_reuseaddr cs (OnCompio h) b = ts_set_reuseaddr (compio_sockets cs) h b"

fun tcp_socket_nodelay where
  "tcp_socket_nodelay cs (OnTokio h) = ts_nodelay (tokio_sockets cs) h"
| "tcp_socket_nodelay cs (OnSmol h) = s2_tcp_nodelay (smol_sockets cs) h"
| "tcp_socket_nodelay cs (OnCompio h) = ts_nodelay (compio_sockets cs) h"

fun tcp_socket_set_nodelay where
  "tcp_socket_set_nodelay cs (OnTokio h) b = ts_set_nodelay (tokio_sockets cs) h b"
| "tcp_socket_set_nodelay cs (OnSmol h) b = s2_set_tcp_nodelay (smol_sockets cs) h b"
| "tcp_socket_set_nodelay cs (OnCompio h) b = ts_set_nodelay (compio_sockets cs) h b"

section \<open>Connecting\<close>

text \<open>
  What POSIX says of a connection that does not block: it is on its way when the call says so, a socket
  becomes writable when it is decided, and a failed one holds its error.
\<close>

datatype 'a link = NoLink | Linking 'a | Linked 'a | LinkFailed

definition progress :: "'a link \<Rightarrow> 'a link \<Rightarrow> bool" where
  "progress l l' \<longleftrightarrow> l' = l \<or> (\<exists>a. l = Linking a \<and> (l' = Linked a \<or> l' = LinkFailed))"

definition connect_law where
  "connect_law p s2 link \<longleftrightarrow> (\<forall>h a v v' r. s2_connect s2 h a v = (r, v') \<longrightarrow>
     (r = None \<longrightarrow> link h v' = Linked a) \<and>
     (\<forall>x. r = Some x \<longrightarrow> connect_pending p x \<longrightarrow> link h v' \<in> {Linking a, Linked a, LinkFailed}))"

definition stream_law where
  "stream_law s2 link slink \<longleftrightarrow> (\<forall>h v st v'. s2_stream s2 h v = (Inr st, v') \<longrightarrow>
     progress (link h v) (slink st v'))"

definition writable_law where
  "writable_law s2 slink \<longleftrightarrow> (\<forall>st v v' u. s2_writable s2 st v = (Inr u, v') \<longrightarrow>
     progress (slink st v) (slink st v') \<and> (\<forall>a. slink st v' \<noteq> Linking a))"

definition take_error_law where
  "take_error_law s2 slink \<longleftrightarrow> (\<forall>st v v'. s2_take_error s2 st v = (Inr None, v') \<longrightarrow>
     slink st v \<noteq> LinkFailed \<and> slink st v' = slink st v)"

lemma smol_connect_begin_link:
  assumes "connect_law p s2 link" and "smol_connect_begin p s2 h a v = (Inr u, v')"
  shows "link h v' \<in> {Linking a, Linked a, LinkFailed}"
proof (cases "s2_connect s2 h a v")
  case (Pair r w)
  with assms(2) have "v' = w" and "r = None \<or> (\<exists>x. r = Some x \<and> connect_pending p x)"
    by (auto simp: smol_connect_begin_def simp del: connect_pending.simps split: option.splits if_splits)
  with assms(1) Pair show ?thesis unfolding connect_law_def by blast
qed

text \<open>C37: a stream that \<open>connect\<close> of a Smol socket gives is connected to the address that was asked for.\<close>

theorem smol_connect_connected:
  assumes laws: "connect_law p s2 link" "stream_law s2 link slink" "writable_law s2 slink" "take_error_law s2 slink"
    and ok: "smol_socket_connect p s2 h a v = (Inr st, v')"
  shows "slink st v' = Linked a"
proof -
  obtain v1 v2 v3 u u' where c: "smol_connect_begin p s2 h a v = (Inr u, v1)"
    and s: "s2_stream s2 h v1 = (Inr st, v2)" and w: "s2_writable s2 st v2 = (Inr u', v3)"
    and e: "s2_take_error s2 st v3 = (Inr None, v')"
    using ok by (auto simp: smol_socket_connect_def try_io_iffs ok_io_def fail_io_def split: option.splits)
  from s laws(2) have "progress (link h v1) (slink st v2)" by (simp add: stream_law_def)
  moreover from w laws(3) have "progress (slink st v2) (slink st v3)" "\<forall>b. slink st v3 \<noteq> Linking b"
    by (auto simp: writable_law_def)
  moreover from e laws(4) have "slink st v3 \<noteq> LinkFailed" "slink st v' = slink st v3"
    by (auto simp: take_error_law_def)
  ultimately show ?thesis
    using smol_connect_begin_link [OF laws(1) c] by (auto simp: progress_def)
qed

text \<open>A socket whose connection is decided while its stream waits; address 0 is refused.\<close>

definition sample_socket :: "(unit, unit, unit, nat, nat, nat link) socket2" where
  "sample_socket = \<lparr>s2_new = (\<lambda>d. ok_io ()), s2_set_nonblocking = (\<lambda>h b. ok_io ()), s2_bind = (\<lambda>h a. ok_io ()),
     s2_connect = (\<lambda>h a v. (Some (IoError Other ''in progress'', Some 115), Linking a)),
     s2_stream = (\<lambda>h. ok_io ()),
     s2_writable = (\<lambda>st v. (Inr (), case v of Linking a \<Rightarrow> (if a = 0 then LinkFailed else Linked a) | l \<Rightarrow> l)),
     s2_take_error = (\<lambda>st v. (Inr (if v = LinkFailed then Some (IoError Other ''refused'') else None), v)),
     s2_listen = (\<lambda>h n. ok_io ()), s2_listener = (\<lambda>h. ok_io ()), s2_local_addr = (\<lambda>h. ok_io 0),
     s2_as_socket = Some, s2_keepalive = (\<lambda>h. ok_io False), s2_set_keepalive = (\<lambda>h b. ok_io ()),
     s2_reuse_address = (\<lambda>h. ok_io False), s2_set_reuse_address = (\<lambda>h b. ok_io ()),
     s2_tcp_nodelay = (\<lambda>h. ok_io False), s2_set_tcp_nodelay = (\<lambda>h b. ok_io ())\<rparr>"

lemma sample_socket_laws:
  "connect_law (Unix 115) sample_socket (\<lambda>h v. v)" "stream_law sample_socket (\<lambda>h v. v) (\<lambda>st v. v)"
  "writable_law sample_socket (\<lambda>st v. v)" "take_error_law sample_socket (\<lambda>st v. v)"
  by (auto simp: connect_law_def stream_law_def writable_law_def take_error_law_def sample_socket_def
      ok_io_def progress_def split: link.splits)

theorem smol_connect_connected_witness:
  "\<exists>v'. smol_socket_connect (Unix 115) sample_socket () 4 NoLink = (Inr (), v') \<and> v' = Linked 4"
proof -
  obtain v' where v': "smol_socket_connect (Unix 115) sample_socket () 4 NoLink = (Inr (), v')"
    by (simp add: smol_socket_connect_def smol_connect_begin_def sample_socket_def io_defs)
  show ?thesis
    using smol_connect_connected [OF sample_socket_laws v'] v' by blast
qed

text \<open>A refused connection is not a stream.\<close>

lemma smol_connect_refused:
  "smol_socket_connect (Unix 115) sample_socket () 0 NoLink = (Inl (IoError Other ''refused''), LinkFailed)"
  by (simp add: smol_socket_connect_def smol_connect_begin_def sample_socket_def io_defs)

section \<open>Backlogs\<close>

text \<open>The number a backend listens with is the number that was asked for, or the call is refused before it.\<close>

lemma backlog_exact:
  "backlog_i32 n = Inr k \<longleftrightarrow> k = uint n \<and> uint n < 2 ^ 31"
proof -
  have "unat n < 2 ^ 31 \<longleftrightarrow> uint n < 2 ^ 31"
    using of_nat_less_iff [where 'a = int, of "unat n" "2 ^ 31"] by simp
  then show ?thesis by (auto simp: backlog_i32_def)
qed

lemma listen_too_large:
  assumes "2 ^ 31 \<le> uint n"
  shows "tcp_socket_listen cs (OnSmol h) n v = (Inl backlog_error, v)"
    and "tcp_socket_listen cs (OnCompio h) n v = (Inl backlog_error, v)"
proof -
  have "backlog_i32 n = Inl backlog_error"
    using assms backlog_exact [of n] by (cases "backlog_i32 n") (auto simp: backlog_i32_def split: if_splits)
  then show "tcp_socket_listen cs (OnSmol h) n v = (Inl backlog_error, v)"
    and "tcp_socket_listen cs (OnCompio h) n v = (Inl backlog_error, v)"
    by (simp_all add: smol_socket_listen_def map_io_def fail_io_def try_io_def)
qed

end
