(* ===== verification/Streams.thy ===== *)
theory Streams
  imports Sockets
begin

text \<open>
  TCP and Unix streams and listeners over the three backends (\<open>src/src/net/tcp.rs\<close>, \<open>src/src/net/unix.rs\<close>)
  and their two asynchronous interfaces (\<open>src/src/net/io.rs\<close>, \<open>src/src/net/unix_io.rs\<close>): that of \<open>futures\<close>,
  where a read says how many bytes it put into a slice, and Tokio's, where it advances a \<open>ReadBuf\<close>.
\<close>

section \<open>\<open>ReadBuf\<close>\<close>

text \<open>A Tokio read buffer; a byte that was never initialised is a zero.\<close>

record read_buf =
  rb_bytes :: "byte list"
  rb_filled :: nat

definition read_buf_new :: "byte list \<Rightarrow> read_buf" where
  "read_buf_new buf = \<lparr>rb_bytes = buf, rb_filled = 0\<rparr>"

definition rb_contents :: "read_buf \<Rightarrow> byte list" where
  "rb_contents rb = take (rb_filled rb) (rb_bytes rb)"

definition rb_unfilled :: "read_buf \<Rightarrow> byte list" where
  "rb_unfilled rb = drop (rb_filled rb) (rb_bytes rb)"

definition rb_put_unfilled :: "byte list \<Rightarrow> read_buf \<Rightarrow> read_buf" where
  "rb_put_unfilled d rb = rb\<lparr>rb_bytes := rb_contents rb @ d\<rparr>"

text \<open>\<open>advance\<close> panics past the initialised bytes.\<close>

definition rb_advance :: "nat \<Rightarrow> read_buf \<Rightarrow> read_buf outcome" where
  "rb_advance n rb =
     (if rb_filled rb + n \<le> length (rb_bytes rb) then Returned (rb\<lparr>rb_filled := rb_filled rb + n\<rparr>) else Unwound)"

section \<open>Streams\<close>

text \<open>
  A stream of another crate, polled in the context \<open>cx\<close>: Tokio's reads into a \<open>ReadBuf\<close>, the other two into
  a slice; closing is Tokio's shutting down.
\<close>

record ('h, 'a, 'v) stream_ops =
  st_read_buf :: "nat \<Rightarrow> 'h \<Rightarrow> read_buf \<Rightarrow> 'v \<Rightarrow> unit io_result poll \<times> read_buf \<times> 'v"
  st_read :: "nat \<Rightarrow> 'h \<Rightarrow> byte list \<Rightarrow> 'v \<Rightarrow> nat io_result poll \<times> byte list \<times> 'v"
  st_write :: "nat \<Rightarrow> 'h \<Rightarrow> byte list \<Rightarrow> 'v \<Rightarrow> nat io_result poll \<times> 'v"
  st_flush :: "nat \<Rightarrow> 'h \<Rightarrow> 'v \<Rightarrow> unit io_result poll \<times> 'v"
  st_close :: "nat \<Rightarrow> 'h \<Rightarrow> 'v \<Rightarrow> unit io_result poll \<times> 'v"
  st_local_addr :: "'h \<Rightarrow> ('v, 'a) io"
  st_peer_addr :: "'h \<Rightarrow> ('v, 'a) io"
  st_nodelay :: "'h \<Rightarrow> ('v, bool) io"
  st_set_nodelay :: "'h \<Rightarrow> bool \<Rightarrow> ('v, unit) io"
  st_ttl :: "'h \<Rightarrow> ('v, u32) io"
  st_set_ttl :: "'h \<Rightarrow> u32 \<Rightarrow> ('v, unit) io"
  st_ttl_v4 :: "'h \<Rightarrow> ('v, u32) io"
  st_set_ttl_v4 :: "'h \<Rightarrow> u32 \<Rightarrow> ('v, unit) io"

record ('h, 'a, 'v) stream_crates =
  tokio_stream :: "('h, 'a, 'v) stream_ops"
  smol_stream :: "('h, 'a, 'v) stream_ops"
  compio_stream :: "('h, 'a, 'v) stream_ops"

text \<open>Reading a Tokio stream through a \<open>ReadBuf\<close> of the caller's slice.\<close>

definition slice_read ::
  "(read_buf \<Rightarrow> 'v \<Rightarrow> unit io_result poll \<times> read_buf \<times> 'v) \<Rightarrow>
   byte list \<Rightarrow> 'v \<Rightarrow> nat io_result poll \<times> byte list \<times> 'v" where
  "slice_read rd buf v =
     (case rd (read_buf_new buf) v of
        (Ready (Inr u), rb, v') \<Rightarrow> (Ready (Inr (rb_filled rb)), rb_bytes rb, v')
      | (Ready (Inl e), rb, v') \<Rightarrow> (Ready (Inl e), rb_bytes rb, v')
      | (Pending, rb, v') \<Rightarrow> (Pending, rb_bytes rb, v'))"

text \<open>And reading into a \<open>ReadBuf\<close> through its unfilled slice, which is how Tokio's trait is implemented.\<close>

definition buf_read ::
  "(byte list \<Rightarrow> 'v \<Rightarrow> nat io_result poll \<times> byte list \<times> 'v) \<Rightarrow>
   read_buf \<Rightarrow> 'v \<Rightarrow> unit io_result poll outcome \<times> read_buf \<times> 'v" where
  "buf_read rd rb v =
     (case rd (rb_unfilled rb) v of
        (Ready (Inr n), d, v') \<Rightarrow>
          (case rb_advance n (rb_put_unfilled d rb) of
             Returned rb' \<Rightarrow> (Returned (Ready (Inr ())), rb', v')
           | Unwound \<Rightarrow> (Unwound, rb_put_unfilled d rb, v'))
      | (Ready (Inl e), d, v') \<Rightarrow> (Returned (Ready (Inl e)), rb_put_unfilled d rb, v')
      | (Pending, d, v') \<Rightarrow> (Returned Pending, rb_put_unfilled d rb, v'))"

text \<open>\<open>TcpStream\<close>.\<close>

fun tcp_poll_read where
  "tcp_poll_read cs cx (OnTokio h) buf v = slice_read (st_read_buf (tokio_stream cs) cx h) buf v"
| "tcp_poll_read cs cx (OnSmol h) buf v = st_read (smol_stream cs) cx h buf v"
| "tcp_poll_read cs cx (OnCompio h) buf v = st_read (compio_stream cs) cx h buf v"

fun tcp_poll_write where
  "tcp_poll_write cs cx (OnTokio h) buf v = st_write (tokio_stream cs) cx h buf v"
| "tcp_poll_write cs cx (OnSmol h) buf v = st_write (smol_stream cs) cx h buf v"
| "tcp_poll_write cs cx (OnCompio h) buf v = st_write (compio_stream cs) cx h buf v"

fun tcp_poll_flush where
  "tcp_poll_flush cs cx (OnTokio h) v = st_flush (tokio_stream cs) cx h v"
| "tcp_poll_flush cs cx (OnSmol h) v = st_flush (smol_stream cs) cx h v"
| "tcp_poll_flush cs cx (OnCompio h) v = st_flush (compio_stream cs) cx h v"

fun tcp_poll_close where
  "tcp_poll_close cs cx (OnTokio h) v = st_close (tokio_stream cs) cx h v"
| "tcp_poll_close cs cx (OnSmol h) v = st_close (smol_stream cs) cx h v"
| "tcp_poll_close cs cx (OnCompio h) v = st_close (compio_stream cs) cx h v"

definition tcp_tokio_poll_read where
  "tcp_tokio_poll_read cs cx st = buf_read (tcp_poll_read cs cx st)"

fun tcp_stream_local_addr where
  "tcp_stream_local_addr cs (OnTokio h) = st_local_addr (tokio_stream cs) h"
| "tcp_stream_local_addr cs (OnSmol h) = st_local_addr (smol_stream cs) h"
| "tcp_stream_local_addr cs (OnCompio h) = st_local_addr (compio_stream cs) h"

fun tcp_stream_peer_addr where
  "tcp_stream_peer_addr cs (OnTokio h) = st_peer_addr (tokio_stream cs) h"
| "tcp_stream_peer_addr cs (OnSmol h) = st_peer_addr (smol_stream cs) h"
| "tcp_stream_peer_addr cs (OnCompio h) = st_peer_addr (compio_stream cs) h"

fun tcp_stream_nodelay where
  "tcp_stream_nodelay cs (OnTokio h) = st_nodelay (tokio_stream cs) h"
| "tcp_stream_nodelay cs (OnSmol h) = st_nodelay (smol_stream cs) h"
| "tcp_stream_nodelay cs (OnCompio h) = st_nodelay (compio_stream cs) h"

fun tcp_stream_set_nodelay where
  "tcp_stream_set_nodelay cs (OnTokio h) b = st_set_nodelay (tokio_stream cs) h b"
| "tcp_stream_set_nodelay cs (OnSmol h) b = st_set_nodelay (smol_stream cs) h b"
| "tcp_stream_set_nodelay cs (OnCompio h) b = st_set_nodelay (compio_stream cs) h b"

fun tcp_stream_ttl where
  "tcp_stream_ttl cs (OnTokio h) = st_ttl (tokio_stream cs) h"
| "tcp_stream_ttl cs (OnSmol h) = st_ttl (smol_stream cs) h"
| "tcp_stream_ttl cs (OnCompio h) = st_ttl_v4 (compio_stream cs) h"

fun tcp_stream_set_ttl where
  "tcp_stream_set_ttl cs (OnTokio h) n = st_set_ttl (tokio_stream cs) h n"
| "tcp_stream_set_ttl cs (OnSmol h) n = st_set_ttl (smol_stream cs) h n"
| "tcp_stream_set_ttl cs (OnCompio h) n = st_set_ttl_v4 (compio_stream cs) h n"

text \<open>\<open>UnixStream\<close>: the same interfaces.\<close>

fun unix_poll_read where
  "unix_poll_read cs cx (OnTokio h) buf v = slice_read (st_read_buf (tokio_stream cs) cx h) buf v"
| "unix_poll_read cs cx (OnSmol h) buf v = st_read (smol_stream cs) cx h buf v"
| "unix_poll_read cs cx (OnCompio h) buf v = st_read (compio_stream cs) cx h buf v"

fun unix_poll_write where
  "unix_poll_write cs cx (OnTokio h) buf v = st_write (tokio_stream cs) cx h buf v"
| "unix_poll_write cs cx (OnSmol h) buf v = st_write (smol_stream cs) cx h buf v"
| "unix_poll_write cs cx (OnCompio h) buf v = st_write (compio_stream cs) cx h buf v"

fun unix_poll_flush where
  "unix_poll_flush cs cx (OnTokio h) v = st_flush (tokio_stream cs) cx h v"
| "unix_poll_flush cs cx (OnSmol h) v = st_flush (smol_stream cs) cx h v"
| "unix_poll_flush cs cx (OnCompio h) v = st_flush (compio_stream cs) cx h v"

fun unix_poll_close where
  "unix_poll_close cs cx (OnTokio h) v = st_close (tokio_stream cs) cx h v"
| "unix_poll_close cs cx (OnSmol h) v = st_close (smol_stream cs) cx h v"
| "unix_poll_close cs cx (OnCompio h) v = st_close (compio_stream cs) cx h v"

definition unix_tokio_poll_read where
  "unix_tokio_poll_read cs cx st = buf_read (unix_poll_read cs cx st)"

section \<open>Addresses of Unix sockets\<close>

datatype unix_socket_addr = Pathname string | Abstract "byte list" | Unnamed

fun as_pathname :: "unix_socket_addr \<Rightarrow> string option" where
  "as_pathname (Pathname p) = Some p"
| "as_pathname a = None"

fun as_abstract_name :: "unix_socket_addr \<Rightarrow> byte list option" where
  "as_abstract_name (Abstract n) = Some n"
| "as_abstract_name a = None"

fun is_unnamed :: "unix_socket_addr \<Rightarrow> bool" where
  "is_unnamed Unnamed = True"
| "is_unnamed a = False"

text \<open>
  What the standard library and \<open>socket2\<close> say of an address \<open>'a\<close>. Only Linux and Android have the abstract
  names of the first.
\<close>

record 'a addr_ops =
  ad_pathname :: "'a \<Rightarrow> string option"
  ad_abstract :: "'a \<Rightarrow> byte list option"

definition std_abstract_name :: "bool \<Rightarrow> 'a addr_ops \<Rightarrow> 'a \<Rightarrow> byte list option" where
  "std_abstract_name linux ad a = (if linux then ad_abstract ad a else None)"

definition addr_from_std :: "bool \<Rightarrow> 'a addr_ops \<Rightarrow> 'a \<Rightarrow> unix_socket_addr" where
  "addr_from_std linux ad a =
     (case ad_pathname ad a of
        Some p \<Rightarrow> Pathname p
      | None \<Rightarrow> (case std_abstract_name linux ad a of Some n \<Rightarrow> Abstract n | None \<Rightarrow> Unnamed))"

definition addr_from_compio :: "'a addr_ops \<Rightarrow> 'a \<Rightarrow> unix_socket_addr" where
  "addr_from_compio ad a =
     (case ad_pathname ad a of
        Some p \<Rightarrow> Pathname p
      | None \<Rightarrow> (case ad_abstract ad a of Some n \<Rightarrow> Abstract n | None \<Rightarrow> Unnamed))"

record 'a addr_crates =
  on_linux :: bool
  tokio_to_std :: "'a \<Rightarrow> 'a"
  std_addr :: "'a addr_ops"
  socket2_addr :: "'a addr_ops"

definition addr_from_tokio :: "'a addr_crates \<Rightarrow> 'a \<Rightarrow> unix_socket_addr" where
  "addr_from_tokio as a = addr_from_std (on_linux as) (std_addr as) (tokio_to_std as a)"

fun addr_from where
  "addr_from as (OnTokio a) = addr_from_tokio as a"
| "addr_from as (OnSmol a) = addr_from_std (on_linux as) (std_addr as) a"
| "addr_from as (OnCompio a) = addr_from_compio (socket2_addr as) a"

fun unix_stream_local_addr where
  "unix_stream_local_addr as cs (OnTokio h) = map_io (addr_from_tokio as) (st_local_addr (tokio_stream cs) h)"
| "unix_stream_local_addr as cs (OnSmol h) =
     map_io (addr_from_std (on_linux as) (std_addr as)) (st_local_addr (smol_stream cs) h)"
| "unix_stream_local_addr as cs (OnCompio h) =
     map_io (addr_from_compio (socket2_addr as)) (st_local_addr (compio_stream cs) h)"

fun unix_stream_peer_addr where
  "unix_stream_peer_addr as cs (OnTokio h) = map_io (addr_from_tokio as) (st_peer_addr (tokio_stream cs) h)"
| "unix_stream_peer_addr as cs (OnSmol h) =
     map_io (addr_from_std (on_linux as) (std_addr as)) (st_peer_addr (smol_stream cs) h)"
| "unix_stream_peer_addr as cs (OnCompio h) =
     map_io (addr_from_compio (socket2_addr as)) (st_peer_addr (compio_stream cs) h)"

section \<open>Listeners\<close>

text \<open>
  A listener of another crate. Its incoming connections are polled for: Tokio's with an address and without
  an end, the others as streams \<open>'i\<close> of their own.
\<close>

record ('h, 'st, 'i, 'a, 'v) listener_ops =
  ln_accept :: "'h \<Rightarrow> ('v, 'st \<times> 'a) io"
  ln_poll_accept :: "nat \<Rightarrow> 'h \<Rightarrow> 'v \<Rightarrow> ('st \<times> 'a) io_result poll \<times> 'v"
  ln_incoming :: "'h \<Rightarrow> 'i"
  ln_poll_next :: "nat \<Rightarrow> 'i \<Rightarrow> 'v \<Rightarrow> 'st io_result option poll \<times> 'v"
  ln_local_addr :: "'h \<Rightarrow> ('v, 'a) io"
  ln_ttl :: "'h \<Rightarrow> ('v, u32) io"
  ln_set_ttl :: "'h \<Rightarrow> u32 \<Rightarrow> ('v, unit) io"
  ln_ttl_v4 :: "'h \<Rightarrow> ('v, u32) io"
  ln_set_ttl_v4 :: "'h \<Rightarrow> u32 \<Rightarrow> ('v, unit) io"

record ('h, 'st, 'i, 'a, 'v) listener_crates =
  tokio_listener :: "('h, 'st, 'i, 'a, 'v) listener_ops"
  smol_listener :: "('h, 'st, 'i, 'a, 'v) listener_ops"
  compio_listener :: "('h, 'st, 'i, 'a, 'v) listener_ops"

datatype ('h, 'i) incoming = IncomingTokio 'h | IncomingSmol 'i | IncomingCompio 'i

fun map_poll :: "('a \<Rightarrow> 'b) \<Rightarrow> 'a poll \<times> 'v \<Rightarrow> 'b poll \<times> 'v" where
  "map_poll g (Ready x, v) = (Ready (g x), v)"
| "map_poll g (Pending, v) = (Pending, v)"

fun tcp_accept where
  "tcp_accept cs (OnTokio h) = map_io (\<lambda>(st, a). (OnTokio st, a)) (ln_accept (tokio_listener cs) h)"
| "tcp_accept cs (OnSmol h) = map_io (\<lambda>(st, a). (OnSmol st, a)) (ln_accept (smol_listener cs) h)"
| "tcp_accept cs (OnCompio h) = map_io (\<lambda>(st, a). (OnCompio st, a)) (ln_accept (compio_listener cs) h)"

fun tcp_incoming where
  "tcp_incoming cs (OnTokio h) = IncomingTokio h"
| "tcp_incoming cs (OnSmol h) = IncomingSmol (ln_incoming (smol_listener cs) h)"
| "tcp_incoming cs (OnCompio h) = IncomingCompio (ln_incoming (compio_listener cs) h)"

fun tcp_poll_next where
  "tcp_poll_next cs cx (IncomingTokio h) v =
     map_poll (\<lambda>r. Some (map_sum id (\<lambda>(st, a). OnTokio st) r)) (ln_poll_accept (tokio_listener cs) cx h v)"
| "tcp_poll_next cs cx (IncomingSmol i) v =
     map_poll (map_option (map_sum id OnSmol)) (ln_poll_next (smol_listener cs) cx i v)"
| "tcp_poll_next cs cx (IncomingCompio i) v =
     map_poll (map_option (map_sum id OnCompio)) (ln_poll_next (compio_listener cs) cx i v)"

fun tcp_listener_local_addr where
  "tcp_listener_local_addr cs (OnTokio h) = ln_local_addr (tokio_listener cs) h"
| "tcp_listener_local_addr cs (OnSmol h) = ln_local_addr (smol_listener cs) h"
| "tcp_listener_local_addr cs (OnCompio h) = ln_local_addr (compio_listener cs) h"

fun tcp_listener_ttl where
  "tcp_listener_ttl cs (OnTokio h) = ln_ttl (tokio_listener cs) h"
| "tcp_listener_ttl cs (OnSmol h) = ln_ttl (smol_listener cs) h"
| "tcp_listener_ttl cs (OnCompio h) = ln_ttl_v4 (compio_listener cs) h"

fun tcp_listener_set_ttl where
  "tcp_listener_set_ttl cs (OnTokio h) n = ln_set_ttl (tokio_listener cs) h n"
| "tcp_listener_set_ttl cs (OnSmol h) n = ln_set_ttl (smol_listener cs) h n"
| "tcp_listener_set_ttl cs (OnCompio h) n = ln_set_ttl_v4 (compio_listener cs) h n"

text \<open>\<open>UnixListener\<close>, whose addresses are converted.\<close>

fun unix_accept where
  "unix_accept as cs (OnTokio h) =
     map_io (\<lambda>(st, a). (OnTokio st, addr_from_tokio as a)) (ln_accept (tokio_listener cs) h)"
| "unix_accept as cs (OnSmol h) =
     map_io (\<lambda>(st, a). (OnSmol st, addr_from_std (on_linux as) (std_addr as) a)) (ln_accept (smol_listener cs) h)"
| "unix_accept as cs (OnCompio h) =
     map_io (\<lambda>(st, a). (OnCompio st, addr_from_compio (socket2_addr as) a)) (ln_accept (compio_listener cs) h)"

fun unix_incoming where
  "unix_incoming cs (OnTokio h) = IncomingTokio h"
| "unix_incoming cs (OnSmol h) = IncomingSmol (ln_incoming (smol_listener cs) h)"
| "unix_incoming cs (OnCompio h) = IncomingCompio (ln_incoming (compio_listener cs) h)"

fun unix_poll_next where
  "unix_poll_next cs cx (IncomingTokio h) v =
     map_poll (\<lambda>r. Some (map_sum id (\<lambda>(st, a). OnTokio st) r)) (ln_poll_accept (tokio_listener cs) cx h v)"
| "unix_poll_next cs cx (IncomingSmol i) v =
     map_poll (map_option (map_sum id OnSmol)) (ln_poll_next (smol_listener cs) cx i v)"
| "unix_poll_next cs cx (IncomingCompio i) v =
     map_poll (map_option (map_sum id OnCompio)) (ln_poll_next (compio_listener cs) cx i v)"

fun unix_listener_local_addr where
  "unix_listener_local_addr as cs (OnTokio h) = map_io (addr_from_tokio as) (ln_local_addr (tokio_listener cs) h)"
| "unix_listener_local_addr as cs (OnSmol h) =
     map_io (addr_from_std (on_linux as) (std_addr as)) (ln_local_addr (smol_listener cs) h)"
| "unix_listener_local_addr as cs (OnCompio h) =
     map_io (addr_from_compio (socket2_addr as)) (ln_local_addr (compio_listener cs) h)"

section \<open>The two interfaces read the same bytes\<close>

text \<open>A stream keeps to the slice it is given, and Tokio's to the unfilled part of the buffer.\<close>

definition reads_within :: "(byte list \<Rightarrow> 'v \<Rightarrow> nat io_result poll \<times> byte list \<times> 'v) \<Rightarrow> bool" where
  "reads_within rd \<longleftrightarrow> (\<forall>buf v r d v'. rd buf v = (r, d, v') \<longrightarrow>
     length d = length buf \<and> (\<forall>n. r = Ready (Inr n) \<longrightarrow> n \<le> length buf))"

definition fills_within :: "(read_buf \<Rightarrow> 'v \<Rightarrow> unit io_result poll \<times> read_buf \<times> 'v) \<Rightarrow> bool" where
  "fills_within rd \<longleftrightarrow> (\<forall>rb v r rb' v'. rd rb v = (r, rb', v') \<longrightarrow> rb_filled rb \<le> length (rb_bytes rb) \<longrightarrow>
     length (rb_bytes rb') = length (rb_bytes rb) \<and> rb_filled rb' \<le> length (rb_bytes rb'))"

definition streams_within where
  "streams_within cs \<longleftrightarrow>
     (\<forall>cx h. fills_within (st_read_buf (tokio_stream cs) cx h)) \<and>
     (\<forall>cx h. reads_within (st_read (smol_stream cs) cx h)) \<and>
     (\<forall>cx h. reads_within (st_read (compio_stream cs) cx h))"

lemma reads_withinD:
  assumes "reads_within rd" and "rd buf v = (r, d, v')"
  shows "length d = length buf" and "r = Ready (Inr n) \<Longrightarrow> n \<le> length buf"
  using assms unfolding reads_within_def by blast+

lemma slice_read_within:
  assumes f: "fills_within rd"
  shows "reads_within (slice_read rd)"
  unfolding reads_within_def
proof (intro allI impI)
  fix buf :: "byte list" and v d v' and r
  assume r: "slice_read rd buf v = (r, d, v')"
  obtain q rb w where rd: "rd (read_buf_new buf) v = (q, rb, w)" by (metis prod_cases3)
  have "length (rb_bytes rb) = length buf" "rb_filled rb \<le> length buf"
    using f [unfolded fills_within_def, rule_format, OF rd] by (simp_all add: read_buf_new_def)
  with r rd show "length d = length buf \<and> (\<forall>n. r = Ready (Inr n) \<longrightarrow> n \<le> length buf)"
    by (auto simp: slice_read_def split: poll.splits sum.splits)
qed

lemma poll_read_within:
  assumes "streams_within cs"
  shows "reads_within (tcp_poll_read cs cx st)" and "reads_within (unix_poll_read cs cx st)"
proof -
  have "reads_within (tcp_poll_read cs cx st) \<and> reads_within (unix_poll_read cs cx st)"
  proof (cases st)
    case (OnTokio h)
    have "tcp_poll_read cs cx st = slice_read (st_read_buf (tokio_stream cs) cx h)"
      and "unix_poll_read cs cx st = slice_read (st_read_buf (tokio_stream cs) cx h)"
      using OnTokio by (intro ext; simp)+
    then show ?thesis using assms by (simp add: streams_within_def slice_read_within)
  next
    case (OnSmol h)
    have "tcp_poll_read cs cx st = st_read (smol_stream cs) cx h" "unix_poll_read cs cx st = st_read (smol_stream cs) cx h"
      using OnSmol by (intro ext; simp)+
    then show ?thesis using assms by (simp add: streams_within_def)
  next
    case (OnCompio h)
    have "tcp_poll_read cs cx st = st_read (compio_stream cs) cx h" "unix_poll_read cs cx st = st_read (compio_stream cs) cx h"
      using OnCompio by (intro ext; simp)+
    then show ?thesis using assms by (simp add: streams_within_def)
  qed
  then show "reads_within (tcp_poll_read cs cx st)" and "reads_within (unix_poll_read cs cx st)" by blast+
qed

text \<open>What a read of either interface answers, told by the other.\<close>

fun read_alike ::
  "nat io_result poll \<times> byte list \<times> 'v \<Rightarrow> read_buf \<Rightarrow> unit io_result poll outcome \<times> read_buf \<times> 'v \<Rightarrow> bool" where
  "read_alike (Ready (Inr n), d, v) rb (r, rb', w) =
     (r = Returned (Ready (Inr ())) \<and> w = v \<and> rb_contents rb' = rb_contents rb @ take n d \<and>
      rb_filled rb' = rb_filled rb + n \<and> length (rb_bytes rb') = length (rb_bytes rb))"
| "read_alike (Ready (Inl e), d, v) rb (r, rb', w) =
     (r = Returned (Ready (Inl e)) \<and> w = v \<and> rb_contents rb' = rb_contents rb)"
| "read_alike (Pending, d, v) rb (r, rb', w) = (r = Returned Pending \<and> w = v \<and> rb_contents rb' = rb_contents rb)"

lemma buf_read_alike:
  assumes w: "reads_within rd" and rb: "rb_filled rb \<le> length (rb_bytes rb)"
  shows "read_alike (rd (rb_unfilled rb) v) rb (buf_read rd rb v)"
proof (cases "rd (rb_unfilled rb) v")
  case (fields r d v')
  note len = reads_withinD [OF w fields]
  show ?thesis
  proof (cases r)
    case Pending
    with fields rb show ?thesis
      by (simp add: buf_read_def rb_put_unfilled_def rb_contents_def)
  next
    case (Ready x)
    with fields rb len show ?thesis
      by (cases x)
        (auto simp: buf_read_def rb_advance_def rb_put_unfilled_def rb_contents_def rb_unfilled_def min_def)
  qed
qed

text \<open>
  C38: a poll of a stream through Tokio's interface answers what a poll through that of \<open>futures\<close> answers,
  appends to the buffer exactly the bytes that one would have read, keeps what the buffer held, and never
  panics, as long as the streams of the other crates keep to the slices they are given.
\<close>

theorem stream_interfaces_agree:
  assumes "streams_within cs" and "rb_filled rb \<le> length (rb_bytes rb)"
  shows "read_alike (tcp_poll_read cs cx st (rb_unfilled rb) v) rb (tcp_tokio_poll_read cs cx st rb v) \<and>
    read_alike (unix_poll_read cs cx st (rb_unfilled rb) v) rb (unix_tokio_poll_read cs cx st rb v)"
  unfolding tcp_tokio_poll_read_def unix_tokio_poll_read_def
  using buf_read_alike [OF poll_read_within(1) [OF assms(1)] assms(2)]
    buf_read_alike [OF poll_read_within(2) [OF assms(1)] assms(2)] by blast

text \<open>Streams with the bytes that are still to come.\<close>

definition sample_stream :: "(unit, nat, byte list) stream_ops" where
  "sample_stream = \<lparr>
     st_read_buf = (\<lambda>cx h rb v. let n = min (length (rb_bytes rb) - rb_filled rb) (length v) in
       if rb_filled rb \<le> length (rb_bytes rb)
       then (Ready (Inr ()), \<lparr>rb_bytes = take (rb_filled rb) (rb_bytes rb) @ copy_prefix (take n v)
               (drop (rb_filled rb) (rb_bytes rb)), rb_filled = rb_filled rb + n\<rparr>, drop n v)
       else (Pending, rb, v)),
     st_read = (\<lambda>cx h buf v. let n = min (length buf) (length v) in
       (Ready (Inr n), copy_prefix (take n v) buf, drop n v)),
     st_write = (\<lambda>cx h buf v. (Pending, v)), st_flush = (\<lambda>cx h v. (Pending, v)),
     st_close = (\<lambda>cx h v. (Pending, v)), st_local_addr = (\<lambda>h. ok_io 0), st_peer_addr = (\<lambda>h. ok_io 0),
     st_nodelay = (\<lambda>h. ok_io False), st_set_nodelay = (\<lambda>h b. ok_io ()), st_ttl = (\<lambda>h. ok_io 0),
     st_set_ttl = (\<lambda>h n. ok_io ()), st_ttl_v4 = (\<lambda>h. ok_io 0), st_set_ttl_v4 = (\<lambda>h n. ok_io ())\<rparr>"

definition sample_streams :: "(unit, nat, byte list) stream_crates" where
  "sample_streams = \<lparr>tokio_stream = sample_stream, smol_stream = sample_stream, compio_stream = sample_stream\<rparr>"

lemma sample_streams_within: "streams_within sample_streams"
  by (auto simp: streams_within_def fills_within_def reads_within_def sample_streams_def sample_stream_def
      copy_prefix_def Let_def min_def split: if_splits)

theorem stream_interfaces_agree_witness:
  "\<exists>rb'. tcp_tokio_poll_read sample_streams 0 (OnTokio ()) \<lparr>rb_bytes = [9, 0, 0], rb_filled = 1\<rparr> [1, 2, 3]
      = (Returned (Ready (Inr ())), rb', [3]) \<and> rb_contents rb' = [9, 1, 2]"
proof -
  define rb where "rb = \<lparr>rb_bytes = [9, 0, 0 :: byte], rb_filled = 1\<rparr>"
  have p: "tcp_poll_read sample_streams 0 (OnTokio ()) (rb_unfilled rb) [1, 2, 3] = (Ready (Inr 2), [1, 2], [3])"
    by (simp add: slice_read_def sample_streams_def sample_stream_def rb_unfilled_def rb_def
      read_buf_new_def copy_prefix_def Let_def)
  have c: "rb_contents rb = [9]" "rb_filled rb \<le> length (rb_bytes rb)" by (simp_all add: rb_def rb_contents_def)
  obtain r rb' w where t: "tcp_tokio_poll_read sample_streams 0 (OnTokio ()) rb [1, 2, 3] = (r, rb', w)"
    by (metis prod_cases3)
  have "read_alike (Ready (Inr 2), [1, 2], [3]) rb (r, rb', w)"
    using stream_interfaces_agree [OF sample_streams_within c(2), of 0 "OnTokio ()" "[1, 2, 3]"] by (simp only: p t)
  then show ?thesis using t c by (simp add: rb_def)
qed

text \<open>Converting an address keeps its kind: a path first, then an abstract name.\<close>

lemma addr_from_std_accessors:
  "as_pathname (addr_from_std linux ad a) = ad_pathname ad a"
  "as_abstract_name (addr_from_std linux ad a) =
     (if ad_pathname ad a = None then std_abstract_name linux ad a else None)"
  "is_unnamed (addr_from_std linux ad a) \<longleftrightarrow> ad_pathname ad a = None \<and> std_abstract_name linux ad a = None"
  by (simp_all add: addr_from_std_def split: option.splits)

end
