(* ===== verification/Network.thy ===== *)
theory Network
  imports Streams Udp_Buffers Selection Task_Context
begin

text \<open>
  UDP sockets over the three backends (\<open>src/src/net/udp.rs\<close>) and the built-in network, which is one of them
  or none (\<open>src/src/net/builtin.rs\<close>, \<open>src/src/net/tokio.rs\<close>, \<open>src/src/net/smol.rs\<close>, \<open>src/src/net/compio.rs\<close>).
  An operation of a Compio socket is the two halves of the theory on its buffers around one call of the
  kernel.
\<close>

section \<open>UDP sockets\<close>

record ('h, 'a, 'v) udp_ops =
  ud_connect :: "'h \<Rightarrow> 'a \<Rightarrow> ('v, unit) io"
  ud_local_addr :: "'h \<Rightarrow> ('v, 'a) io"
  ud_peer_addr :: "'h \<Rightarrow> ('v, 'a) io"
  ud_recv :: "'h \<Rightarrow> byte list \<Rightarrow> 'v \<Rightarrow> nat io_result \<times> byte list \<times> 'v"
  ud_recv_from :: "'h \<Rightarrow> byte list \<Rightarrow> 'v \<Rightarrow> (nat \<times> 'a) io_result \<times> byte list \<times> 'v"
  ud_send :: "'h \<Rightarrow> byte list \<Rightarrow> ('v, nat) io"
  ud_send_to :: "'h \<Rightarrow> byte list \<Rightarrow> 'a \<Rightarrow> ('v, nat) io"
  ud_broadcast :: "'h \<Rightarrow> ('v, bool) io"
  ud_set_broadcast :: "'h \<Rightarrow> bool \<Rightarrow> ('v, unit) io"
  ud_ttl :: "'h \<Rightarrow> ('v, u32) io"
  ud_set_ttl :: "'h \<Rightarrow> u32 \<Rightarrow> ('v, unit) io"
  ud_ttl_v4 :: "'h \<Rightarrow> ('v, u32) io"
  ud_set_ttl_v4 :: "'h \<Rightarrow> u32 \<Rightarrow> ('v, unit) io"

text \<open>
  Compio's receives fill a buffer of the crate, of which they may use a number of bytes; its sends read
  one. \<open>vec_growth\<close> is the allocator's.
\<close>

record ('h, 'a, 'v) udp_crates =
  tokio_udp :: "('h, 'a, 'v) udp_ops"
  smol_udp :: "('h, 'a, 'v) udp_ops"
  compio_udp :: "('h, 'a, 'v) udp_ops"
  kernel_recv :: "'h \<Rightarrow> nat \<Rightarrow> 'v \<Rightarrow> nat io_result \<times> byte list \<times> 'v"
  kernel_recv_from :: "'h \<Rightarrow> nat \<Rightarrow> 'v \<Rightarrow> (nat \<times> 'a) io_result \<times> byte list \<times> 'v"
  vec_growth :: "nat \<Rightarrow> nat"

datatype ('h, 'a) udp_socket = UdpTokio 'h | UdpSmol 'h | UdpCompio 'h "'a udp"

fun map_outcome :: "('a \<Rightarrow> 'b) \<Rightarrow> 'a outcome \<Rightarrow> 'b outcome" where
  "map_outcome g (Returned x) = Returned (g x)"
| "map_outcome g Unwound = Unwound"

text \<open>\<open>CompioUdpSocket::recv\<close>, \<open>recv_from\<close>, \<open>send\<close> and \<open>send_to\<close> from start to end.\<close>

definition compio_udp_recv where
  "compio_udp_recv cs h s out v =
     (case recv_start (vec_growth cs) out s of
        (x, s1) \<Rightarrow>
          (case kernel_recv cs h (length out) v of
             (r, filled, v') \<Rightarrow>
               (case recv_finish (op_buffer x) out (map_sum id (\<lambda>n. (n, None)) r) filled s1 of
                  (q, out', s2) \<Rightarrow> (map_outcome (map_sum id fst) q, out', s2, v'))))"

definition compio_udp_recv_from where
  "compio_udp_recv_from cs h s out v =
     (case recv_start (vec_growth cs) out s of
        (x, s1) \<Rightarrow>
          (case kernel_recv_from cs h (length out) v of
             (r, filled, v') \<Rightarrow>
               (case recv_finish (op_buffer x) out (map_sum id (\<lambda>(n, a). (n, Some a)) r) filled s1 of
                  (q, out', s2) \<Rightarrow> (map_outcome (map_sum id (\<lambda>(n, a). (n, the a))) q, out', s2, v'))))"

definition compio_udp_send where
  "compio_udp_send cs h s input v =
     (case send_start (vec_growth cs) input None s of
        (x, s1) \<Rightarrow>
          (case ud_send (compio_udp cs) h (vbytes (op_buffer x)) v of
             (r, v') \<Rightarrow> (case send_finish (op_buffer x) r s1 of (r', s2) \<Rightarrow> (r', s2, v'))))"

definition compio_udp_send_to where
  "compio_udp_send_to cs h s input a v =
     (case send_start (vec_growth cs) input (Some a) s of
        (x, s1) \<Rightarrow>
          (case ud_send_to (compio_udp cs) h (vbytes (op_buffer x)) a v of
             (r, v') \<Rightarrow> (case send_finish (op_buffer x) r s1 of (r', s2) \<Rightarrow> (r', s2, v'))))"

text \<open>The methods of \<open>UdpSocket\<close>.\<close>

fun udp_recv where
  "udp_recv cs (UdpTokio h) out v =
     (case ud_recv (tokio_udp cs) h out v of (r, out', v') \<Rightarrow> (Returned r, out', UdpTokio h, v'))"
| "udp_recv cs (UdpSmol h) out v =
     (case ud_recv (smol_udp cs) h out v of (r, out', v') \<Rightarrow> (Returned r, out', UdpSmol h, v'))"
| "udp_recv cs (UdpCompio h s) out v =
     (case compio_udp_recv cs h s out v of (r, out', s', v') \<Rightarrow> (r, out', UdpCompio h s', v'))"

fun udp_recv_from where
  "udp_recv_from cs (UdpTokio h) out v =
     (case ud_recv_from (tokio_udp cs) h out v of (r, out', v') \<Rightarrow> (Returned r, out', UdpTokio h, v'))"
| "udp_recv_from cs (UdpSmol h) out v =
     (case ud_recv_from (smol_udp cs) h out v of (r, out', v') \<Rightarrow> (Returned r, out', UdpSmol h, v'))"
| "udp_recv_from cs (UdpCompio h s) out v =
     (case compio_udp_recv_from cs h s out v of (r, out', s', v') \<Rightarrow> (r, out', UdpCompio h s', v'))"

fun udp_send where
  "udp_send cs (UdpTokio h) input v = (case ud_send (tokio_udp cs) h input v of (r, v') \<Rightarrow> (r, UdpTokio h, v'))"
| "udp_send cs (UdpSmol h) input v = (case ud_send (smol_udp cs) h input v of (r, v') \<Rightarrow> (r, UdpSmol h, v'))"
| "udp_send cs (UdpCompio h s) input v =
     (case compio_udp_send cs h s input v of (r, s', v') \<Rightarrow> (r, UdpCompio h s', v'))"

fun udp_send_to where
  "udp_send_to cs (UdpTokio h) input a v =
     (case ud_send_to (tokio_udp cs) h input a v of (r, v') \<Rightarrow> (r, UdpTokio h, v'))"
| "udp_send_to cs (UdpSmol h) input a v =
     (case ud_send_to (smol_udp cs) h input a v of (r, v') \<Rightarrow> (r, UdpSmol h, v'))"
| "udp_send_to cs (UdpCompio h s) input a v =
     (case compio_udp_send_to cs h s input a v of (r, s', v') \<Rightarrow> (r, UdpCompio h s', v'))"

fun udp_connect where
  "udp_connect cs (UdpTokio h) a = ud_connect (tokio_udp cs) h a"
| "udp_connect cs (UdpSmol h) a = ud_connect (smol_udp cs) h a"
| "udp_connect cs (UdpCompio h s) a = ud_connect (compio_udp cs) h a"

fun udp_local_addr where
  "udp_local_addr cs (UdpTokio h) = ud_local_addr (tokio_udp cs) h"
| "udp_local_addr cs (UdpSmol h) = ud_local_addr (smol_udp cs) h"
| "udp_local_addr cs (UdpCompio h s) = ud_local_addr (compio_udp cs) h"

fun udp_peer_addr where
  "udp_peer_addr cs (UdpTokio h) = ud_peer_addr (tokio_udp cs) h"
| "udp_peer_addr cs (UdpSmol h) = ud_peer_addr (smol_udp cs) h"
| "udp_peer_addr cs (UdpCompio h s) = ud_peer_addr (compio_udp cs) h"

fun udp_broadcast where
  "udp_broadcast cs (UdpTokio h) = ud_broadcast (tokio_udp cs) h"
| "udp_broadcast cs (UdpSmol h) = ud_broadcast (smol_udp cs) h"
| "udp_broadcast cs (UdpCompio h s) = ud_broadcast (compio_udp cs) h"

fun udp_set_broadcast where
  "udp_set_broadcast cs (UdpTokio h) b = ud_set_broadcast (tokio_udp cs) h b"
| "udp_set_broadcast cs (UdpSmol h) b = ud_set_broadcast (smol_udp cs) h b"
| "udp_set_broadcast cs (UdpCompio h s) b = ud_set_broadcast (compio_udp cs) h b"

fun udp_ttl where
  "udp_ttl cs (UdpTokio h) = ud_ttl (tokio_udp cs) h"
| "udp_ttl cs (UdpSmol h) = ud_ttl (smol_udp cs) h"
| "udp_ttl cs (UdpCompio h s) = ud_ttl_v4 (compio_udp cs) h"

fun udp_set_ttl where
  "udp_set_ttl cs (UdpTokio h) n = ud_set_ttl (tokio_udp cs) h n"
| "udp_set_ttl cs (UdpSmol h) n = ud_set_ttl (smol_udp cs) h n"
| "udp_set_ttl cs (UdpCompio h s) n = ud_set_ttl_v4 (compio_udp cs) h n"

section \<open>The built-in network\<close>

record ('so, 'st, 'li, 'ud, 'us, 'ul, 'a, 'v) net_ops =
  nw_socket_v4 :: "('v, 'so) io"
  nw_socket_v6 :: "('v, 'so) io"
  nw_connect :: "'a \<Rightarrow> ('v, 'st) io"
  nw_bind :: "'a \<Rightarrow> ('v, 'li) io"
  nw_bind_udp :: "'a \<Rightarrow> ('v, 'ud) io"
  nw_connect_unix :: "string \<Rightarrow> ('v, 'us) io"
  nw_bind_unix :: "string \<Rightarrow> ('v, 'ul) io"

text \<open>
  \<open>TokioNetwork\<close> and \<open>CompioNetwork\<close> pass every call on to their crate, \<open>SmolNetwork\<close> all but the making of
  sockets.
\<close>

definition tokio_network :: "('so, 'st, 'li, 'ud, 'us, 'ul, 'a, 'v) net_ops \<Rightarrow>
    ('so, 'st, 'li, 'ud, 'us, 'ul, 'a, 'v) net_ops" where
  "tokio_network crate = \<lparr>nw_socket_v4 = nw_socket_v4 crate, nw_socket_v6 = nw_socket_v6 crate,
     nw_connect = nw_connect crate, nw_bind = nw_bind crate, nw_bind_udp = nw_bind_udp crate,
     nw_connect_unix = nw_connect_unix crate, nw_bind_unix = nw_bind_unix crate\<rparr>"

definition smol_network :: "('so, 'sst, 'sli, 'sa, 'l, 'v) socket2 \<Rightarrow>
    ('so, 'st, 'li, 'ud, 'us, 'ul, 'a, 'v) net_ops \<Rightarrow> ('so, 'st, 'li, 'ud, 'us, 'ul, 'a, 'v) net_ops" where
  "smol_network s2 crate = \<lparr>nw_socket_v4 = smol_socket_new s2 IPV4, nw_socket_v6 = smol_socket_new s2 IPV6,
     nw_connect = nw_connect crate, nw_bind = nw_bind crate, nw_bind_udp = nw_bind_udp crate,
     nw_connect_unix = nw_connect_unix crate, nw_bind_unix = nw_bind_unix crate\<rparr>"

definition compio_network :: "('so, 'st, 'li, 'ud, 'us, 'ul, 'a, 'v) net_ops \<Rightarrow>
    ('so, 'st, 'li, 'ud, 'us, 'ul, 'a, 'v) net_ops" where
  "compio_network crate = \<lparr>nw_socket_v4 = nw_socket_v4 crate, nw_socket_v6 = nw_socket_v6 crate,
     nw_connect = nw_connect crate, nw_bind = nw_bind crate, nw_bind_udp = nw_bind_udp crate,
     nw_connect_unix = nw_connect_unix crate, nw_bind_unix = nw_bind_unix crate\<rparr>"

record ('so, 'st, 'li, 'ud, 'us, 'ul, 'a, 'sst, 'sli, 'sa, 'l, 'v) net_crates =
  nc_tokio :: "('so, 'st, 'li, 'ud, 'us, 'ul, 'a, 'v) net_ops"
  nc_smol :: "('so, 'st, 'li, 'ud, 'us, 'ul, 'a, 'v) net_ops"
  nc_compio :: "('so, 'st, 'li, 'ud, 'us, 'ul, 'a, 'v) net_ops"
  nc_socket2 :: "('so, 'sst, 'sli, 'sa, 'l, 'v) socket2"
  nc_allocator :: nat

definition no_network_error :: io_error where
  "no_network_error = IoError Unsupported ''no networking backend is available for the active executor''"

text \<open>\<open>current()\<close>: the network of the executor of the running task.\<close>

definition current_net :: "builtin_executor \<Rightarrow> thread \<Rightarrow> 'w ambient \<Rightarrow> builtin_network" where
  "current_net dflt th s = network_of (task_executor dflt th s)"

fun builtin_new_tcp_socket_v4 where
  "builtin_new_tcp_socket_v4 nc NetTokio = map_io OnTokio (nw_socket_v4 (tokio_network (nc_tokio nc)))"
| "builtin_new_tcp_socket_v4 nc NetSmol =
     map_io OnSmol (nw_socket_v4 (smol_network (nc_socket2 nc) (nc_smol nc)))"
| "builtin_new_tcp_socket_v4 nc NetCompio =
     map_io OnCompio (nw_socket_v4 (compio_network (nc_compio nc)))"
| "builtin_new_tcp_socket_v4 nc NetUnavailable = fail_io no_network_error"

fun builtin_new_tcp_socket_v6 where
  "builtin_new_tcp_socket_v6 nc NetTokio = map_io OnTokio (nw_socket_v6 (tokio_network (nc_tokio nc)))"
| "builtin_new_tcp_socket_v6 nc NetSmol =
     map_io OnSmol (nw_socket_v6 (smol_network (nc_socket2 nc) (nc_smol nc)))"
| "builtin_new_tcp_socket_v6 nc NetCompio =
     map_io OnCompio (nw_socket_v6 (compio_network (nc_compio nc)))"
| "builtin_new_tcp_socket_v6 nc NetUnavailable = fail_io no_network_error"

fun builtin_connect_tcp where
  "builtin_connect_tcp nc NetTokio a = map_io OnTokio (nw_connect (tokio_network (nc_tokio nc)) a)"
| "builtin_connect_tcp nc NetSmol a =
     map_io OnSmol (nw_connect (smol_network (nc_socket2 nc) (nc_smol nc)) a)"
| "builtin_connect_tcp nc NetCompio a =
     map_io OnCompio (nw_connect (compio_network (nc_compio nc)) a)"
| "builtin_connect_tcp nc NetUnavailable a = fail_io no_network_error"

fun builtin_bind_tcp where
  "builtin_bind_tcp nc NetTokio a = map_io OnTokio (nw_bind (tokio_network (nc_tokio nc)) a)"
| "builtin_bind_tcp nc NetSmol a =
     map_io OnSmol (nw_bind (smol_network (nc_socket2 nc) (nc_smol nc)) a)"
| "builtin_bind_tcp nc NetCompio a =
     map_io OnCompio (nw_bind (compio_network (nc_compio nc)) a)"
| "builtin_bind_tcp nc NetUnavailable a = fail_io no_network_error"

fun builtin_bind_udp where
  "builtin_bind_udp nc NetTokio a = map_io UdpTokio (nw_bind_udp (tokio_network (nc_tokio nc)) a)"
| "builtin_bind_udp nc NetSmol a =
     map_io UdpSmol (nw_bind_udp (smol_network (nc_socket2 nc) (nc_smol nc)) a)"
| "builtin_bind_udp nc NetCompio a =
     map_io (\<lambda>h. UdpCompio h (udp_new (nc_allocator nc))) (nw_bind_udp (compio_network (nc_compio nc)) a)"
| "builtin_bind_udp nc NetUnavailable a = fail_io no_network_error"

fun builtin_connect_unix where
  "builtin_connect_unix nc NetTokio path = map_io OnTokio (nw_connect_unix (tokio_network (nc_tokio nc)) path)"
| "builtin_connect_unix nc NetSmol path =
     map_io OnSmol (nw_connect_unix (smol_network (nc_socket2 nc) (nc_smol nc)) path)"
| "builtin_connect_unix nc NetCompio path =
     map_io OnCompio (nw_connect_unix (compio_network (nc_compio nc)) path)"
| "builtin_connect_unix nc NetUnavailable path = fail_io no_network_error"

fun builtin_bind_unix where
  "builtin_bind_unix nc NetTokio path = map_io OnTokio (nw_bind_unix (tokio_network (nc_tokio nc)) path)"
| "builtin_bind_unix nc NetSmol path =
     map_io OnSmol (nw_bind_unix (smol_network (nc_socket2 nc) (nc_smol nc)) path)"
| "builtin_bind_unix nc NetCompio path =
     map_io OnCompio (nw_bind_unix (compio_network (nc_compio nc)) path)"
| "builtin_bind_unix nc NetUnavailable path = fail_io no_network_error"

section \<open>Buffered operations are direct ones\<close>

text \<open>The kernel says how many bytes it received and has put them there, no more than it may use.\<close>

definition kernel_within where
  "kernel_within cs \<longleftrightarrow>
     (\<forall>h k v r filled v'. kernel_recv cs h k v = (r, filled, v') \<longrightarrow>
        length filled \<le> k \<and> (\<forall>n. r = Inr n \<longrightarrow> n \<le> length filled)) \<and>
     (\<forall>h k v r filled v'. kernel_recv_from cs h k v = (r, filled, v') \<longrightarrow>
        length filled \<le> k \<and> (\<forall>n a. r = Inr (n, a) \<longrightarrow> n \<le> length filled))"

text \<open>What a receive that writes into the caller's slice itself would leave there.\<close>

fun placed :: "('e + nat) \<Rightarrow> byte list \<Rightarrow> byte list \<Rightarrow> byte list" where
  "placed (Inr n) filled out = copy_prefix (take n filled) out"
| "placed (Inl e) filled out = out"

lemma recv_start_shape: "recv_start grow out s = (x, s') \<Longrightarrow> \<exists>v. x = Receiving v out"
  by (auto simp: recv_start_def split: prod.splits)

lemma udp_recv_direct:
  assumes "kernel_within cs" and "kernel_recv cs h (length out) v = (r, filled, v')"
  shows "\<exists>s'. udp_recv cs (UdpCompio h s) out v = (Returned r, placed r filled out, UdpCompio h s', v')"
proof -
  obtain x s1 where x: "recv_start (vec_growth cs) out s = (x, s1)" by (metis prod.exhaust)
  have "length filled \<le> length out" "\<And>n. r = Inr n \<Longrightarrow> n \<le> length filled"
    using assms unfolding kernel_within_def by blast+
  with x assms(2) show ?thesis
    by (cases r) (auto simp: compio_udp_recv_def recv_finish_def Let_def min_def)
qed

lemma udp_recv_from_direct:
  assumes "kernel_within cs" and "kernel_recv_from cs h (length out) v = (r, filled, v')"
  shows "\<exists>s'. udp_recv_from cs (UdpCompio h s) out v =
    (Returned r, placed (map_sum id fst r) filled out, UdpCompio h s', v')"
proof -
  obtain x s1 where x: "recv_start (vec_growth cs) out s = (x, s1)" by (metis prod.exhaust)
  have "length filled \<le> length out" "\<And>n a. r = Inr (n, a) \<Longrightarrow> n \<le> length filled"
    using assms unfolding kernel_within_def by blast+
  with x assms(2) show ?thesis
    by (cases r) (auto simp: compio_udp_recv_from_def recv_finish_def Let_def min_def)
qed

text \<open>A send hands the kernel the caller's bytes and nothing that was in the buffer before.\<close>

lemma send_start_bytes:
  assumes "send_start grow input a s = (x, s')"
  shows "vbytes (op_buffer x) = input"
  using assms
  by (auto simp: send_start_def slot_take_def vec_extend_def reserve_def vec_clear_def Let_def split: prod.splits if_splits)

lemma udp_send_direct:
  assumes "ud_send (compio_udp cs) h input v = (r, v')"
  shows "\<exists>s'. udp_send cs (UdpCompio h s) input v = (r, UdpCompio h s', v')"
proof -
  obtain x s1 where x: "send_start (vec_growth cs) input None s = (x, s1)" by (metis prod.exhaust)
  with assms send_start_bytes [OF x] show ?thesis
    by (simp add: compio_udp_send_def send_finish_def)
qed

lemma udp_send_to_direct:
  assumes "ud_send_to (compio_udp cs) h input a v = (r, v')"
  shows "\<exists>s'. udp_send_to cs (UdpCompio h s) input a v = (r, UdpCompio h s', v')"
proof -
  obtain x s1 where x: "send_start (vec_growth cs) input (Some a) s = (x, s1)" by (metis prod.exhaust)
  with assms send_start_bytes [OF x] show ?thesis
    by (simp add: compio_udp_send_to_def send_finish_def)
qed

text \<open>
  A receive of a Compio socket answers what the kernel answered, leaves in the caller's slice what
  the kernel received and does not panic, and a send hands the kernel the caller's bytes, whatever the
  buffers of the socket were used for before.
\<close>

theorem udp_compio_direct:
  assumes "kernel_within cs" and "kernel_recv cs h (length out) v = (r, filled, v')"
    and "ud_send_to (compio_udp cs) h input a w = (q, w')"
  shows "(\<exists>s'. udp_recv cs (UdpCompio h s) out v = (Returned r, placed r filled out, UdpCompio h s', v')) \<and>
    (\<exists>s'. udp_send_to cs (UdpCompio h s) input a w = (q, UdpCompio h s', w'))"
  using udp_recv_direct [OF assms(1,2)] udp_send_to_direct [OF assms(3)] by blast

text \<open>A network of datagrams on their way, each cut to the room there is.\<close>

definition sample_udp :: "(unit, nat, byte list list) udp_ops" where
  "sample_udp = \<lparr>ud_connect = (\<lambda>h a. ok_io ()), ud_local_addr = (\<lambda>h. ok_io 0), ud_peer_addr = (\<lambda>h. ok_io 0),
     ud_recv = (\<lambda>h out v. (Inr 0, out, v)), ud_recv_from = (\<lambda>h out v. (Inr (0, 0), out, v)),
     ud_send = (\<lambda>h input v. (Inr (length input), v @ [input])),
     ud_send_to = (\<lambda>h input a v. (Inr (length input), v @ [input])),
     ud_broadcast = (\<lambda>h. ok_io False), ud_set_broadcast = (\<lambda>h b. ok_io ()), ud_ttl = (\<lambda>h. ok_io 0),
     ud_set_ttl = (\<lambda>h n. ok_io ()), ud_ttl_v4 = (\<lambda>h. ok_io 0), ud_set_ttl_v4 = (\<lambda>h n. ok_io ())\<rparr>"

definition sample_udp_crates :: "(unit, nat, byte list list) udp_crates" where
  "sample_udp_crates = \<lparr>tokio_udp = sample_udp, smol_udp = sample_udp, compio_udp = sample_udp,
     kernel_recv = (\<lambda>h k v. case v of [] \<Rightarrow> (Inl (IoError WouldBlock ''empty''), [], [])
       | d # ds \<Rightarrow> (Inr (length (take k d)), take k d, ds)),
     kernel_recv_from = (\<lambda>h k v. case v of [] \<Rightarrow> (Inl (IoError WouldBlock ''empty''), [], [])
       | d # ds \<Rightarrow> (Inr (length (take k d), 5), take k d, ds)),
     vec_growth = (\<lambda>n. n)\<rparr>"

lemma sample_udp_within: "kernel_within sample_udp_crates"
  by (auto simp: kernel_within_def sample_udp_crates_def split: list.splits)

theorem udp_compio_direct_witness:
  "\<exists>s'. udp_recv sample_udp_crates (UdpCompio () (udp_new 0 :: nat udp)) [0, 0, 0] [[1, 2], [3]]
     = (Returned (Inr 2), [1, 2, 0], UdpCompio () s', [[3]])"
proof -
  have k: "kernel_recv sample_udp_crates () (length [0, 0, 0 :: byte]) [[1, 2], [3]] = (Inr 2, [1, 2], [[3]])"
    and d: "ud_send_to (compio_udp sample_udp_crates) () [] 0 [] = (Inr 0, [[]])"
    by (simp_all add: sample_udp_crates_def sample_udp_def)
  show ?thesis
    using udp_compio_direct [OF sample_udp_within k d, of "udp_new 0"] by (simp add: copy_prefix_def del: udp_recv.simps)
qed

end
