(* ===== verification/Forwarding.thy ===== *)
theory Forwarding
  imports Prelude
begin

text \<open>
  Executors behind \<open>Either\<close>, \<open>Arc\<close> and \<open>Rc\<close> (\<open>src/src/either.rs\<close>, \<open>src/src/arc.rs\<close>, \<open>src/src/rc.rs\<close>): the traits
  \<open>Executor\<close>, \<open>ExecutorBlocking\<close>, \<open>ExecutorTimeout\<close> and \<open>ExecutorBlockOn\<close> as one record of methods, the
  methods \<open>src/src/lib.rs\<close> provides, and which of them each wrapper passes on and which it inherits. The
  message-driven tasks are built from \<open>spawn_abortable\<close> alone and are the subject of their own theory.
\<close>

text \<open>
  Futures \<open>'f\<close>, blocking closures \<open>'b\<close>, handles \<open>'h\<close>, abortable handles \<open>'a\<close>, results of a blocking call \<open>'o\<close>
  and the state \<open>'s\<close> of runtime and tasks. A \<open>block_on\<close> that does not come back is \<open>None\<close>.
\<close>

record ('f, 'b, 'h, 'a, 'o, 's) executor_traits =
  ex_runtime_type :: "string option"
  ex_spawn :: "'f \<Rightarrow> 's \<Rightarrow> 'h outcome \<times> 's"
  ex_spawn_abortable :: "'f \<Rightarrow> 's \<Rightarrow> 'a outcome \<times> 's"
  ex_spawn_blocking :: "'b \<Rightarrow> 's \<Rightarrow> 'h outcome \<times> 's"
  ex_spawn_blocking_abortable :: "'b \<Rightarrow> 's \<Rightarrow> 'a outcome \<times> 's"
  ex_spawn_timeout :: "nat \<Rightarrow> 'f \<Rightarrow> 's \<Rightarrow> 'h outcome \<times> 's"
  ex_spawn_delay :: "nat \<Rightarrow> 'f \<Rightarrow> 's \<Rightarrow> 'h outcome \<times> 's"
  ex_spawn_abortable_timeout :: "nat \<Rightarrow> 'f \<Rightarrow> 's \<Rightarrow> 'a outcome \<times> 's"
  ex_spawn_abortable_delay :: "nat \<Rightarrow> 'f \<Rightarrow> 's \<Rightarrow> 'a outcome \<times> 's"
  ex_block_on :: "'f \<Rightarrow> 's \<Rightarrow> ('o outcome \<times> 's) option"
  ex_block_on_timeout :: "nat \<Rightarrow> 'f \<Rightarrow> 's \<Rightarrow> ('o outcome \<times> 's) option"
  ex_block_on_delay :: "nat \<Rightarrow> 'f \<Rightarrow> 's \<Rightarrow> ('o outcome \<times> 's) option"

text \<open>
  What the provided methods are made of: the future under a timeout, which is made at once, the future
  behind a delay, and a handle turned into an abortable one.
\<close>

record ('f, 'h, 'a, 's) wrapping =
  with_timeout :: "nat \<Rightarrow> 'f \<Rightarrow> 's \<Rightarrow> 'f \<times> 's"
  with_delay :: "nat \<Rightarrow> 'f \<Rightarrow> 'f"
  into_abortable :: "'h \<Rightarrow> 's \<Rightarrow> 'a \<times> 's"

definition provided_abortable ::
  "('f, 'h, 'a, 's) wrapping \<Rightarrow> ('x \<Rightarrow> 's \<Rightarrow> 'h outcome \<times> 's) \<Rightarrow> 'x \<Rightarrow> 's \<Rightarrow> 'a outcome \<times> 's" where
  "provided_abortable wr spawn x s =
     (case spawn x s of
        (Returned h, s') \<Rightarrow> (case into_abortable wr h s' of (a, s'') \<Rightarrow> (Returned a, s''))
      | (Unwound, s') \<Rightarrow> (Unwound, s'))"

definition provided_timeout ::
  "('f, 'h, 'a, 's) wrapping \<Rightarrow> ('f \<Rightarrow> 's \<Rightarrow> 'r) \<Rightarrow> nat \<Rightarrow> 'f \<Rightarrow> 's \<Rightarrow> 'r" where
  "provided_timeout wr run d f s = (case with_timeout wr d f s of (f', s') \<Rightarrow> run f' s')"

definition provided_delay ::
  "('f, 'h, 'a, 's) wrapping \<Rightarrow> ('f \<Rightarrow> 's \<Rightarrow> 'r) \<Rightarrow> nat \<Rightarrow> 'f \<Rightarrow> 's \<Rightarrow> 'r" where
  "provided_delay wr run d f s = run (with_delay wr d f) s"

text \<open>An executor that implements the required methods and inherits all the others.\<close>

definition plain_executor where
  "plain_executor wr name spawn spawn_blocking block_on =
     (let abortable = provided_abortable wr spawn
      in \<lparr>ex_runtime_type = name, ex_spawn = spawn, ex_spawn_abortable = abortable,
          ex_spawn_blocking = spawn_blocking,
          ex_spawn_blocking_abortable = provided_abortable wr spawn_blocking,
          ex_spawn_timeout = provided_timeout wr spawn, ex_spawn_delay = provided_delay wr spawn,
          ex_spawn_abortable_timeout = provided_timeout wr abortable,
          ex_spawn_abortable_delay = provided_delay wr abortable,
          ex_block_on = block_on, ex_block_on_timeout = provided_timeout wr block_on,
          ex_block_on_delay = provided_delay wr block_on\<rparr>)"

text \<open>\<open>Arc<E>\<close>, \<open>Rc<E>\<close> and \<open>Either<L, R>\<close>, method by method.\<close>

definition arc_executor ::
  "('f, 'h, 'a, 's) wrapping \<Rightarrow> ('f, 'b, 'h, 'a, 'o, 's) executor_traits \<Rightarrow> ('f, 'b, 'h, 'a, 'o, 's) executor_traits" where
  "arc_executor wr e =
     \<lparr>ex_runtime_type = ex_runtime_type e, ex_spawn = ex_spawn e,
      ex_spawn_abortable = provided_abortable wr (ex_spawn e),
      ex_spawn_blocking = ex_spawn_blocking e,
      ex_spawn_blocking_abortable = ex_spawn_blocking_abortable e,
      ex_spawn_timeout = ex_spawn_timeout e, ex_spawn_delay = ex_spawn_delay e,
      ex_spawn_abortable_timeout = ex_spawn_abortable_timeout e,
      ex_spawn_abortable_delay = ex_spawn_abortable_delay e,
      ex_block_on = ex_block_on e, ex_block_on_timeout = provided_timeout wr (ex_block_on e),
      ex_block_on_delay = provided_delay wr (ex_block_on e)\<rparr>"

definition rc_executor ::
  "('f, 'h, 'a, 's) wrapping \<Rightarrow> ('f, 'b, 'h, 'a, 'o, 's) executor_traits \<Rightarrow> ('f, 'b, 'h, 'a, 'o, 's) executor_traits" where
  "rc_executor wr e =
     \<lparr>ex_runtime_type = ex_runtime_type e, ex_spawn = ex_spawn e,
      ex_spawn_abortable = provided_abortable wr (ex_spawn e),
      ex_spawn_blocking = ex_spawn_blocking e,
      ex_spawn_blocking_abortable = provided_abortable wr (ex_spawn_blocking e),
      ex_spawn_timeout = ex_spawn_timeout e, ex_spawn_delay = ex_spawn_delay e,
      ex_spawn_abortable_timeout = ex_spawn_abortable_timeout e,
      ex_spawn_abortable_delay = ex_spawn_abortable_delay e,
      ex_block_on = ex_block_on e, ex_block_on_timeout = provided_timeout wr (ex_block_on e),
      ex_block_on_delay = provided_delay wr (ex_block_on e)\<rparr>"

text \<open>\<open>match self { Left(l) => .., Right(r) => .. }\<close>\<close>

fun either_case :: "('e \<Rightarrow> 'm) \<Rightarrow> 'e + 'e \<Rightarrow> 'm" where
  "either_case m (Inl l) = m l"
| "either_case m (Inr r) = m r"

definition either_executor ::
  "('f, 'h, 'a, 's) wrapping \<Rightarrow> ('f, 'b, 'h, 'a, 'o, 's) executor_traits + ('f, 'b, 'h, 'a, 'o, 's) executor_traits \<Rightarrow>
   ('f, 'b, 'h, 'a, 'o, 's) executor_traits" where
  "either_executor wr e =
     \<lparr>ex_runtime_type = either_case ex_runtime_type e, ex_spawn = either_case ex_spawn e,
      ex_spawn_abortable = provided_abortable wr (either_case ex_spawn e),
      ex_spawn_blocking = either_case ex_spawn_blocking e,
      ex_spawn_blocking_abortable = provided_abortable wr (either_case ex_spawn_blocking e),
      ex_spawn_timeout = either_case ex_spawn_timeout e, ex_spawn_delay = either_case ex_spawn_delay e,
      ex_spawn_abortable_timeout = either_case ex_spawn_abortable_timeout e,
      ex_spawn_abortable_delay = either_case ex_spawn_abortable_delay e,
      ex_block_on = either_case ex_block_on e,
      ex_block_on_timeout = provided_timeout wr (either_case ex_block_on e),
      ex_block_on_delay = provided_delay wr (either_case ex_block_on e)\<rparr>"

text \<open>
  Every runtime of the crate is such an executor, and so is a wrapped one again; then no method of it
  changes behind a wrapper, however deeply wrapped.
\<close>

theorem forwarding_transparent:
  assumes "e = plain_executor wr name spawn spawn_blocking block_on"
  shows "arc_executor wr e = e \<and> rc_executor wr e = e \<and>
    either_executor wr (Inl e) = e \<and> either_executor wr (Inr e) = e"
  unfolding assms
  by (simp add: plain_executor_def arc_executor_def rc_executor_def either_executor_def Let_def)

text \<open>An \<open>Arc\<close> keeps an executor's own \<open>spawn_blocking_abortable\<close>, the others replace it.\<close>

lemma blocking_abortable_kept:
  "ex_spawn_blocking_abortable (arc_executor wr e) = ex_spawn_blocking_abortable e"
  "ex_spawn_blocking_abortable (rc_executor wr e) = provided_abortable wr (ex_spawn_blocking e)"
  "ex_spawn_blocking_abortable (either_executor wr (Inl e)) = provided_abortable wr (ex_spawn_blocking e)"
  by (simp_all add: arc_executor_def rc_executor_def either_executor_def)

end
