(* ===== verification/Runtimes.thy ===== *)
theory Runtimes
  imports Forwarding Task_Context Spawned_Task Lite
begin

text \<open>
  The executors of \<open>src/src/rt\<close>: Tokio's, smol's and Compio's, each as the ambient runtime and as a runtime
  held by the executor, the thread pool, Wasm's, the lite one and the dummy, every one of them as the trait
  methods of \<open>Forwarding\<close>; and \<open>BuiltinExecutor\<close> (\<open>src/src/global/executor.rs\<close>) over them. The runtimes are
  other crates: a record of operations per runtime stands for what is called. Handles are those of
  \<open>Join_Handle\<close>, made by its constructors.
\<close>

section \<open>What is handed to a runtime\<close>

text \<open>
  The future a caller gives, the future that runs a blocking closure on a thread of its own (thread pool
  and lite), the one that runs it in place (Wasm), and \<open>smol::unblock\<close> of it.
\<close>

datatype ('f, 'b) task_body = UserFuture 'f | OnThread 'b | InPlace 'b | Unblocked 'b

text \<open>\<open>abortable_result(future, registration)\<close>, and the block around it with its sender and flag.\<close>

record ('x, 'reg) abortable_task =
  task_future :: 'x
  task_registration :: 'reg

record ('x, 'reg, 'tx) task_block =
  block_task :: "('x, 'reg) abortable_task"
  block_sender :: 'tx
  block_flag :: nat

text \<open>A call that may panic, its answer turned into a join handle.\<close>

definition as_handle :: "('t \<Rightarrow> 'h) \<Rightarrow> 't outcome \<times> 's \<Rightarrow> 'h outcome \<times> 's" where
  "as_handle k r = (map_outcome k (fst r), snd r)"

lemma as_handle_simps [simp]:
  "as_handle k (Returned t, s) = (Returned (k t), s)"
  "as_handle k (Unwound, s) = (Unwound, s)"
  by (simp_all add: as_handle_def)

section \<open>Tokio\<close>

text \<open>
  \<open>tokio::task::spawn\<close>, \<open>spawn_blocking\<close> and \<open>Handle::current\<close> panic outside a runtime; a handle's
  methods do not look at the context.
\<close>

record ('f, 'b, 't, 'hd, 'rn, 'o, 's) tokio_ops =
  tok_spawn :: "'f \<Rightarrow> 's \<Rightarrow> 't outcome \<times> 's"
  tok_spawn_blocking :: "'b \<Rightarrow> 's \<Rightarrow> 't outcome \<times> 's"
  tok_current :: "'s \<Rightarrow> 'hd outcome"
  tok_try_current :: "'s \<Rightarrow> string + 'hd"
  tok_handle_spawn :: "'hd \<Rightarrow> 'f \<Rightarrow> 's \<Rightarrow> 't outcome \<times> 's"
  tok_handle_spawn_blocking :: "'hd \<Rightarrow> 'b \<Rightarrow> 's \<Rightarrow> 't outcome \<times> 's"
  tok_handle_block_on :: "'hd \<Rightarrow> 'f \<Rightarrow> 's \<Rightarrow> ('o outcome \<times> 's) option"
  tok_runtime_handle :: "'rn \<Rightarrow> 'hd"
  tok_runtime_block_on :: "'rn \<Rightarrow> 'f \<Rightarrow> 's \<Rightarrow> ('o outcome \<times> 's) option"
  tok_build_current_thread :: "('s, 'rn) io"
  tok_build_multi_thread :: "('s, 'rn) io"

definition tokio_spawn where
  "tokio_spawn ops f s = as_handle tokio_handle (tok_spawn ops f s)"

definition tokio_spawn_blocking where
  "tokio_spawn_blocking ops b s = as_handle tokio_handle (tok_spawn_blocking ops b s)"

definition tokio_block_on where
  "tokio_block_on ops f s =
     (case tok_current ops s of
        Unwound \<Rightarrow> Some (Unwound, s)
      | Returned h \<Rightarrow> tok_handle_block_on ops h f s)"

definition tokio_executor where
  "tokio_executor wr ops =
     plain_executor wr (Some ''tokio'') (tokio_spawn ops) (tokio_spawn_blocking ops) (tokio_block_on ops)"

text \<open>\<open>TokioRuntimeExecutor\<close>: a handle, and the runtime if it is kept alive here.\<close>

record ('hd, 'rn) tokio_runtime_executor =
  tokio_rt_handle :: 'hd
  tokio_rt_owned :: "'rn option"

definition tokio_with_runtime where
  "tokio_with_runtime ops rn = \<lparr>tokio_rt_handle = tok_runtime_handle ops rn, tokio_rt_owned = Some rn\<rparr>"

definition tokio_with_handle :: "'hd \<Rightarrow> ('hd, 'rn) tokio_runtime_executor" where
  "tokio_with_handle h = \<lparr>tokio_rt_handle = h, tokio_rt_owned = None\<rparr>"

definition tokio_with_single_thread where
  "tokio_with_single_thread ops =
     try_io (tok_build_current_thread ops) (\<lambda>rn. ok_io (tokio_with_runtime ops rn))"

definition tokio_with_multi_thread where
  "tokio_with_multi_thread ops =
     try_io (tok_build_multi_thread ops) (\<lambda>rn. ok_io (tokio_with_runtime ops rn))"

definition tokio_from_current_handle where
  "tokio_from_current_handle ops s =
     (case tok_try_current ops s of
        Inl e \<Rightarrow> fail_io (IoError Other e) s
      | Inr h \<Rightarrow> ok_io (tokio_with_handle h) s)"

definition tokio_runtime_spawn where
  "tokio_runtime_spawn ops ex f s =
     as_handle tokio_handle (tok_handle_spawn ops (tokio_rt_handle ex) f s)"

definition tokio_runtime_spawn_blocking where
  "tokio_runtime_spawn_blocking ops ex b s =
     as_handle tokio_handle (tok_handle_spawn_blocking ops (tokio_rt_handle ex) b s)"

definition tokio_runtime_block_on where
  "tokio_runtime_block_on ops ex f s =
     (case tokio_rt_owned ex of
        None \<Rightarrow> tok_handle_block_on ops (tokio_rt_handle ex) f s
      | Some rn \<Rightarrow> tok_runtime_block_on ops rn f s)"

definition tokio_runtime_traits where
  "tokio_runtime_traits wr ops ex =
     plain_executor wr (Some ''tokio'') (tokio_runtime_spawn ops ex) (tokio_runtime_spawn_blocking ops ex)
       (tokio_runtime_block_on ops ex)"

section \<open>Compio\<close>

record ('f, 'b, 'c, 'rn, 'o, 's) compio_rt_ops =
  cmp_spawn :: "'f \<Rightarrow> 's \<Rightarrow> 'c outcome \<times> 's"
  cmp_spawn_blocking :: "'b \<Rightarrow> 's \<Rightarrow> 'c outcome \<times> 's"
  cmp_current :: "'s \<Rightarrow> 'rn outcome"
  cmp_try_current :: "'s \<Rightarrow> 'rn option"
  cmp_runtime_spawn :: "'rn \<Rightarrow> 'f \<Rightarrow> 's \<Rightarrow> 'c outcome \<times> 's"
  cmp_runtime_spawn_blocking :: "'rn \<Rightarrow> 'b \<Rightarrow> 's \<Rightarrow> 'c outcome \<times> 's"
  cmp_runtime_block_on :: "'rn \<Rightarrow> 'f \<Rightarrow> 's \<Rightarrow> ('o outcome \<times> 's) option"
  cmp_build :: "('s, 'rn) io"

definition compio_spawn where
  "compio_spawn ops f s = as_handle compio_handle (cmp_spawn ops f s)"

definition compio_spawn_blocking where
  "compio_spawn_blocking ops b s = as_handle compio_handle (cmp_spawn_blocking ops b s)"

definition compio_block_on where
  "compio_block_on ops f s =
     (case cmp_current ops s of
        Unwound \<Rightarrow> Some (Unwound, s)
      | Returned rn \<Rightarrow> cmp_runtime_block_on ops rn f s)"

definition compio_executor where
  "compio_executor wr ops =
     plain_executor wr (Some ''compio'') (compio_spawn ops) (compio_spawn_blocking ops) (compio_block_on ops)"

text \<open>\<open>CompioRuntimeExecutor\<close> is the runtime it holds.\<close>

record 'rn compio_runtime_executor =
  compio_rt :: 'rn

definition compio_with_runtime :: "'rn \<Rightarrow> 'rn compio_runtime_executor" where
  "compio_with_runtime rn = \<lparr>compio_rt = rn\<rparr>"

definition compio_runtime_new where
  "compio_runtime_new ops = try_io (cmp_build ops) (\<lambda>rn. ok_io (compio_with_runtime rn))"

definition compio_from_current_runtime where
  "compio_from_current_runtime ops s =
     (case cmp_try_current ops s of
        None \<Rightarrow> fail_io (IoError Other ''no runtime running'') s
      | Some rn \<Rightarrow> ok_io (compio_with_runtime rn) s)"

definition compio_runtime_spawn where
  "compio_runtime_spawn ops ex f s = as_handle compio_handle (cmp_runtime_spawn ops (compio_rt ex) f s)"

definition compio_runtime_spawn_blocking where
  "compio_runtime_spawn_blocking ops ex b s =
     as_handle compio_handle (cmp_runtime_spawn_blocking ops (compio_rt ex) b s)"

definition compio_runtime_traits where
  "compio_runtime_traits wr ops ex =
     plain_executor wr (Some ''compio'') (compio_runtime_spawn ops ex) (compio_runtime_spawn_blocking ops ex)
       (\<lambda>f. cmp_runtime_block_on ops (compio_rt ex) f)"

section \<open>Smol\<close>

record ('f, 'b, 'ab, 'reg, 'k, 'ex, 'o, 's) smol_ops =
  sml_new_pair :: "'s \<Rightarrow> ('ab \<times> 'reg) \<times> 's"
  sml_spawn :: "(('f, 'b) task_body, 'reg) abortable_task \<Rightarrow> 's \<Rightarrow> 'k outcome \<times> 's"
  sml_block_on :: "'f \<Rightarrow> 's \<Rightarrow> ('o outcome \<times> 's) option"
  sml_new :: "'s \<Rightarrow> 'ex \<times> 's"
  sml_executor_spawn :: "'ex \<Rightarrow> (('f, 'b) task_body, 'reg) abortable_task \<Rightarrow> 's \<Rightarrow> 'k outcome \<times> 's"
  sml_run :: "'ex \<Rightarrow> 'f \<Rightarrow> 'f"

text \<open>
  Both smol executors put \<open>abortable_result\<close> around the future and keep the abort handle; a blocking
  closure is the future \<open>smol::unblock\<close> makes of it.
\<close>

definition smol_spawn_abortable where
  "smol_spawn_abortable ops spawn x s =
     (case sml_new_pair ops s of ((ab, reg), s1) \<Rightarrow>
        as_handle (\<lambda>t. smol_handle t ab) (spawn \<lparr>task_future = x, task_registration = reg\<rparr> s1))"

definition smol_spawn where
  "smol_spawn ops f = smol_spawn_abortable ops (sml_spawn ops) (UserFuture f)"

definition smol_spawn_blocking where
  "smol_spawn_blocking ops b = smol_spawn_abortable ops (sml_spawn ops) (Unblocked b)"

definition smol_executor where
  "smol_executor wr ops =
     plain_executor wr (Some ''smol'') (smol_spawn ops) (smol_spawn_blocking ops) (sml_block_on ops)"

definition smol_runtime_new where
  "smol_runtime_new ops s = sml_new ops s"

definition smol_runtime_spawn where
  "smol_runtime_spawn ops ex f = smol_spawn_abortable ops (sml_executor_spawn ops ex) (UserFuture f)"

definition smol_runtime_spawn_blocking where
  "smol_runtime_spawn_blocking ops ex b = smol_spawn_abortable ops (sml_executor_spawn ops ex) (Unblocked b)"

definition smol_runtime_block_on where
  "smol_runtime_block_on ops ex f = sml_block_on ops (sml_run ops ex f)"

definition smol_runtime_traits where
  "smol_runtime_traits wr ops ex =
     plain_executor wr (Some ''smol'') (smol_runtime_spawn ops ex) (smol_runtime_spawn_blocking ops ex)
       (smol_runtime_block_on ops ex)"

section \<open>Thread pool, Wasm and lite\<close>

text \<open>
  The three make the same block around the future: an abort pair, a oneshot channel for the result, and
  the finished flag.
\<close>

record ('ab, 'reg, 'tx, 'rx, 's) block_parts =
  blk_new_pair :: "'s \<Rightarrow> ('ab \<times> 'reg) \<times> 's"
  blk_channel :: "'s \<Rightarrow> ('tx \<times> 'rx) \<times> 's"
  blk_flag :: "'s \<Rightarrow> nat \<times> 's"

definition spawn_block ::
  "('b, 'reg, 'tx, 'o, 's) block_parts \<Rightarrow> (('x, 'reg, 'tx) task_block \<Rightarrow> 's \<Rightarrow> unit outcome \<times> 's) \<Rightarrow> 'x \<Rightarrow>
   's \<Rightarrow> ('t, 'c, 'k, 'm, 'b, 'o, 'a) join_handle outcome \<times> 's" where
  "spawn_block ops submit x s =
     (case blk_new_pair ops s of ((ab, reg), s1) \<Rightarrow>
      case blk_channel ops s1 of ((tx, rx), s2) \<Rightarrow>
      case blk_flag ops s2 of (fl, s3) \<Rightarrow>
        as_handle (\<lambda>u. CustomHandle rx ab fl)
          (submit \<lparr>block_task = \<lparr>task_future = x, task_registration = reg\<rparr>, block_sender = tx, block_flag = fl\<rparr>
             s3))"

text \<open>
  \<open>ThreadPoolExecutor\<close>: \<open>spawn_ok\<close> of the one pool of the process, whose creation may panic, and
  \<open>futures::executor::block_on\<close>.
\<close>

definition threadpool_spawn where
  "threadpool_spawn ops spawn_ok f = spawn_block ops spawn_ok (UserFuture f)"

definition threadpool_spawn_blocking where
  "threadpool_spawn_blocking ops spawn_ok b = spawn_block ops spawn_ok (OnThread b)"

definition threadpool_executor where
  "threadpool_executor wr ops spawn_ok block_on =
     plain_executor wr (Some ''threadpool'') (threadpool_spawn ops spawn_ok)
       (threadpool_spawn_blocking ops spawn_ok) block_on"

text \<open>\<open>WasmExecutor\<close>: \<open>spawn_local\<close>; \<open>block_on\<close> is not implemented.\<close>

definition wasm_spawn where
  "wasm_spawn ops spawn_local f = spawn_block ops spawn_local (UserFuture f)"

definition wasm_spawn_blocking where
  "wasm_spawn_blocking ops spawn_local b = spawn_block ops spawn_local (InPlace b)"

definition wasm_block_on :: "'f \<Rightarrow> 's \<Rightarrow> ('o outcome \<times> 's) option" where
  "wasm_block_on f s = Some (Unwound, s)"

definition wasm_executor where
  "wasm_executor wr ops spawn_local =
     plain_executor wr (Some ''wasm'') (wasm_spawn ops spawn_local) (wasm_spawn_blocking ops spawn_local)
       wasm_block_on"

text \<open>
  \<open>LiteRuntimeExecutor\<close>: the boxed block goes to the queue of \<open>Lite\<close>, whose \<open>block_on\<close> drives it. The
  state is the queue beside everything else.
\<close>

definition lite_submit ::
  "'aw waker_ops \<Rightarrow> ('k \<Rightarrow> 't) \<Rightarrow> 'k \<Rightarrow> ('t, 'aw) lite \<times> 'u \<Rightarrow> unit outcome \<times> ('t, 'aw) lite \<times> 'u" where
  "lite_submit wops boxed blk s = (case s of (st, u) \<Rightarrow> (Returned (), lite_spawn wops (boxed blk) st, u))"

definition lite_runtime_spawn where
  "lite_runtime_spawn ops wops boxed f = spawn_block ops (lite_submit wops boxed) (UserFuture f)"

definition lite_runtime_spawn_blocking where
  "lite_runtime_spawn_blocking ops wops boxed b = spawn_block ops (lite_submit wops boxed) (OnThread b)"

definition lite_runtime_block_on where
  "lite_runtime_block_on poll main wops me others f s =
     (case s of (st, u) \<Rightarrow>
      case lite_block_on poll main wops me others f u st of
        None \<Rightarrow> None
      | Some (r, u', st') \<Rightarrow> Some (r, st', u'))"

definition lite_runtime_traits where
  "lite_runtime_traits wr ops poll main wops me others boxed =
     plain_executor wr (Some ''lite'') (lite_runtime_spawn ops wops boxed)
       (lite_runtime_spawn_blocking ops wops boxed) (lite_runtime_block_on poll main wops me others)"

text \<open>\<open>LiteExecutor\<close>: every method is that of the one shared runtime.\<close>

definition lite_executor where
  "lite_executor wr shared =
     plain_executor wr (Some ''lite'') (ex_spawn shared) (ex_spawn_blocking shared) (ex_block_on shared)"

section \<open>The dummy executor\<close>

definition missing_runtime :: "'x \<Rightarrow> 's \<Rightarrow> 'r outcome \<times> 's" where
  "missing_runtime x s = (Unwound, s)"

definition dummy_executor where
  "dummy_executor wr =
     plain_executor wr (Some ''dummy'') missing_runtime missing_runtime (\<lambda>f s. Some (missing_runtime f s))"

section \<open>\<open>BuiltinExecutor\<close>\<close>

record ('f, 'b, 'h, 'a, 'o, 's) runtimes =
  rt_tokio :: "('f, 'b, 'h, 'a, 'o, 's) executor_traits"
  rt_smol :: "('f, 'b, 'h, 'a, 'o, 's) executor_traits"
  rt_compio :: "('f, 'b, 'h, 'a, 'o, 's) executor_traits"
  rt_threadpool :: "('f, 'b, 'h, 'a, 'o, 's) executor_traits"
  rt_wasm :: "('f, 'b, 'h, 'a, 'o, 's) executor_traits"
  rt_lite :: "('f, 'b, 'h, 'a, 'o, 's) executor_traits"
  rt_dummy :: "('f, 'b, 'h, 'a, 'o, 's) executor_traits"

fun backend_of :: "('f, 'b, 'h, 'a, 'o, 's) runtimes \<Rightarrow> builtin_executor \<Rightarrow> ('f, 'b, 'h, 'a, 'o, 's) executor_traits"
where
  "backend_of rts Tokio = rt_tokio rts"
| "backend_of rts Smol = rt_smol rts"
| "backend_of rts Compio = rt_compio rts"
| "backend_of rts ThreadPool = rt_threadpool rts"
| "backend_of rts Wasm = rt_wasm rts"
| "backend_of rts LiteExec = rt_lite rts"
| "backend_of rts Dummy = rt_dummy rts"

text \<open>The built-in executor as an executor: its futures and closures carry it.\<close>

definition builtin_traits where
  "builtin_traits wr rts e =
     plain_executor wr (ex_runtime_type (backend_of rts e))
       (builtin_spawn (\<lambda>e. ex_spawn (backend_of rts e)) e)
       (builtin_spawn_blocking (\<lambda>e. ex_spawn_blocking (backend_of rts e)) e)
       (builtin_block_on (\<lambda>e. ex_block_on (backend_of rts e)) e)"

text \<open>Each executor says the name that \<open>BuiltinExecutor::runtime_type\<close> has for it.\<close>

lemma executor_names:
  "ex_runtime_type (tokio_executor wr tops) = Some (runtime_type Tokio)"
  "ex_runtime_type (smol_executor wr sops) = Some (runtime_type Smol)"
  "ex_runtime_type (compio_executor wr cops) = Some (runtime_type Compio)"
  "ex_runtime_type (threadpool_executor wr bops spawn_ok blk) = Some (runtime_type ThreadPool)"
  "ex_runtime_type (wasm_executor wr bops spawn_local) = Some (runtime_type Wasm)"
  "ex_runtime_type (lite_executor wr shared) = Some (runtime_type LiteExec)"
  "ex_runtime_type (dummy_executor wr) = Some (runtime_type Dummy)"
  by (simp_all add: tokio_executor_def smol_executor_def compio_executor_def threadpool_executor_def
      wasm_executor_def lite_executor_def dummy_executor_def plain_executor_def Let_def)

text \<open>\<open>Arc\<close>, \<open>Rc\<close> and \<open>Either\<close> around the built-in executor change no method.\<close>

lemma builtin_forwarded:
  "arc_executor wr (builtin_traits wr rts e) = builtin_traits wr rts e"
  "rc_executor wr (builtin_traits wr rts e) = builtin_traits wr rts e"
  "either_executor wr (Inl (builtin_traits wr rts e)) = builtin_traits wr rts e"
  "either_executor wr (Inr (builtin_traits wr rts e)) = builtin_traits wr rts e"
  using forwarding_transparent [OF builtin_traits_def [of wr rts e]] by simp_all

text \<open>A future handed to Tokio's runtime is polled by the runtime, which is the owned one if there is one.\<close>

lemma tokio_runtime_choice:
  "tokio_runtime_block_on ops (tokio_with_runtime ops rn) f s = tok_runtime_block_on ops rn f s"
  "tokio_runtime_block_on ops (tokio_with_handle h) f s = tok_handle_block_on ops h f s"
  "tokio_runtime_spawn ops (tokio_with_runtime ops rn) f s =
     tokio_runtime_spawn ops (tokio_with_handle (tok_runtime_handle ops rn)) f s"
  by (simp_all add: tokio_runtime_block_on_def tokio_with_runtime_def tokio_with_handle_def
      tokio_runtime_spawn_def)

text \<open>Nothing runs on the dummy executor, and what is entered before the panic is what was there.\<close>

lemma dummy_refuses:
  "ex_spawn (dummy_executor wr) f s = (Unwound, s)"
  "ex_spawn_blocking (dummy_executor wr) f s = (Unwound, s)"
  "ex_block_on (dummy_executor wr) f s = Some (Unwound, s)"
  by (simp_all add: dummy_executor_def missing_runtime_def plain_executor_def Let_def)

end
