(* ===== verification/Blocking_Tasks.thy ===== *)
theory Blocking_Tasks
  imports Runtimes
begin

text \<open>
  \<open>spawn_blocking\<close> of the thread pool, the lite runtime and Wasm (\<open>src/src/rt/threadpool.rs\<close>,
  \<open>src/src/rt/lite.rs\<close>, \<open>src/src/rt/wasm.rs\<close>): the futures \<open>OnThread\<close> and \<open>InPlace\<close> of \<open>Runtimes\<close>. The
  first starts a thread for the closure on its first poll and awaits a oneshot channel that the thread
  sends the result on; it is modelled together with the thread, step by step and in any order.
\<close>

section \<open>A closure on a thread\<close>

text \<open>
  The thread still to run the closure, the channel back to the task, what the closure did each time it
  was called, and everything else.
\<close>

record ('b, 'v, 'u) thread_cell =
  job :: "'b option"
  reply :: "'v channel"
  calls :: "'v outcome list"
  around :: 'u

definition start_thread :: "'b \<Rightarrow> ('b, 'v, 'u) thread_cell \<Rightarrow> ('b, 'v, 'u) thread_cell" where
  "start_thread f c = c\<lparr>job := Some f, reply := Open\<rparr>"

text \<open>
  The body of the thread: the value is sent; a closure that unwinds takes the sender with it, and the
  thread ends there.
\<close>

definition run_thread ::
  "('b \<Rightarrow> 'u \<Rightarrow> 'v outcome \<times> 'u) \<Rightarrow> ('b, 'v, 'u) thread_cell \<Rightarrow> ('b, 'v, 'u) thread_cell" where
  "run_thread call c =
     (case job c of
        None \<Rightarrow> c
      | Some f \<Rightarrow>
          (case call f (around c) of
             (Returned v, u) \<Rightarrow>
               c\<lparr>job := None, reply := Sent v, calls := calls c @ [Returned v], around := u\<rparr>
           | (Unwound, u) \<Rightarrow>
               c\<lparr>job := None, reply := Closed, calls := calls c @ [Unwound], around := u\<rparr>))"

datatype 'b blocking_future = ToStart 'b | Awaiting | Resolved

text \<open>\<open>rx.await.expect(..)\<close>: a channel closed without a value unwinds.\<close>

definition receive_reply ::
  "('b, 'v, 'u) thread_cell \<Rightarrow> 'v poll outcome \<times> 'b blocking_future \<times> ('b, 'v, 'u) thread_cell" where
  "receive_reply c =
     (case reply c of
        Open \<Rightarrow> (Returned Pending, Awaiting, c)
      | Sent v \<Rightarrow> (Returned (Ready v), Resolved, c)
      | Closed \<Rightarrow> (Unwound, Resolved, c))"

text \<open>
  \<open>std::thread::spawn\<close> panics when the system gives no thread; a new thread may have run to its end
  before the channel is looked at.
\<close>

datatype launch = Refused | Launched | RanAtOnce

fun blocking_poll ::
  "('b \<Rightarrow> 'u \<Rightarrow> 'v outcome \<times> 'u) \<Rightarrow> launch \<Rightarrow>
   ('b blocking_future, 'v, ('b, 'v, 'u) thread_cell) user_poll" where
  "blocking_poll call Refused (ToStart f) c = (Unwound, Resolved, c)"
| "blocking_poll call Launched (ToStart f) c = receive_reply (start_thread f c)"
| "blocking_poll call RanAtOnce (ToStart f) c = receive_reply (run_thread call (start_thread f c))"
| "blocking_poll call l Awaiting c = receive_reply c"
| "blocking_poll call l Resolved c = (Unwound, Resolved, c)"

section \<open>A closure in place\<close>

text \<open>Wasm: the first poll calls the closure, and the value is kept over one \<open>yield_now\<close>.\<close>

datatype ('b, 'v) inplace_future = ToCall 'b | Yielding 'v bool | InPlaceOver

fun inplace_poll ::
  "('b \<Rightarrow> 'u \<Rightarrow> 'v outcome \<times> 'u) \<Rightarrow> (('b, 'v) inplace_future, 'v, 'u) user_poll" where
  "inplace_poll call (ToCall f) u =
     (case call f u of
        (Unwound, u') \<Rightarrow> (Unwound, InPlaceOver, u')
      | (Returned v, u') \<Rightarrow>
          (case yield_poll False of
             (Pending, y, woke) \<Rightarrow> (Returned Pending, Yielding v y, u')
           | (Ready _, y, woke) \<Rightarrow> (Returned (Ready v), InPlaceOver, u')))"
| "inplace_poll call (Yielding v yielded) u =
     (case yield_poll yielded of
        (Pending, y, woke) \<Rightarrow> (Returned Pending, Yielding v y, u)
      | (Ready _, y, woke) \<Rightarrow> (Returned (Ready v), InPlaceOver, u))"
| "inplace_poll call InPlaceOver u = (Unwound, InPlaceOver, u)"

text \<open>The closure is called by the first poll and its value is the answer of the second.\<close>

lemma inplace_two_polls:
  "call f u = (Returned v, u') \<Longrightarrow>
   inplace_poll call (ToCall f) u = (Returned Pending, Yielding v True, u') \<and>
   inplace_poll call (Yielding v True) u'' = (Returned (Ready v), InPlaceOver, u'')"
  by (simp add: yield_poll_def)

section \<open>Task, thread and aborts in any order\<close>

type_synonym ('b, 'v, 'u) blocking_state =
  "'b blocking_future wrapped \<times> ('b, 'v, 'u) thread_cell cell"

definition in_outside :: "('w \<Rightarrow> 'w) \<Rightarrow> 'w cell \<Rightarrow> 'w cell" where
  "in_outside g c = c\<lparr>outside := g (outside c)\<rparr>"

lemma in_outside_simps [simp]:
  "finished (in_outside g c) = finished c"
  "outside (in_outside g c) = g (outside c)"
  by (simp_all add: in_outside_def)

inductive blocking_step ::
  "('b blocking_future, unit + 'v, 'v join_result, ('b, 'v, 'u) thread_cell) futures_ops \<Rightarrow>
   ('b \<Rightarrow> 'u \<Rightarrow> 'v outcome \<times> 'u) \<Rightarrow> launch \<Rightarrow> bool \<Rightarrow> ('b, 'v, 'u) blocking_state \<Rightarrow>
   ('b, 'v, 'u) blocking_state \<Rightarrow> bool"
  for ops call l drops where
  TaskPolled: "wrapped_poll ops (blocking_poll call l) (Live b) c = (out, t', c') \<Longrightarrow>
     blocking_step ops call l drops (Live b, c) (t', c')"
| ThreadRuns: "blocking_step ops call l drops (t, c) (t, in_outside (run_thread call) c)"
| AbortRequested: "blocking_step ops call l drops (t, c) (t, in_outside (ab_request ops) c)"
| TaskDropped: "drops \<Longrightarrow> blocking_step ops call l drops (t, c) (Over, wrapped_drop ops t c)"

inductive blocking_reach ::
  "('b blocking_future, unit + 'v, 'v join_result, ('b, 'v, 'u) thread_cell) futures_ops \<Rightarrow>
   ('b \<Rightarrow> 'u \<Rightarrow> 'v outcome \<times> 'u) \<Rightarrow> launch \<Rightarrow> bool \<Rightarrow> ('b, 'v, 'u) blocking_state \<Rightarrow>
   ('b, 'v, 'u) blocking_state \<Rightarrow> bool"
  for ops call l drops s where
  Spawned: "blocking_reach ops call l drops s s"
| Then: "blocking_reach ops call l drops s s' \<Longrightarrow> blocking_step ops call l drops s' s'' \<Longrightarrow>
     blocking_reach ops call l drops s s''"

text \<open>
  The abort flag and the result channel of the task are not the closure's channel, and the closure leaves
  the result channel alone; it may request the abort.
\<close>

definition thread_frames ::
  "('b blocking_future, unit + 'v, 'v join_result, ('b, 'v, 'u) thread_cell) futures_ops \<Rightarrow>
   ('b \<Rightarrow> 'u \<Rightarrow> 'v outcome \<times> 'u) \<Rightarrow> bool" where
  "thread_frames ops call \<longleftrightarrow>
     (\<forall>w m. job (os_send ops m w) = job w \<and> reply (os_send ops m w) = reply w \<and>
        calls (os_send ops m w) = calls w \<and> ab_requested ops (os_send ops m w) = ab_requested ops w) \<and>
     (\<forall>w. job (os_drop ops w) = job w \<and> reply (os_drop ops w) = reply w \<and>
        calls (os_drop ops w) = calls w) \<and>
     (\<forall>w. job (ab_request ops w) = job w \<and> reply (ab_request ops w) = reply w \<and>
        calls (ab_request ops w) = calls w) \<and>
     (\<forall>w j r cs. os_state ops (w\<lparr>job := j, reply := r, calls := cs\<rparr>) = os_state ops w \<and>
        ab_requested ops (w\<lparr>job := j, reply := r, calls := cs\<rparr>) = ab_requested ops w) \<and>
     (\<forall>f w. let w' = w\<lparr>around := snd (call f (around w))\<rparr> in
        os_state ops w' = os_state ops w \<and> (ab_requested ops w \<longrightarrow> ab_requested ops w'))"

section \<open>The invariant\<close>

text \<open>Whether the closure was not called yet, or was called and its result is on the channel.\<close>

fun reply_of :: "'v outcome \<Rightarrow> 'v channel" where
  "reply_of (Returned v) = Sent v"
| "reply_of Unwound = Closed"

fun result_of :: "'v outcome \<Rightarrow> 'v join_result" where
  "result_of (Returned v) = Inr v"
| "result_of Unwound = Inl Panicked"

lemma reply_of_eq [simp]:
  "reply_of r = Sent v \<longleftrightarrow> r = Returned v" "Sent v = reply_of r \<longleftrightarrow> r = Returned v"
  "reply_of r = Closed \<longleftrightarrow> r = Unwound" "Closed = reply_of r \<longleftrightarrow> r = Unwound"
  "reply_of r \<noteq> Open" "Open \<noteq> reply_of r"
  by (cases r; auto)+

definition on_thread :: "('b, 'v, 'u) thread_cell \<Rightarrow> bool" where
  "on_thread w \<longleftrightarrow> (\<exists>f. job w = Some f) \<and> calls w = [] \<and> reply w = Open \<or>
     job w = None \<and> (\<exists>r. calls w = [r] \<and> reply w = reply_of r)"

text \<open>A result the task may have: the closure's, or that of an abort.\<close>

definition justified ::
  "('b blocking_future, unit + 'v, 'v join_result, ('b, 'v, 'u) thread_cell) futures_ops \<Rightarrow> launch \<Rightarrow>
   ('b, 'v, 'u) thread_cell \<Rightarrow> 'v join_result \<Rightarrow> bool" where
  "justified ops l w r \<longleftrightarrow>
     (\<exists>o'. calls w = [o'] \<and> r = result_of o') \<or>
     l = Refused \<and> r = Inl Panicked \<or>
     ab_requested ops w \<and> r = Inl Aborted"

fun blocking_inv ::
  "('b blocking_future, unit + 'v, 'v join_result, ('b, 'v, 'u) thread_cell) futures_ops \<Rightarrow> launch \<Rightarrow>
   bool \<Rightarrow> ('b, 'v, 'u) blocking_state \<Rightarrow> bool" where
  "blocking_inv ops l drops (Live (ToStart f), c) \<longleftrightarrow>
     os_state ops (outside c) = Open \<and> job (outside c) = None \<and> calls (outside c) = []"
| "blocking_inv ops l drops (Live Awaiting, c) \<longleftrightarrow> os_state ops (outside c) = Open \<and> on_thread (outside c)"
| "blocking_inv ops l drops (Live Resolved, c) \<longleftrightarrow> False"
| "blocking_inv ops l drops (Over, c) \<longleftrightarrow>
     (calls (outside c) = [] \<or> on_thread (outside c)) \<and>
     (os_state ops (outside c) = Closed \<and> drops \<or>
      (\<exists>r. os_state ops (outside c) = Sent r \<and> justified ops l (outside c) r))"

lemma frames_send:
  assumes "thread_frames ops call"
  shows "job (os_send ops m w) = job w" "reply (os_send ops m w) = reply w"
    "calls (os_send ops m w) = calls w" "ab_requested ops (os_send ops m w) = ab_requested ops w"
    "job (os_drop ops w) = job w" "reply (os_drop ops w) = reply w" "calls (os_drop ops w) = calls w"
    "job (ab_request ops w) = job w" "reply (ab_request ops w) = reply w"
    "calls (ab_request ops w) = calls w"
  using assms unfolding thread_frames_def by blast+

lemma frames_fields:
  assumes "thread_frames ops call"
  shows "os_state ops (w\<lparr>job := j, reply := r, calls := cs\<rparr>) = os_state ops w"
    "ab_requested ops (w\<lparr>job := j, reply := r, calls := cs\<rparr>) = ab_requested ops w"
    "os_state ops (w\<lparr>job := j, reply := r\<rparr>) = os_state ops w"
    "ab_requested ops (w\<lparr>job := j, reply := r\<rparr>) = ab_requested ops w"
proof -
  have f: "os_state ops (w\<lparr>job := j, reply := r, calls := cs\<rparr>) = os_state ops w \<and>
      ab_requested ops (w\<lparr>job := j, reply := r, calls := cs\<rparr>) = ab_requested ops w" for cs
    using assms unfolding thread_frames_def by blast
  from f [of cs] show "os_state ops (w\<lparr>job := j, reply := r, calls := cs\<rparr>) = os_state ops w"
    "ab_requested ops (w\<lparr>job := j, reply := r, calls := cs\<rparr>) = ab_requested ops w" by blast+
  from f [of "calls w"] show "os_state ops (w\<lparr>job := j, reply := r\<rparr>) = os_state ops w"
    "ab_requested ops (w\<lparr>job := j, reply := r\<rparr>) = ab_requested ops w" by simp_all
qed

lemma frames_call:
  assumes "thread_frames ops call" and "call f (around w) = (r, u)"
  shows "os_state ops (w\<lparr>around := u\<rparr>) = os_state ops w"
    and "ab_requested ops w \<Longrightarrow> ab_requested ops (w\<lparr>around := u\<rparr>)"
  using assms unfolding thread_frames_def Let_def by (metis snd_conv)+

lemma run_thread_frame:
  assumes "thread_frames ops call"
  shows "os_state ops (run_thread call w) = os_state ops w"
    and "ab_requested ops w \<Longrightarrow> ab_requested ops (run_thread call w)"
proof -
  have reorder: "w\<lparr>job := j, reply := q, calls := cs, around := u\<rparr> =
      w\<lparr>around := u\<rparr>\<lparr>job := j, reply := q, calls := cs\<rparr>" for j q cs u
    by simp
  show "os_state ops (run_thread call w) = os_state ops w"
    by (auto simp: run_thread_def reorder frames_fields [OF assms] frames_call [OF assms]
        split: option.split prod.split outcome.split simp del: thread_cell.update_convs)
  show "ab_requested ops (run_thread call w)" if "ab_requested ops w"
    using that by (auto simp: run_thread_def reorder frames_fields [OF assms] frames_call [OF assms]
        split: option.split prod.split outcome.split simp del: thread_cell.update_convs)
qed

lemma start_thread_frame:
  assumes "thread_frames ops call"
  shows "os_state ops (start_thread f w) = os_state ops w"
    and "ab_requested ops (start_thread f w) = ab_requested ops w"
  by (simp_all add: start_thread_def frames_fields [OF assms])

lemma run_thread_on:
  "calls w = [] \<or> on_thread w \<Longrightarrow> calls (run_thread call w) = [] \<or> on_thread (run_thread call w)"
  "on_thread w \<Longrightarrow> on_thread (run_thread call w)"
  by (auto simp: run_thread_def on_thread_def split: option.splits prod.splits outcome.splits)

lemma run_thread_once:
  "calls w = [] \<or> on_thread w \<Longrightarrow> calls w = [r] \<Longrightarrow> calls (run_thread call w) = [r]"
  by (auto simp: run_thread_def on_thread_def)

section \<open>Every step keeps the invariant\<close>

lemma justified_result: "calls w = [r] \<Longrightarrow> justified ops l w (result_of r)"
  by (auto simp: justified_def)

lemma expected_result_of:
  "expected_result False (Returned (Ready v)) = result_of (Returned v)"
  "expected_result False (Unwound :: 'v poll outcome) = result_of Unwound"
  by simp_all

lemma receive_reply_on_thread:
  assumes "on_thread w" and "receive_reply w = (out, b', x)"
  shows "x = w \<and> (out = Returned Pending \<and> b' = Awaiting \<or>
    out \<noteq> Returned Pending \<and> justified ops l w (expected_result False out))"
  using assms
  by (auto simp: receive_reply_def on_thread_def justified_def split: channel.splits)

text \<open>One poll of the blocking future.\<close>

lemma blocking_poll_spec:
  assumes fr: "thread_frames ops call" and inv: "blocking_inv ops l drops (Live b, c)"
    and poll: "blocking_poll call l b (outside c) = (out, b', x)"
  shows "os_state ops x = Open \<and> (calls x = [] \<or> on_thread x) \<and>
    (out = Returned Pending \<and> b' = Awaiting \<and> on_thread x \<or>
     out \<noteq> Returned Pending \<and> justified ops l x (expected_result False out))"
proof (cases b)
  case (ToStart f)
  have st: "on_thread (start_thread f (outside c))" and op: "os_state ops (outside c) = Open"
    using inv ToStart by (auto simp: on_thread_def start_thread_def)
  show ?thesis
  proof (cases l)
    case Refused
    with poll ToStart inv show ?thesis by (auto simp: justified_def)
  next
    case Launched
    with poll ToStart receive_reply_on_thread [OF st, of out b' x ops l] st op
    show ?thesis by (auto simp: start_thread_frame [OF fr])
  next
    case RanAtOnce
    note ran = run_thread_on(2) [OF st, of call]
    from RanAtOnce poll ToStart receive_reply_on_thread [OF ran, of out b' x ops l] ran op
    show ?thesis by (auto simp: start_thread_frame [OF fr] run_thread_frame [OF fr])
  qed
next
  case Awaiting
  with inv have "on_thread (outside c)" and "os_state ops (outside c) = Open" by simp_all
  with poll Awaiting receive_reply_on_thread [of "outside c" out b' x ops l]
  show ?thesis by (cases l) auto
next
  case Resolved
  with inv show ?thesis by simp
qed

lemma sent_inv:
  assumes "futures_laws ops" and "thread_frames ops call" and "os_state ops x = Open"
    and "calls x = [] \<or> on_thread x" and "justified ops l x r"
    and "outside c = os_send ops r x"
  shows "blocking_inv ops l drops (Over, c)"
  using assms(4,5,6) channel_recv(4) [OF assms(1,3)]
  by (auto simp: drop_completion_def on_thread_def justified_def frames_send [OF assms(2)])

lemma polled_inv:
  assumes laws: "futures_laws ops" and fr: "thread_frames ops call"
    and inv: "blocking_inv ops l drops (Live b, c)"
    and w: "wrapped_poll ops (blocking_poll call l) (Live b) c = (out, t', c')"
  shows "blocking_inv ops l drops (t', c')"
proof -
  have op: "os_state ops (outside c) = Open" and cl: "calls (outside c) = [] \<or> on_thread (outside c)"
    using inv by (cases b; simp)+
  obtain o' b' x where u: "blocking_poll call l b (outside c) = (o', b', x)"
    by (cases "blocking_poll call l b (outside c)")
  from blocking_poll_spec [OF fr inv u] have
    x: "os_state ops x = Open" "calls x = [] \<or> on_thread x" and
    o': "o' = Returned Pending \<and> b' = Awaiting \<and> on_thread x \<or>
      o' \<noteq> Returned Pending \<and> justified ops l x (expected_result False o')" by blast+
  have over: "blocking_inv ops l drops (t', c')"
    if "abortable_result ops (blocking_poll call l) b (outside c) = (Ready r, f', w')"
      "os_state ops w' = Open" "calls w' = [] \<or> on_thread w'" "justified ops l w' r" for r f' w'
    using w that(1) sent_inv [OF laws fr that(2,3,4), of c' drops] by (auto simp: drop_completion_def)
  show ?thesis
  proof (cases "ab_requested ops (outside c)")
    case True
    with over [OF futures_abort [OF laws True] op cl] show ?thesis by (simp add: justified_def)
  next
    case live: False
    show ?thesis
    proof (cases "o' = Returned Pending")
      case True
      with o' u have "blocking_poll call l b (outside c) = (Returned Pending, Awaiting, x)" by simp
      note fp = futures_pending [where user = "blocking_poll call l", OF laws live this]
      show ?thesis
      proof (cases "ab_requested ops x")
        case True
        with over [of "Inl Aborted" Awaiting x] fp x show ?thesis by (simp add: justified_def)
      next
        case False
        with fp w o' True x have "t' = Live Awaiting" and "c' = c\<lparr>outside := x\<rparr>" by auto
        with x o' True show ?thesis by simp
      qed
    next
      case False
      with o' have j: "justified ops l x (expected_result False o')" by blast
      from False have "abortable_result ops (blocking_poll call l) b (outside c) =
          (Ready (expected_result False o'), b', x)"
        using futures_ready [OF laws live, of "blocking_poll call l" b] u
        by (cases o') (auto, metis expected_result.simps(3) poll.exhaust)
      from over [OF this x j] show ?thesis .
    qed
  qed
qed

lemma ran_inv:
  assumes "thread_frames ops call" and "blocking_inv ops l drops (t, c)"
  shows "blocking_inv ops l drops (t, in_outside (run_thread call) c)"
  using assms(2)
proof (cases "(ops, l, drops, t, c)" rule: blocking_inv.cases)
  case (1 ops' l' drops' f c')
  with assms show ?thesis
    by (simp add: run_thread_frame(1) [OF assms(1)]) (simp add: run_thread_def)
next
  case (2 ops' l' drops' c')
  with assms(2) run_thread_frame(1) [OF assms(1), of "outside c"] run_thread_on(2) [of "outside c" call]
  show ?thesis by simp
next
  case (3 ops' l' drops' c')
  with assms show ?thesis by simp
next
  case (4 ops' l' drops' c')
  have "justified ops l (outside c) r \<Longrightarrow> calls (outside c) = [] \<or> on_thread (outside c) \<Longrightarrow>
      justified ops l (run_thread call (outside c)) r" for r
    using run_thread_once [of "outside c" _ call] run_thread_frame(2) [OF assms(1), of "outside c"]
    by (auto simp: justified_def)
  with 4 assms(2) run_thread_on(1) [of "outside c" call] run_thread_frame(1) [OF assms(1), of "outside c"]
  show ?thesis by auto
qed

lemma requested_inv:
  assumes "futures_laws ops" and "thread_frames ops call" and "blocking_inv ops l drops (t, c)"
  shows "blocking_inv ops l drops (t, in_outside (ab_request ops) c)"
proof -
  have "os_state ops (ab_request ops w) = os_state ops w" "ab_requested ops (ab_request ops w)" for w
    using assms(1) by (simp_all add: futures_laws_def)
  with assms(3) show ?thesis
    by (cases "(ops, l, drops, t, c)" rule: blocking_inv.cases)
      (auto simp: on_thread_def justified_def frames_send [OF assms(2)])
qed

lemma dropped_inv:
  assumes "futures_laws ops" and "thread_frames ops call" and "blocking_inv ops l drops (t, c)" and drops
  shows "blocking_inv ops l drops (Over, wrapped_drop ops t c)"
  using assms(3,4) channel_recv(5) [OF assms(1)]
  by (cases "(ops, l, drops, t, c)" rule: blocking_inv.cases)
    (auto simp: on_thread_def drop_completion_def frames_send [OF assms(2)])

lemma blocking_step_inv:
  assumes "futures_laws ops" and "thread_frames ops call" and "blocking_step ops call l drops s s'"
    and "blocking_inv ops l drops s"
  shows "blocking_inv ops l drops s'"
  using assms(3,4)
proof cases
  case (TaskDropped t c)
  with assms(4) dropped_inv [OF assms(1,2)] show ?thesis by blast
qed (auto intro: polled_inv [OF assms(1,2)] ran_inv [OF assms(2)] requested_inv [OF assms(1,2)])

lemma blocking_reach_inv:
  assumes "futures_laws ops" and "thread_frames ops call" and "blocking_reach ops call l drops s s'"
    and "blocking_inv ops l drops s"
  shows "blocking_inv ops l drops s'"
  using assms(3,4) by induction (auto intro: blocking_step_inv [OF assms(1,2)])

section \<open>Properties\<close>

lemma spawned_inv:
  "os_state ops w = Open \<Longrightarrow> job w = None \<Longrightarrow> calls w = [] \<Longrightarrow>
   blocking_inv ops l drops (spawn_wrapped (ToStart f) w)"
  by (simp add: spawn_wrapped_def)

lemma calls_at_most_one: "blocking_inv ops l drops (t, c) \<Longrightarrow> length (calls (outside c)) \<le> 1"
  by (cases "(ops, l, drops, t, c)" rule: blocking_inv.cases) (auto simp: on_thread_def)

lemma blocking_answer:
  assumes laws: "futures_laws ops" and link: "handle_linked jops ops b fl" "\<not> cu_none jops p"
    and inv: "blocking_inv ops l drops (t, c)"
    and poll: "fst (handle_poll jops (CustomHandle p b fl) c) = Ready r"
  shows "t = Over \<and> (r = Inl Cancelled \<and> drops \<or> justified ops l (outside c) r)"
proof -
  have "os_state ops (outside c) \<noteq> Open"
  proof
    assume "os_state ops (outside c) = Open"
    from linked_poll(3) [OF link channel_recv(1) [OF laws this]] poll show False by auto
  qed
  with inv have over: "t = Over" by (cases "(ops, l, drops, t, c)" rule: blocking_inv.cases) auto
  with inv consider "os_state ops (outside c) = Closed" drops
    | r' where "os_state ops (outside c) = Sent r'" "justified ops l (outside c) r'" by auto
  then show ?thesis
  proof cases
    case 1
    from channel_recv(3) [OF laws 1(1)] linked_poll(2) [OF link] poll over 1(2) show ?thesis by fastforce
  next
    case 2
    from channel_recv(2) [OF laws 2(1)] linked_poll(1) [OF link] poll over 2(2) show ?thesis by fastforce
  qed
qed

text \<open>Once the closure has run, the next poll ends the task with what the closure did.\<close>

lemma blocking_progress:
  assumes laws: "futures_laws ops" and link: "handle_linked jops ops b fl" "\<not> cu_none jops p"
    and inv: "blocking_inv ops l drops (t, c)"
    and ran: "t \<noteq> Over" "calls (outside c) = [o']" "\<not> ab_requested ops (outside c)"
  shows "\<exists>c'. wrapped_poll ops (blocking_poll call l) t c = (Returned (Ready ()), Over, c') \<and>
    fst (handle_poll jops (CustomHandle p b fl) c') = Ready (result_of o')"
proof -
  from inv ran have t: "t = Live Awaiting" and op: "os_state ops (outside c) = Open"
    and rp: "reply (outside c) = reply_of o'"
    by (cases "(ops, l, drops, t, c)" rule: blocking_inv.cases; auto simp: on_thread_def)+
  have "abortable_result ops (blocking_poll call l) Awaiting (outside c) = (Ready (result_of o'), Resolved, outside c)"
    using futures_ready [OF laws ran(3), of "blocking_poll call l" Awaiting] rp
    by (cases o'; cases l) (auto simp: receive_reply_def)
  with t have poll: "wrapped_poll ops (blocking_poll call l) t c =
      (Returned (Ready ()), Over, drop_completion (c\<lparr>outside := os_send ops (result_of o') (outside c)\<rparr>))"
    (is "_ = (_, _, ?c')") by simp
  have "os_state ops (outside ?c') = Sent (result_of o')"
    using channel_recv(4) [OF laws op] by (simp add: drop_completion_def)
  from channel_recv(2) [OF laws this] linked_poll(1) [OF link, of ?c' "result_of o'"]
  have "fst (handle_poll jops (CustomHandle p b fl) ?c') = Ready (result_of o')" by fastforce
  with poll show ?thesis by blast
qed

text \<open>
  C13: a blocking closure is called once and its handle answers for it. Whatever the order in which the
  task is polled, the thread runs, aborts are requested and the executor drops the task, the closure is
  called at most once; a ready handle answers the value of that call, \<open>Panicked\<close> if the call unwound or
  no thread could be had, \<open>Aborted\<close> if that was requested, and \<open>Cancelled\<close> only where tasks are dropped.
  When the closure has run and no abort was requested, the next poll of the task delivers the result.
\<close>

theorem blocking_task_outcome:
  assumes laws: "futures_laws ops" and link: "handle_linked jops ops b fl" "\<not> cu_none jops p"
    and fr: "thread_frames ops call"
    and start: "os_state ops w = Open" "job w = None" "calls w = []"
    and reach: "blocking_reach ops call l drops (spawn_wrapped (ToStart f) w) (t, c)"
  shows "length (calls (outside c)) \<le> 1 \<and>
    (\<forall>r. fst (handle_poll jops (CustomHandle p b fl) c) = Ready r \<longrightarrow>
       t = Over \<and> (r = Inl Cancelled \<and> drops \<or> justified ops l (outside c) r)) \<and>
    (\<forall>o'. t \<noteq> Over \<and> calls (outside c) = [o'] \<and> \<not> ab_requested ops (outside c) \<longrightarrow>
       (\<exists>c'. wrapped_poll ops (blocking_poll call l) t c = (Returned (Ready ()), Over, c') \<and>
          fst (handle_poll jops (CustomHandle p b fl) c') = Ready (result_of o')))"
proof -
  note inv = blocking_reach_inv [OF laws fr reach spawned_inv [OF start]]
  from calls_at_most_one [OF inv] blocking_answer [OF laws link inv] blocking_progress [OF laws link inv]
  show ?thesis by blast
qed

text \<open>A channel and an abort flag beside the closure's cell, and a closure that adds one.\<close>

type_synonym sample_cell = "(nat, nat, bool \<times> nat join_result channel) thread_cell"

definition cell_futures ::
  "(nat blocking_future, unit + nat, nat join_result, sample_cell) futures_ops" where
  "cell_futures = \<lparr>
     ab_poll = (\<lambda>p f w. if fst (around w) then (Ready (Inl ()), f, w)
       else (case p f w of (Ready r, f', w') \<Rightarrow> (Ready (Inr r), f', w')
             | (Pending, f', w') \<Rightarrow> ((if fst (around w') then Ready (Inl ()) else Pending), f', w'))),
     ab_request = (\<lambda>w. w\<lparr>around := (True, snd (around w))\<rparr>), ab_requested = (\<lambda>w. fst (around w)),
     os_send = (\<lambda>m w. w\<lparr>around := (fst (around w), Sent m)\<rparr>),
     os_drop = (\<lambda>w. w\<lparr>around := (fst (around w), Closed)\<rparr>),
     os_recv = (\<lambda>w. (case snd (around w) of Open \<Rightarrow> Pending | Sent m \<Rightarrow> Ready (Inr m) | Closed \<Rightarrow> Ready (Inl ()), w)),
     os_state = (\<lambda>w. snd (around w))\<rparr>"

definition cell_backend :: "(unit, unit, unit, unit, unit, bool, nat, sample_cell cell) task_ops" where
  "cell_backend = \<lparr>
     tk_poll = (\<lambda>t w. (Pending, t, w)), tk_some = (\<lambda>t. False), tk_is_finished = (\<lambda>t w. True),
     tk_abort = (\<lambda>t w. w), co_poll = (\<lambda>c w. (Pending, c, w)), co_is_finished = (\<lambda>c w. True),
     co_cancel = (\<lambda>c w. ((), w)), co_detach = (\<lambda>c w. w), cx_poll = (\<lambda>x w. (Pending, x, w)),
     sm_poll = (\<lambda>s w. (Pending, s, w)), sm_some = (\<lambda>s. False), sm_is_finished = (\<lambda>s w. True),
     sm_detach = (\<lambda>s w. w), ab_abort = (\<lambda>b. in_outside (ab_request cell_futures)),
     cu_poll = (\<lambda>p c. if p then
       (case os_recv cell_futures (outside c) of
          (Ready x, w) \<Rightarrow> (Ready x, False, c\<lparr>outside := w\<rparr>)
        | (Pending, w) \<Rightarrow> (Pending, True, c\<lparr>outside := w\<rparr>)) else (Pending, p, c)),
     cu_none = (\<lambda>p. \<not> p), flag_set = (\<lambda>n c. finished c)\<rparr>"

definition add_one :: "nat \<Rightarrow> 'u \<Rightarrow> nat outcome \<times> 'u" where
  "add_one n u = (Returned (n + 1), u)"

lemma cell_futures_laws: "futures_laws cell_futures"
  by (auto simp: futures_laws_def cell_futures_def)

lemma cell_backend_linked: "handle_linked cell_backend cell_futures () 0"
  by (auto simp: handle_linked_def cell_backend_def in_outside_def split: poll.splits)

lemma cell_frames: "thread_frames cell_futures add_one"
  by (simp add: thread_frames_def cell_futures_def add_one_def)

definition sample_state :: "nat option \<Rightarrow> nat channel \<Rightarrow> nat outcome list \<Rightarrow> sample_cell" where
  "sample_state j r cs = \<lparr>job = j, reply = r, calls = cs, around = (False, Open)\<rparr>"

text \<open>The task is polled, and the thread runs.\<close>

lemma sample_reach:
  "blocking_reach cell_futures add_one Launched False (spawn_wrapped (ToStart 5) (sample_state None Open []))
     (Live Awaiting, \<lparr>finished = False, outside = sample_state None (Sent 6) [Returned 6]\<rparr>)"
proof -
  let ?s1 = "(Live Awaiting, \<lparr>finished = False, outside = sample_state (Some 5) Open []\<rparr>)
      :: (nat, nat, bool \<times> nat join_result channel) blocking_state"
  have "wrapped_poll cell_futures (blocking_poll add_one Launched) (Live (ToStart 5))
      \<lparr>finished = False, outside = sample_state None Open []\<rparr> = (Returned Pending, fst ?s1, snd ?s1)"
    by (simp add: abortable_result_def catch_unwind_def cell_futures_def receive_reply_def start_thread_def
        sample_state_def)
  from TaskPolled [OF this, of False]
  have "blocking_step cell_futures add_one Launched False
      (spawn_wrapped (ToStart 5) (sample_state None Open [])) ?s1"
    by (simp add: spawn_wrapped_def)
  then have 1: "blocking_reach cell_futures add_one Launched False
      (spawn_wrapped (ToStart 5) (sample_state None Open [])) ?s1"
    by (rule Then [OF Spawned])
  have "blocking_step cell_futures add_one Launched False ?s1
      (Live Awaiting, \<lparr>finished = False, outside = sample_state None (Sent 6) [Returned 6]\<rparr>)"
    using ThreadRuns [of cell_futures add_one Launched False "fst ?s1" "snd ?s1"]
    by (simp add: in_outside_def run_thread_def add_one_def sample_state_def)
  from Then [OF 1 this] show ?thesis .
qed

theorem blocking_task_outcome_witness:
  "\<exists>c'. wrapped_poll cell_futures (blocking_poll add_one Launched) (Live Awaiting)
       \<lparr>finished = False, outside = sample_state None (Sent 6) [Returned 6]\<rparr> =
     (Returned (Ready ()), Over, c') \<and>
     fst (handle_poll cell_backend (CustomHandle True () 0) c') = Ready (Inr 6)"
proof -
  have 1: "\<not> cu_none cell_backend True" by (simp add: cell_backend_def)
  have 2: "os_state cell_futures (sample_state None Open []) = Open" "job (sample_state None Open []) = None"
    "calls (sample_state None Open []) = []" "\<not> ab_requested cell_futures (sample_state None (Sent 6) [Returned 6])"
    by (simp_all add: cell_futures_def sample_state_def)
  from blocking_task_outcome [OF cell_futures_laws cell_backend_linked 1 cell_frames 2(1-3) sample_reach]
  have "\<forall>o'. Live Awaiting \<noteq> (Over :: nat blocking_future wrapped) \<and>
      calls (sample_state None (Sent 6) [Returned 6]) = [o'] \<and>
      \<not> ab_requested cell_futures (sample_state None (Sent 6) [Returned 6]) \<longrightarrow>
      (\<exists>c'. wrapped_poll cell_futures (blocking_poll add_one Launched) (Live Awaiting)
         \<lparr>finished = False, outside = sample_state None (Sent 6) [Returned 6]\<rparr> =
       (Returned (Ready ()), Over, c') \<and>
       fst (handle_poll cell_backend (CustomHandle True () 0) c') = Ready (result_of o'))"
    by simp
  from this [rule_format, of "Returned 6"] 2(4) show ?thesis by (simp add: sample_state_def)
qed

end
