(* ===== verification/Awaited_Tasks.thy ===== *)
theory Awaited_Tasks
  imports Blocking_Tasks
begin

text \<open>
  The lite runtime end to end (\<open>src/src/rt/lite.rs\<close>, \<open>src/src/lib.rs\<close>): a future is spawned on it and
  \<open>block_on\<close> is called on the join handle. The queue of \<open>Lite\<close> holds the block of \<open>Spawned_Task\<close> that
  \<open>spawn\<close> of \<open>Runtimes\<close> makes, the main future of the driver is the handle of \<open>Join_Handle\<close>, and other
  tasks and threads go on beside them.
\<close>

section \<open>Tasks and main future of the driver\<close>

text \<open>
  A boxed task of the queue is the block around the future, or any other task: \<open>other\<close> is its poll.
  \<open>wakes\<close> tells whether the future wakes its context, \<open>others\<close> is what the other threads do while the
  driver is parked.
\<close>

type_synonym ('f, 'x) boxed_task = "'f wrapped + 'x"

fun boxed_poll ::
  "('f, unit + 'a, 'a join_result, 'w) futures_ops \<Rightarrow> ('f, 'a, 'w) user_poll \<Rightarrow> ('f wrapped \<Rightarrow> bool) \<Rightarrow>
   ('x \<Rightarrow> 'w cell \<Rightarrow> (bool, 'x, 'x, 'w cell) polled) \<Rightarrow> ('f, 'x) boxed_task \<Rightarrow> 'w cell \<Rightarrow>
   (bool, ('f, 'x) boxed_task, ('f, 'x) boxed_task, 'w cell) polled" where
  "boxed_poll ops user wakes other (Inl t) c =
     (case wrapped_poll ops user t c of
        (r, t', c') \<Rightarrow> Polled (r \<noteq> Returned Pending) (Inl t') c' [] (wakes t))"
| "boxed_poll ops user wakes other (Inr y) c =
     (case other y c of Polled d y' c' sp woke \<Rightarrow> Polled d (Inr y') c' (map Inr sp) woke)"

definition handle_main ::
  "('t, 'c, 'k, 's, 'b, 'o, 'a, 'w cell) task_ops \<Rightarrow> ('t, 'c, 'k, 's, 'b, 'o, 'a) join_handle \<Rightarrow> 'w cell \<Rightarrow>
   ('a join_result poll outcome, ('t, 'c, 'k, 's, 'b, 'o, 'a) join_handle, ('f, 'x) boxed_task, 'w cell) polled"
where
  "handle_main jops h c = (case handle_poll jops h c of (r, h', c') \<Rightarrow> Polled (Returned r) h' c' [] False)"

definition box_block ::
  "(('f, 'b) task_body, 'reg, 'tx) task_block \<Rightarrow> ('f, 'b) task_body wrapped + 'x" where
  "box_block blk = Inl (Live (task_future (block_task blk)))"

section \<open>What the future and its surroundings promise\<close>

text \<open>
  \<open>ans\<close> is what the future comes to and \<open>rank\<close> bounds how often it is pending; neither depends on what
  the world does meanwhile. Nobody touches the channel of the task or asks it to abort.
\<close>

definition settles ::
  "('f, unit + 'a, 'm, 'w) futures_ops \<Rightarrow> ('f, 'a, 'w) user_poll \<Rightarrow> ('f \<Rightarrow> 'a outcome) \<Rightarrow> ('f \<Rightarrow> nat) \<Rightarrow> bool" where
  "settles ops user ans rank \<longleftrightarrow> (\<forall>f w. case user f w of (r, f', w') \<Rightarrow>
     os_state ops w' = os_state ops w \<and> ab_requested ops w' = ab_requested ops w \<and>
     (case r of
        Unwound \<Rightarrow> ans f = Unwound
      | Returned (Ready v) \<Rightarrow> ans f = Returned v
      | Returned Pending \<Rightarrow> ans f' = ans f \<and> rank f' < rank f))"

definition untouched :: "('f, 'r, 'm, 'w) futures_ops \<Rightarrow> 'w cell \<Rightarrow> 'w cell \<Rightarrow> bool" where
  "untouched ops c c' \<longleftrightarrow> os_state ops (outside c') = os_state ops (outside c) \<and>
     ab_requested ops (outside c') = ab_requested ops (outside c)"

definition quiet_tasks where
  "quiet_tasks ops other \<longleftrightarrow> (\<forall>y c. case other y c of Polled d y' c' sp woke \<Rightarrow> untouched ops c c')"

definition quiet_threads where
  "quiet_threads ops others \<longleftrightarrow> (\<forall>c st. case others c st of (c', st') \<Rightarrow> untouched ops c c' \<and>
     filter isl (queued_tasks st') = filter isl (queued_tasks st))"

section \<open>One task among others\<close>

definition undelivered where
  "undelivered ops c \<longleftrightarrow> os_state ops (outside c) = Open \<and> \<not> ab_requested ops (outside c)"

lemma undelivered_untouched: "untouched ops c c' \<Longrightarrow> undelivered ops c' = undelivered ops c"
  by (simp add: untouched_def undelivered_def)

lemma settles_poll:
  assumes "settles ops user ans rank" and "user f w = (r, f', w')"
  shows "os_state ops w' = os_state ops w" and "ab_requested ops w' = ab_requested ops w"
    and "r = Unwound \<Longrightarrow> ans f = Unwound" and "r = Returned (Ready v) \<Longrightarrow> ans f = Returned v"
    and "r = Returned Pending \<Longrightarrow> ans f' = ans f \<and> rank f' < rank f"
  using assms(1) [unfolded settles_def, rule_format, of w f] assms(2) by auto

text \<open>A poll of the block brings its future nearer to the end, or sends the result.\<close>

lemma block_polled:
  assumes laws: "futures_laws ops" and user: "settles ops user ans rank" and c: "undelivered ops c"
    and p: "wrapped_poll ops user (Live f) c = (r, t, c')"
  shows "(r = Returned Pending \<and> undelivered ops c' \<and> (\<exists>f'. t = Live f' \<and> ans f' = ans f \<and> rank f' < rank f)) \<or>
    (r = Returned (Ready ()) \<and> os_state ops (outside c') = Sent (result_of (ans f)))"
proof -
  from c have req: "\<not> ab_requested ops (outside c)" and op: "os_state ops (outside c) = Open"
    by (simp_all add: undelivered_def)
  obtain q f1 w1 where u: "user f (outside c) = (q, f1, w1)" by (cases "user f (outside c)")
  note s = settles_poll [OF user u]
  from s(1) op have op1: "os_state ops w1 = Open" by simp
  from channel_recv(4) [OF laws op1] have sent: "os_state ops (os_send ops m w1) = Sent m" for m .
  consider v where "q = Returned (Ready v)" | "q = Returned Pending" | "q = Unwound"
    by (cases q) (metis poll.exhaust)+
  then show ?thesis
  proof cases
    case 1
    with futures_ready(1) [OF laws req] u p s(4) sent show ?thesis by (auto simp: drop_completion_def)
  next
    case 2
    with futures_pending [OF laws req] u p s(2,5) req op1 show ?thesis by (auto simp: undelivered_def)
  next
    case 3
    with futures_ready(2) [OF laws req] u p s(3) sent show ?thesis by (auto simp: drop_completion_def)
  qed
qed

abbreviation mine :: "('f, 'x) boxed_task list \<Rightarrow> ('f, 'x) boxed_task multiset" where
  "mine ts \<equiv> filter_mset isl (mset ts)"

text \<open>The task waits among \<open>ts\<close> with fewer than \<open>n\<close> polls to go, or its result is on the channel.\<close>

definition in_line where
  "in_line ops ans rank A n ts c \<longleftrightarrow>
     (\<exists>f. mine ts = {#Inl (Live f)#} \<and> ans f = A \<and> rank f < (n :: nat)) \<and> undelivered ops c"

definition delivered_to where
  "delivered_to ops A ts c \<longleftrightarrow> mine ts = {#} \<and> os_state ops (outside c) = Sent (result_of A)"

lemma in_line_untouched:
  "untouched ops c c' \<Longrightarrow> in_line ops ans rank A n ts c' = in_line ops ans rank A n ts c"
  "untouched ops c c' \<Longrightarrow> delivered_to ops A ts c' = delivered_to ops A ts c"
  by (simp_all add: in_line_def delivered_to_def undelivered_untouched) (simp add: untouched_def)

lemma in_line_cong:
  "mine ts' = mine ts \<Longrightarrow> in_line ops ans rank A n ts' c = in_line ops ans rank A n ts c"
  "mine ts' = mine ts \<Longrightarrow> delivered_to ops A ts' c = delivered_to ops A ts c"
  by (simp_all add: in_line_def delivered_to_def)

section \<open>A sweep of the driver\<close>

text \<open>
  Before index \<open>i\<close> the tasks were polled in this sweep: the task is still to be polled, was polled and
  is nearer to its end, or has delivered.
\<close>

definition swept ::
  "('f, 'r, 'a join_result, 'w) futures_ops \<Rightarrow> ('f \<Rightarrow> 'a outcome) \<Rightarrow> ('f \<Rightarrow> nat) \<Rightarrow> 'a outcome \<Rightarrow> nat \<Rightarrow> nat \<Rightarrow>
   ('f, 'x) boxed_task list \<Rightarrow> 'w cell \<Rightarrow> (('f, 'x) boxed_task, 'aw) lite \<Rightarrow> bool" where
  "swept ops ans rank A n i ts c s \<longleftrightarrow> mine (queued_tasks s) = {#} \<and>
     (delivered_to ops A ts c \<or>
      mine (take i ts) = {#} \<and> in_line ops ans rank A (Suc n) (drop i ts) c \<or>
      mine (drop i ts) = {#} \<and> in_line ops ans rank A n (take i ts) c)"

lemma mine_split: "mine ts = mine (take i ts) + mine (drop i ts)"
  by (metis append_take_drop_id filter_union_mset mset_append)

lemma mine_at: "i < length ts \<Longrightarrow>
   mine (drop i ts) = (if isl (ts ! i) then {#ts ! i#} else {#}) + mine (drop (Suc i) ts)"
  by (simp add: Cons_nth_drop_Suc [symmetric])

lemma swept_pended:
  assumes "i < length ts"
  shows "take (Suc i) (ts[i := t]) = take i ts @ [t]" and "drop (Suc i) (ts[i := t]) = drop (Suc i) ts"
  using assms by (simp_all add: take_Suc_conv_app_nth drop_list_update)

lemma swept_finished:
  assumes i: "i < length ts" and sr: "swap_remove (ts[i := t]) i = Some (t, left)"
  shows "take i left = take i ts" and "mset (drop i left) = mset (drop (Suc i) ts)"
proof -
  from swap_remove_take [OF sr] show "take i left = take i ts" by simp
  from swap_remove_mset_drop [OF sr] i show "mset (drop i left) = mset (drop (Suc i) ts)"
    by (simp add: Cons_nth_drop_Suc [symmetric] drop_list_update)
qed

lemma other_polled:
  assumes "quiet_tasks ops other" and "boxed_poll ops user wakes other (Inr y) c = Polled d t c' sp woke"
  shows "\<not> isl t" and "mine sp = {#}" and "untouched ops c c'"
  using assms(2) assms(1) [unfolded quiet_tasks_def, rule_format, of c y] by (auto split: polled.splits)

lemma mine_polled:
  assumes "futures_laws ops" and "settles ops user ans rank" and "undelivered ops c"
    and "boxed_poll ops user wakes other (Inl (Live f)) c = Polled d t c' sp woke"
  shows "sp = [] \<and> (if d then os_state ops (outside c') = Sent (result_of (ans f))
     else undelivered ops c' \<and> (\<exists>f'. t = Inl (Live f') \<and> ans f' = ans f \<and> rank f' < rank f))"
proof -
  obtain r x c1 where p: "wrapped_poll ops user (Live f) c = (r, x, c1)"
    by (cases "wrapped_poll ops user (Live f) c")
  from block_polled [OF assms(1-3) p] p assms(4) show ?thesis by auto
qed

text \<open>Where the task is the one being polled, and where it is not.\<close>

lemma swept_cases:
  assumes s: "swept ops ans rank A n i ts c s" and i: "i < length ts"
  obtains (Mine) f where "ts ! i = Inl (Live f)" "ans f = A" "rank f < Suc n" "undelivered ops c"
      "mine (take i ts) = {#}" "mine (drop (Suc i) ts) = {#}"
  | (Other) y where "ts ! i = Inr y"
proof (cases "ts ! i")
  case (Inl t)
  then have "mine (drop i ts) = add_mset (ts ! i) (mine (drop (Suc i) ts))"
    using mine_at [OF i] by simp
  with s mine_split [of ts i] obtain f where
    "add_mset (ts ! i) (mine (drop (Suc i) ts)) = {#Inl (Live f)#}" "ans f = A" "rank f < Suc n"
    "undelivered ops c" "mine (take i ts) = {#}"
    by (auto simp: swept_def in_line_def delivered_to_def)
  then show ?thesis by (intro Mine [of f]) auto
next
  case (Inr y)
  then show ?thesis by (rule Other)
qed

lemma swept_other:
  assumes s: "swept ops ans rank A n i ts c s" and i: "i < length ts" and y: "ts ! i = Inr y"
    and t: "\<not> isl t" and sp: "mine sp = {#}" and c: "untouched ops c c'"
  shows "swept ops ans rank A n (Suc i) (ts[i := t]) c' (poll_effects wops me sp woke s)"
    and "swap_remove (ts[i := t]) i = Some (t, left) \<Longrightarrow>
      swept ops ans rank A n i left c' (poll_effects wops me sp woke s)"
proof -
  have q: "mine (queued_tasks (poll_effects wops me sp woke s)) = mine (queued_tasks s)"
    using sp by simp
  have d: "mine (drop i ts) = mine (drop (Suc i) ts)" using mine_at [OF i] y by simp
  have tk: "mine (take (Suc i) (ts[i := t])) = mine (take i ts)"
    and dr: "mine (drop (Suc i) (ts[i := t])) = mine (drop i ts)"
    using swept_pended [OF i, of t] t d by simp_all
  have all: "mine (ts[i := t]) = mine ts"
    using mine_split [of ts i] mine_split [of "ts[i := t]" "Suc i"] tk dr by simp
  show "swept ops ans rank A n (Suc i) (ts[i := t]) c' (poll_effects wops me sp woke s)"
    using s unfolding swept_def q tk dr in_line_untouched [OF c] in_line_cong [OF tk] in_line_cong [OF dr]
      in_line_cong [OF all] .
  assume sr: "swap_remove (ts[i := t]) i = Some (t, left)"
  have tk': "mine (take i left) = mine (take i ts)" and dr': "mine (drop i left) = mine (drop i ts)"
    using swept_finished [OF i sr] d by simp_all
  have all': "mine left = mine ts"
    using mine_split [of ts i] mine_split [of left i] tk' dr' by simp
  show "swept ops ans rank A n i left c' (poll_effects wops me sp woke s)"
    using s unfolding swept_def q tk' dr' in_line_untouched [OF c] in_line_cong [OF tk'] in_line_cong [OF dr']
      in_line_cong [OF all'] .
qed

lemma swept_mine:
  assumes i: "i < length ts" and x: "ts ! i = Inl (Live f)" and f: "ans f = A" "rank f < Suc n"
    and m: "mine (take i ts) = {#}" "mine (drop (Suc i) ts) = {#}" and q: "mine (queued_tasks s) = {#}"
  shows "undelivered ops c' \<Longrightarrow> ans f' = ans f \<Longrightarrow> rank f' < rank f \<Longrightarrow>
      swept ops ans rank A n (Suc i) (ts[i := Inl (Live f')]) c' (poll_effects wops me [] woke s)"
    and "os_state ops (outside c') = Sent (result_of (ans f)) \<Longrightarrow>
      swap_remove (ts[i := t]) i = Some (t, left) \<Longrightarrow>
      swept ops ans rank A n i left c' (poll_effects wops me [] woke s)"
proof -
  assume "undelivered ops c'" "ans f' = ans f" "rank f' < rank f"
  then show "swept ops ans rank A n (Suc i) (ts[i := Inl (Live f')]) c' (poll_effects wops me [] woke s)"
    using f m q swept_pended [OF i, of "Inl (Live f')"] by (simp add: swept_def in_line_def)
next
  assume o: "os_state ops (outside c') = Sent (result_of (ans f))"
    and sr: "swap_remove (ts[i := t]) i = Some (t, left)"
  have "mine left = {#}" using mine_split [of left i] swept_finished [OF i sr] m by simp
  with o f(1) q show "swept ops ans rank A n i left c' (poll_effects wops me [] woke s)"
    by (simp add: swept_def delivered_to_def)
qed

lemma sweep_advances:
  fixes s :: "(('f, 'x) boxed_task, 'aw) lite"
  assumes laws: "futures_laws ops" and user: "settles ops user ans rank" and quiet: "quiet_tasks ops other"
    and run: "poll_tasks (boxed_poll ops user wakes other) wops me 0 ts c s m = (ts', c', s', m')"
    and init: "swept ops ans rank A n 0 ts c s"
  shows "\<exists>i. length ts' \<le> i \<and> swept ops ans rank A n i ts' c' s'"
proof (rule poll_tasks_rule [OF run, where I = "\<lambda>i ts c s m. swept ops ans rank A n i ts c s"])
  show "swept ops ans rank A n 0 ts c s" by (rule init)
next
  fix i ts c m t' c' sp woke left and s :: "(('f, 'x) boxed_task, 'aw) lite"
  assume s: "swept ops ans rank A n i ts c s" and i: "i < length ts"
    and p: "boxed_poll ops user wakes other (ts ! i) c = Polled True t' c' sp woke"
    and sr: "swap_remove (ts[i := t']) i = Some (t', left)"
  show "swept ops ans rank A n i left c' (poll_effects wops me sp woke s)"
  proof (cases rule: swept_cases [OF s i])
    case (1 f)
    from s have q: "mine (queued_tasks s) = {#}" by (simp add: swept_def)
    from p 1(1) have "boxed_poll ops user wakes other (Inl (Live f)) c = Polled True t' c' sp woke" by simp
    from mine_polled [OF laws user 1(4) this] have "sp = []" and
      "os_state ops (outside c') = Sent (result_of (ans f))" by simp_all
    then show ?thesis
      using swept_mine(2) [where ans = ans and rank = rank, OF i 1(1,2,3,5,6) q _ sr] by simp
  next
    case (2 y)
    from p 2 have p: "boxed_poll ops user wakes other (Inr y) c = Polled True t' c' sp woke" by simp
    show ?thesis by (rule swept_other(2) [OF s i 2 other_polled [OF quiet p] sr])
  qed
next
  fix i ts c m t' c' sp woke and s :: "(('f, 'x) boxed_task, 'aw) lite"
  assume s: "swept ops ans rank A n i ts c s" and i: "i < length ts"
    and p: "boxed_poll ops user wakes other (ts ! i) c = Polled False t' c' sp woke"
  show "swept ops ans rank A n (Suc i) (ts[i := t']) c' (poll_effects wops me sp woke s)"
  proof (cases rule: swept_cases [OF s i])
    case (1 f)
    from s have q: "mine (queued_tasks s) = {#}" by (simp add: swept_def)
    from p 1(1) have "boxed_poll ops user wakes other (Inl (Live f)) c = Polled False t' c' sp woke" by simp
    from mine_polled [OF laws user 1(4) this] obtain f' where "sp = []" "undelivered ops c'"
      "t' = Inl (Live f')" "ans f' = ans f" "rank f' < rank f" by auto
    then show ?thesis
      using swept_mine(1) [where ans = ans and rank = rank, OF i 1(1,2,3,5,6) q] by simp
  next
    case (2 y)
    from p 2 have p: "boxed_poll ops user wakes other (Inr y) c = Polled False t' c' sp woke" by simp
    show ?thesis by (rule swept_other(1) [OF s i 2 other_polled [OF quiet p]])
  qed
qed

section \<open>The driver awaits the handle\<close>

text \<open>Between two turns: the handle has not answered, and the task is delivered or has few polls to go.\<close>

fun awaiting where
  "awaiting jops ops b fl ans rank A n (h, active, c, st) \<longleftrightarrow>
     (\<exists>p. h = CustomHandle p b fl \<and> \<not> cu_none jops p) \<and>
     (delivered_to ops A (active @ queued_tasks st) c \<or>
      in_line ops ans rank A n (active @ queued_tasks st) c)"

lemma mine_takes:
  assumes "take_queued_tasks st ts = (took, ts', st')"
  shows "mine (ts' @ queued_tasks st') = mine (ts @ queued_tasks st)" and "queued_tasks st' = []"
  using take_queued_parts [OF assms] by simp_all

lemma main_ready:
  assumes "futures_laws ops" and "handle_linked jops ops b fl" and "\<not> cu_none jops p"
    and "os_state ops (outside c) = Sent r"
  shows "\<exists>h' c'. handle_main jops (CustomHandle p b fl) c = Polled (Returned (Ready r)) h' c' [] False"
proof -
  from channel_recv(2) [OF assms(1,4)] obtain w where "os_recv ops (outside c) = (Ready (Inr r), w)" by blast
  from linked_poll(1) [OF assms(2,3) this] show ?thesis by (auto simp: handle_main_def)
qed

lemma main_pending:
  assumes "futures_laws ops" and "handle_linked jops ops b fl" and "\<not> cu_none jops p"
    and "undelivered ops c"
  shows "\<exists>p'. handle_main jops (CustomHandle p b fl) c =
      Polled (Returned Pending) (CustomHandle p' b fl) c [] False \<and> \<not> cu_none jops p'"
proof -
  from assms(4) have "os_state ops (outside c) = Open" by (simp add: undelivered_def)
  from channel_recv(1) [OF assms(1) this] linked_poll(3) [OF assms(2,3)]
  show ?thesis by (fastforce simp: handle_main_def)
qed

lemma turn_delivers:
  fixes st :: "(('f, 'x) boxed_task, 'aw) lite"
  assumes laws: "futures_laws ops" and link: "handle_linked jops ops b fl" "\<not> cu_none jops p"
    and c: "delivered_to ops A ts c"
  shows "\<exists>d'. block_on_turn poll (handle_main jops) wops me (CustomHandle p b fl, active, c, st) =
    (Output (result_of A), d')"
proof -
  from c main_ready [OF laws link] obtain h' c' where
    "handle_main jops (CustomHandle p b fl) c =
      (Polled (Returned (Ready (result_of A))) h' c' [] False :: (_, _, ('f, 'x) boxed_task, _) polled)"
    unfolding delivered_to_def by blast
  then show ?thesis
    by (cases "take_queued_tasks (lite_register wops me st) active") (simp add: block_on_turn_def Let_def)
qed

lemma turn_advances:
  fixes st :: "(('f, 'x) boxed_task, 'aw) lite"
  assumes laws: "futures_laws ops" and link: "handle_linked jops ops b fl" "\<not> cu_none jops p"
    and user: "settles ops user ans rank" and quiet: "quiet_tasks ops other"
    and c: "in_line ops ans rank A (Suc n) (active @ queued_tasks st) c"
  shows "\<exists>t d'. block_on_turn (boxed_poll ops user wakes other) (handle_main jops) wops me
      (CustomHandle p b fl, active, c, st) = (t, d') \<and> t \<in> {Again, WouldPark} \<and>
      awaiting jops ops b fl ans rank A n d'"
proof -
  obtain k1 a1 s1 where t1: "take_queued_tasks (lite_register wops me st) active = (k1, a1, s1)"
    by (cases "take_queued_tasks (lite_register wops me st) active")
  from c have "undelivered ops c" by (simp add: in_line_def)
  from main_pending [OF laws link this] obtain p' where
    m: "handle_main jops (CustomHandle p b fl) c =
      (Polled (Returned Pending) (CustomHandle p' b fl) c [] False :: (_, _, ('f, 'x) boxed_task, _) polled)"
    and p': "\<not> cu_none jops p'" by blast
  define s2 where "s2 = poll_effects wops me [] False s1"
  obtain a2 c2 s3 made where sweep: "poll_tasks (boxed_poll ops user wakes other) wops me 0 a1 c s2 False =
      (a2, c2, s3, made)"
    by (cases "poll_tasks (boxed_poll ops user wakes other) wops me 0 a1 c s2 False")
  from take_queued_parts [OF t1] have m1: "mine a1 = mine (active @ queued_tasks st)" and
    q2: "queued_tasks s2 = []" by (simp_all add: s2_def)
  from c have "in_line ops ans rank A (Suc n) a1 c" unfolding in_line_cong(1) [OF m1] .
  with q2 have "swept ops ans rank A n 0 a1 c s2" by (simp add: swept_def)
  from sweep_advances [OF laws user quiet sweep this] obtain i where "length a2 \<le> i"
    and "swept ops ans rank A n i a2 c2 s3" by blast
  then have q: "mine (queued_tasks s3) = {#}"
    and d: "delivered_to ops A a2 c2 \<or> in_line ops ans rank A n a2 c2"
    by (auto simp: swept_def in_line_def)
  obtain k4 a4 s4 where t4: "take_queued_tasks s3 a2 = (k4, a4, s4)"
    by (cases "take_queued_tasks s3 a2")
  obtain k5 a5 s5 where t5: "take_queued_tasks (lite_register wops me s4) a4 = (k5, a5, s5)"
    by (cases "take_queued_tasks (lite_register wops me s4) a4")
  from mine_takes(1) [OF t4] q have m4: "mine (a4 @ queued_tasks s4) = mine a2" by simp
  with mine_takes(1) [OF t5] have m5: "mine (a5 @ queued_tasks s5) = mine a2" by simp
  have "awaiting jops ops b fl ans rank A n (CustomHandle p' b fl, a4, c2, s4)"
    and "awaiting jops ops b fl ans rank A n (CustomHandle p' b fl, a5, c2, s5)"
    unfolding awaiting.simps in_line_cong [OF m4] in_line_cong [OF m5] using d p' by simp_all
  with t1 m s2_def sweep t4 t5 show ?thesis by (simp add: block_on_turn_def Let_def)
qed

lemma awaiting_park:
  assumes "quiet_threads ops others" and "awaiting jops ops b fl ans rank A n d"
  shows "awaiting jops ops b fl ans rank A n (park others me d)"
proof -
  obtain h a c st where d: "d = (h, a, c, st)" by (cases d)
  obtain c' st' where o: "others c st = (c', st')" by (cases "others c st")
  from assms(1) [unfolded quiet_threads_def, rule_format, of c st] o
  have u: "untouched ops c c'" and q: "filter isl (queued_tasks st') = filter isl (queued_tasks st)" by simp_all
  from q have "mine (a @ queued_tasks st') = mine (a @ queued_tasks st)"
    by (simp flip: mset_filter)
  note same = in_line_cong [OF this] in_line_untouched [OF u]
  from assms(2) have "awaiting jops ops b fl ans rank A n (h, a, c', st')" unfolding d awaiting.simps same .
  with assms(2) show ?thesis by (simp add: d park_def o)
qed

lemma loop_done:
  assumes "futures_laws ops" and "handle_linked jops ops b fl" and "\<not> cu_none jops p"
    and "delivered_to ops A ts c"
  shows "\<exists>d'. block_on_loop poll (handle_main jops) wops me others (CustomHandle p b fl, a, c, st) =
    Some (Returned (result_of A), d')"
  using turn_delivers [OF assms, of poll wops me a st] by (subst block_on_loop.simps) auto

lemma loop_delivers:
  assumes laws: "futures_laws ops" and link: "handle_linked jops ops b fl"
    and user: "settles ops user ans rank" and quiet: "quiet_tasks ops other" "quiet_threads ops others"
  shows "awaiting jops ops b fl ans rank A n d \<Longrightarrow>
    \<exists>d'. block_on_loop (boxed_poll ops user wakes other) (handle_main jops) wops me others d =
      Some (Returned (result_of A), d')"
proof (induction n arbitrary: d)
  case 0
  obtain h a c st where d: "d = (h, a, c, st)" by (cases d)
  with 0 obtain p where h: "h = CustomHandle p b fl" "\<not> cu_none jops p"
    and c: "delivered_to ops A (a @ queued_tasks st) c" by (auto simp: in_line_def)
  from loop_done [OF laws link h(2) c] show ?case by (simp add: d h(1))
next
  case (Suc n)
  obtain h a c st where d: "d = (h, a, c, st)" by (cases d)
  with Suc.prems obtain p where h: "h = CustomHandle p b fl" "\<not> cu_none jops p" by auto
  from Suc.prems d consider (Delivered) "delivered_to ops A (a @ queued_tasks st) c"
    | (Waiting) "in_line ops ans rank A (Suc n) (a @ queued_tasks st) c" by auto
  then show ?case
  proof cases
    case Delivered
    from loop_done [OF laws link h(2) this] show ?thesis by (simp add: d h(1))
  next
    case Waiting
    from turn_advances [OF laws link h(2) user quiet(1) this] obtain t d' where
      t: "block_on_turn (boxed_poll ops user wakes other) (handle_main jops) wops me d = (t, d')"
      "t \<in> {Again, WouldPark}" and d': "awaiting jops ops b fl ans rank A n d'"
      unfolding d h(1) by blast
    from Suc.IH [OF d'] Suc.IH [OF awaiting_park [OF quiet(2) d']] t show ?thesis
      by (subst block_on_loop.simps) auto
  qed
qed

section \<open>Spawn, then block on the handle\<close>

text \<open>
  What \<open>AbortHandle::new_pair\<close>, \<open>oneshot::channel\<close> and \<open>Arc::new\<close> give to this spawn: the two ends are
  those of one new task, and nothing else changes.
\<close>

definition fresh_parts where
  "fresh_parts parts jops ops s \<longleftrightarrow>
     (case blk_new_pair parts s of ((ab, reg), s1) \<Rightarrow>
      case blk_channel parts s1 of ((tx, rx), s2) \<Rightarrow>
      case blk_flag parts s2 of (fl, s3) \<Rightarrow>
        handle_linked jops ops ab fl \<and> \<not> cu_none jops rx \<and> fst s3 = fst s \<and> undelivered ops (snd s3))"

lemma driving_lite_spawn: "driving (lite_spawn wops t st) = driving st"
  by (simp add: lite_spawn_def lite_wake_def lite_push_def unpark_def split: prod.split option.split)

lemma lite_spawned:
  fixes jops :: "('t, 'c, 'k, 's, 'b, 'o, 'a, 'w cell) task_ops"
  assumes "fresh_parts parts jops ops (st, c)"
  shows "\<exists>rx ab fl c'. lite_runtime_spawn parts wops box_block f (st, c) =
      (Returned (CustomHandle rx ab fl :: ('t, 'c, 'k, 's, 'b, 'o, 'a) join_handle),
       lite_spawn wops (Inl (Live (UserFuture f))) st, c') \<and>
    handle_linked jops ops ab fl \<and> \<not> cu_none jops rx \<and> undelivered ops c'"
proof -
  obtain ab reg s1 where 1: "blk_new_pair parts (st, c) = ((ab, reg), s1)"
    by (cases "blk_new_pair parts (st, c)") auto
  obtain tx rx s2 where 2: "blk_channel parts s1 = ((tx, rx), s2)"
    by (cases "blk_channel parts s1") auto
  obtain fl st3 c3 where 3: "blk_flag parts s2 = (fl, (st3, c3))"
    by (cases "blk_flag parts s2") auto
  from assms show ?thesis
    by (simp add: fresh_parts_def 1 2 3 lite_runtime_spawn_def spawn_block_def lite_submit_def box_block_def)
qed

text \<open>
  C4: blocking on the handle of a task spawned on the lite runtime gives what its future comes to.
  Whatever the other tasks of the runtime do, however many they spawn and if they never finish, and
  whatever other threads do while the driver is parked, short of touching this task: \<open>spawn\<close> returns a
  handle, and \<open>block_on\<close> of it comes back with the value of the future, or with \<open>Panicked\<close> if the future
  unwinds, in any number of polls.
\<close>

theorem lite_spawn_then_block_on:
  fixes jops :: "('t, 'c, 'k, 's, 'b, 'o, 'a, 'w cell) task_ops"
  assumes "futures_laws ops" and "settles ops user ans rank"
    and "fresh_parts parts jops ops (st, c)"
    and "quiet_tasks ops other" and "quiet_threads ops others"
    and "\<not> driving st" and "filter isl (queued_tasks st) = []"
  shows "\<exists>h s1 s2. lite_runtime_spawn parts wops box_block f (st, c) = (Returned h, s1) \<and>
    lite_runtime_block_on (boxed_poll ops user wakes other) (handle_main jops) wops me others h s1 =
      Some (Returned (result_of (ans (UserFuture f))), s2)"
proof -
  let ?st = "lite_spawn wops (Inl (Live (UserFuture f))) st"
  from lite_spawned [OF assms(3)] obtain rx ab fl c1 where
    sp: "lite_runtime_spawn parts wops box_block f (st, c) =
      (Returned (CustomHandle rx ab fl :: ('t, 'c, 'k, 's, 'b, 'o, 'a) join_handle), ?st, c1)"
    and link: "handle_linked jops ops ab fl" and rx: "\<not> cu_none jops rx" and c1: "undelivered ops c1"
    by blast
  from assms(7) have "mine (queued_tasks st) = {#}" by (simp flip: mset_filter)
  with rx c1 have "awaiting jops ops ab fl ans rank (ans (UserFuture f)) (Suc (rank (UserFuture f)))
      (CustomHandle rx ab fl, [], c1, ?st\<lparr>driving := True\<rparr>)"
    by (simp add: in_line_def)
  from loop_delivers [OF assms(1) link assms(2,4,5) this] obtain d' where
    "block_on_loop (boxed_poll ops user wakes other) (handle_main jops) wops me others
      (CustomHandle rx ab fl, [], c1, ?st\<lparr>driving := True\<rparr>) =
      Some (Returned (result_of (ans (UserFuture f))), d')" by blast
  with assms(6) have "\<exists>s2. lite_runtime_block_on (boxed_poll ops user wakes other) (handle_main jops) wops me
      others (CustomHandle rx ab fl) (?st, c1) = Some (Returned (result_of (ans (UserFuture f))), s2)"
    by (cases d') (simp add: lite_runtime_block_on_def lite_block_on_def driving_lite_spawn)
  with sp show ?thesis by blast
qed

text \<open>A future that counts down, beside a task that spawns another with every poll and never ends.\<close>

definition body_futures ::
  "((nat, unit) task_body, unit + nat, nat join_result, bool \<times> nat join_result channel) futures_ops" where
  "body_futures = \<lparr>
     ab_poll = (\<lambda>p f w. if fst w then (Ready (Inl ()), f, w)
       else (case p f w of (Ready r, f', w') \<Rightarrow> (Ready (Inr r), f', w')
             | (Pending, f', w') \<Rightarrow> ((if fst w' then Ready (Inl ()) else Pending), f', w'))),
     ab_request = (\<lambda>w. (True, snd w)), ab_requested = fst,
     os_send = (\<lambda>m w. (fst w, Sent m)), os_drop = (\<lambda>w. (fst w, Closed)),
     os_recv = (\<lambda>w. (case snd w of Open \<Rightarrow> Pending | Sent m \<Rightarrow> Ready (Inr m) | Closed \<Rightarrow> Ready (Inl ()), w)),
     os_state = snd\<rparr>"

fun body_user :: "((nat, unit) task_body, nat, 'w) user_poll" where
  "body_user (UserFuture 0) w = (Returned (Ready 42), UserFuture 0, w)"
| "body_user (UserFuture (Suc n)) w = (Returned Pending, UserFuture n, w)"
| "body_user x w = (Unwound, x, w)"

fun body_answer :: "(nat, unit) task_body \<Rightarrow> nat outcome" where
  "body_answer (UserFuture n) = Returned 42"
| "body_answer x = Unwound"

fun body_rank :: "(nat, unit) task_body \<Rightarrow> nat" where
  "body_rank (UserFuture n) = n"
| "body_rank x = 0"

fun breeding_task :: "unit \<Rightarrow> 'c \<Rightarrow> (bool, unit, unit, 'c) polled" where
  "breeding_task u c = Polled False () c [()] True"

definition sample_parts ::
  "(unit, unit, unit, bool, 's \<times> (bool \<times> nat join_result channel) cell) block_parts" where
  "sample_parts = \<lparr>blk_new_pair = (\<lambda>s. (((), ()), s)),
     blk_channel = (\<lambda>(l, c). (((), True), l, c\<lparr>outside := (False, Open)\<rparr>)),
     blk_flag = (\<lambda>(l, c). (0, l, c\<lparr>finished := False\<rparr>))\<rparr>"

lemma body_laws: "futures_laws body_futures" "handle_linked pair_backend body_futures () 0"
  by (auto simp: futures_laws_def body_futures_def handle_linked_def pair_backend_def pair_futures_def
      split: poll.splits)

lemma body_settles: "settles body_futures body_user body_answer body_rank"
  unfolding settles_def
proof (intro allI)
  fix f :: "(nat, unit) task_body" and w :: "bool \<times> nat join_result channel"
  show "case body_user f w of (r, f', w') \<Rightarrow>
      os_state body_futures w' = os_state body_futures w \<and>
      ab_requested body_futures w' = ab_requested body_futures w \<and>
      (case r of Unwound \<Rightarrow> body_answer f = Unwound
       | Returned (Ready v) \<Rightarrow> body_answer f = Returned v
       | Returned Pending \<Rightarrow> body_answer f' = body_answer f \<and> body_rank f' < body_rank f)"
    by (cases "(f, w)" rule: body_user.cases) simp_all
qed

theorem lite_spawn_then_block_on_witness:
  "\<exists>h s1 s2. lite_runtime_spawn sample_parts slot_waker box_block 3
      ((lite_new None)\<lparr>queued_tasks := [Inr ()]\<rparr>, \<lparr>finished = False, outside = (False, Open)\<rparr>) =
      (Returned h, s1) \<and>
    lite_runtime_block_on (boxed_poll body_futures body_user (\<lambda>t. True) breeding_task)
      (handle_main pair_backend) slot_waker 7 (\<lambda>c st. (c, st)) h s1 = Some (Returned (Inr 42), s2)"
proof -
  let ?st = "(lite_new None)\<lparr>queued_tasks := [Inr ()]\<rparr> :: (((nat, unit) task_body, unit) boxed_task, nat option) lite"
  let ?c = "\<lparr>finished = False, outside = (False, Open)\<rparr> :: (bool \<times> nat join_result channel) cell"
  have f: "fresh_parts sample_parts pair_backend body_futures (?st, ?c)"
    using body_laws(2)
    by (simp add: fresh_parts_def sample_parts_def undelivered_def) (simp add: body_futures_def pair_backend_def)
  have q: "quiet_tasks body_futures (breeding_task :: unit \<Rightarrow> (bool \<times> nat join_result channel) cell \<Rightarrow> _)"
    by (simp add: quiet_tasks_def untouched_def)
  have o: "quiet_threads body_futures (\<lambda>c st. (c, st))" by (simp add: quiet_threads_def untouched_def)
  have d: "\<not> driving ?st" "filter isl (queued_tasks ?st) = []" by (simp_all add: lite_new_def)
  from lite_spawn_then_block_on [OF body_laws(1) body_settles f q o d, of slot_waker 3 "\<lambda>t. True" 7]
  show ?thesis by simp
qed

end
