(* ===== verification/Task_Api.thy ===== *)
theory Task_Api
  imports Task_Context Delays Scope_Executor
begin

text \<open>
  The functions of \<open>src/src/task.rs\<close>: each asks for the ambient executor and calls the method of the same
  name of \<open>BuiltinExecutor\<close>, which inherits the provided methods of \<open>Executor\<close> and \<open>ExecutorTimeout\<close> over its
  own \<open>spawn\<close>. The backends are the argument \<open>bk\<close>, the world of the store is the thread-local context and
  everything else.
\<close>

section \<open>Tasks\<close>

definition builtin_spawn_abortable ::
  "'aw \<Rightarrow> (builtin_executor \<Rightarrow> 'f with_exec \<Rightarrow> 'w ambient \<Rightarrow> 'h \<times> 'w ambient) \<Rightarrow> builtin_executor \<Rightarrow> 'f \<Rightarrow>
   ('h, 'aw, 'w ambient) store \<Rightarrow> nat \<times> ('h, 'aw, 'w ambient) store" where
  "builtin_spawn_abortable aw bk e = Coroutine.spawn_abortable aw (builtin_spawn bk e)"

definition task_runtime_type :: "builtin_executor \<Rightarrow> thread \<Rightarrow> 'w ambient \<Rightarrow> string" where
  "task_runtime_type dflt th s = runtime_type (task_executor dflt th s)"

definition task_spawn_blocking where
  "task_spawn_blocking bk dflt th f s = builtin_spawn_blocking bk (task_executor dflt th s) f s"

definition task_spawn_abortable where
  "task_spawn_abortable aw bk dflt th f s =
     builtin_spawn_abortable aw bk (task_executor dflt th (backend s)) f s"

definition task_spawn_timeout where
  "task_spawn_timeout tops bk dflt th d f s =
     Delays.spawn_timeout tops (builtin_spawn bk (task_executor dflt th s)) d f s"

definition task_spawn_delay where
  "task_spawn_delay bk dflt th d f s =
     Delays.spawn_delay (builtin_spawn bk (task_executor dflt th s)) d f s"

definition task_spawn_abortable_timeout where
  "task_spawn_abortable_timeout tops aw bk dflt th d f s =
     Delays.spawn_abortable_timeout tops
       (builtin_spawn_abortable aw bk (task_executor dflt th (backend s))) d f s"

definition task_spawn_abortable_delay where
  "task_spawn_abortable_delay aw bk dflt th d f s =
     Delays.spawn_abortable_delay (builtin_spawn_abortable aw bk (task_executor dflt th (backend s))) d f s"

definition task_dispatch where
  "task_dispatch ops bk dflt th f s =
     Coroutine.dispatch ops (builtin_spawn bk (task_executor dflt th s)) f s"

section \<open>Message-driven tasks\<close>

definition task_spawn_coroutine where
  "task_spawn_coroutine mops aw bk dflt th f s =
     Coroutine.spawn_coroutine mops (builtin_spawn_abortable aw bk (task_executor dflt th (backend s))) f s"

definition task_spawn_coroutine_with_buffer where
  "task_spawn_coroutine_with_buffer mops aw bk dflt th n f s =
     Coroutine.spawn_coroutine_with_buffer mops
       (builtin_spawn_abortable aw bk (task_executor dflt th (backend s))) n f s"

definition task_spawn_unbounded_coroutine where
  "task_spawn_unbounded_coroutine mops aw bk dflt th f s =
     Coroutine.spawn_unbounded_coroutine mops
       (builtin_spawn_abortable aw bk (task_executor dflt th (backend s))) f s"

definition task_spawn_coroutine_with_context where
  "task_spawn_coroutine_with_context mops aw bk dflt th x f s =
     Coroutine.spawn_coroutine_with_context mops
       (builtin_spawn_abortable aw bk (task_executor dflt th (backend s))) x f s"

definition task_spawn_coroutine_with_buffer_and_context where
  "task_spawn_coroutine_with_buffer_and_context mops aw bk dflt th x n f s =
     Coroutine.spawn_coroutine_with_buffer_and_context mops
       (builtin_spawn_abortable aw bk (task_executor dflt th (backend s))) x n f s"

definition task_spawn_unbounded_coroutine_with_context where
  "task_spawn_unbounded_coroutine_with_context mops aw bk dflt th x f s =
     Coroutine.spawn_unbounded_coroutine_with_context mops
       (builtin_spawn_abortable aw bk (task_executor dflt th (backend s))) x f s"

definition task_spawn_coroutine_with_receiver where
  "task_spawn_coroutine_with_receiver mops aw bk dflt th f s =
     Coroutine.spawn_coroutine_with_receiver mops
       (builtin_spawn_abortable aw bk (task_executor dflt th (backend s))) f s"

definition task_spawn_coroutine_with_receiver_and_buffer where
  "task_spawn_coroutine_with_receiver_and_buffer mops aw bk dflt th n f s =
     Coroutine.spawn_coroutine_with_receiver_and_buffer mops
       (builtin_spawn_abortable aw bk (task_executor dflt th (backend s))) n f s"

definition task_spawn_coroutine_with_receiver_and_context where
  "task_spawn_coroutine_with_receiver_and_context mops aw bk dflt th x f s =
     Coroutine.spawn_coroutine_with_receiver_and_context mops
       (builtin_spawn_abortable aw bk (task_executor dflt th (backend s))) x f s"

definition task_spawn_coroutine_with_receiver_buffer_and_context where
  "task_spawn_coroutine_with_receiver_buffer_and_context mops aw bk dflt th x n f s =
     Coroutine.spawn_coroutine_with_receiver_buffer_and_context mops
       (builtin_spawn_abortable aw bk (task_executor dflt th (backend s))) x n f s"

definition task_spawn_unbounded_coroutine_with_receiver where
  "task_spawn_unbounded_coroutine_with_receiver mops aw bk dflt th f s =
     Coroutine.spawn_unbounded_coroutine_with_receiver mops
       (builtin_spawn_abortable aw bk (task_executor dflt th (backend s))) f s"

definition task_spawn_unbounded_coroutine_with_receiver_and_context where
  "task_spawn_unbounded_coroutine_with_receiver_and_context mops aw bk dflt th x f s =
     Coroutine.spawn_unbounded_coroutine_with_receiver_and_context mops
       (builtin_spawn_abortable aw bk (task_executor dflt th (backend s))) x f s"

section \<open>Scopes\<close>

definition task_scope where
  "task_scope fops f = scope_new fops f"

text \<open>
  \<open>executor_scope\<close> is an async block: the executor is that of the context of its first poll. The user's
  future spawns on it.
\<close>

datatype ('f, 'r) ambient_scope = ScopeUnpolled 'f | ScopeOn builtin_executor "('f, 'r) exec_future"

fun task_executor_scope_poll ::
  "(builtin_executor \<Rightarrow> nat \<Rightarrow> 'f \<Rightarrow> ('t, 'c, 'x, 's, 'b, 'o, 'a, 'aw, 'w ambient) exec_state \<Rightarrow>
     'r poll outcome \<times> 'f \<times> ('t, 'c, 'x, 's, 'b, 'o, 'a, 'aw, 'w ambient) exec_state) \<Rightarrow>
   ('t, 'c, 'x, 's, 'b, 'o, 'a, 'w ambient) task_ops \<Rightarrow> 'aw waker_ops \<Rightarrow> builtin_executor \<Rightarrow> thread \<Rightarrow> nat \<Rightarrow>
   ('f, 'r) ambient_scope \<Rightarrow> ('t, 'c, 'x, 's, 'b, 'o, 'a, 'aw, 'w ambient) exec_state \<Rightarrow>
   'r poll outcome \<times> ('f, 'r) ambient_scope \<times> ('t, 'c, 'x, 's, 'b, 'o, 'a, 'aw, 'w ambient) exec_state" where
  "task_executor_scope_poll user ops wops dflt th ctx (ScopeUnpolled f) s =
     (let e = task_executor dflt th (backend (refs s)) in
      case exec_scope_poll (user e) ops wops ctx (ExecRunning f) s of
        (r, fut, s') \<Rightarrow> (r, ScopeOn e fut, s'))"
| "task_executor_scope_poll user ops wops dflt th ctx (ScopeOn e fut) s =
     (case exec_scope_poll (user e) ops wops ctx fut s of
        (r, fut', s') \<Rightarrow> (r, ScopeOn e fut', s'))"

section \<open>Blocking\<close>

definition task_block_on where
  "task_block_on bk dflt th f s = builtin_block_on bk (task_executor dflt th s) f s"

definition task_block_on_timeout where
  "task_block_on_timeout tops bk dflt th d f s =
     (case timed_new tops d f s of (t, s') \<Rightarrow> builtin_block_on bk (task_executor dflt th s) t s')"

definition task_block_on_delay where
  "task_block_on_delay bk dflt th d f s = builtin_block_on bk (task_executor dflt th s) (NotStarted d f) s"

section \<open>Everything goes to the ambient executor\<close>

text \<open>
  A backend that differs from another elsewhere only, for other executors or for futures that do not
  carry the ambient one, makes no difference to what these functions do.
\<close>

definition same_for where
  "same_for e bk bk' \<longleftrightarrow> (\<forall>fut w. bk e (with_exec_new e fut) w = bk' e (with_exec_new e fut) w)"

lemma same_builtin_spawn: "same_for e bk bk' \<Longrightarrow> builtin_spawn bk e = builtin_spawn bk' e"
  by (auto simp: same_for_def builtin_spawn_def fun_eq_iff)

lemma same_builtin_spawn_abortable:
  "same_for e bk bk' \<Longrightarrow> builtin_spawn_abortable aw bk e = builtin_spawn_abortable aw bk' e"
  by (simp add: builtin_spawn_abortable_def same_builtin_spawn)

lemma tasks_on_ambient:
  assumes "same_for (task_executor dflt th s) bk bk'"
  shows "task_spawn bk dflt th f s = task_spawn bk' dflt th f s"
    and "task_dispatch ops bk dflt th f s = task_dispatch ops bk' dflt th f s"
  using same_builtin_spawn [OF assms] by (simp_all add: task_spawn_def task_dispatch_def)

lemma abortable_on_ambient:
  assumes "same_for (task_executor dflt th (backend s)) bk bk'"
  shows "task_spawn_abortable aw bk dflt th f s = task_spawn_abortable aw bk' dflt th f s"
    and "task_spawn_coroutine_with_receiver mops aw bk dflt th g s =
      task_spawn_coroutine_with_receiver mops aw bk' dflt th g s"
    and "task_spawn_coroutine_with_receiver_and_buffer mops aw bk dflt th n g s =
      task_spawn_coroutine_with_receiver_and_buffer mops aw bk' dflt th n g s"
    and "task_spawn_unbounded_coroutine_with_receiver mops aw bk dflt th g s =
      task_spawn_unbounded_coroutine_with_receiver mops aw bk' dflt th g s"
    and "task_spawn_coroutine_with_receiver_and_context mops aw bk dflt th x h s =
      task_spawn_coroutine_with_receiver_and_context mops aw bk' dflt th x h s"
    and "task_spawn_coroutine_with_receiver_buffer_and_context mops aw bk dflt th x n h s =
      task_spawn_coroutine_with_receiver_buffer_and_context mops aw bk' dflt th x n h s"
    and "task_spawn_unbounded_coroutine_with_receiver_and_context mops aw bk dflt th x h s =
      task_spawn_unbounded_coroutine_with_receiver_and_context mops aw bk' dflt th x h s"
  using same_builtin_spawn_abortable [OF assms, of aw]
  by (simp_all add: task_spawn_abortable_def task_spawn_coroutine_with_receiver_def
      task_spawn_coroutine_with_receiver_and_buffer_def task_spawn_unbounded_coroutine_with_receiver_def
      task_spawn_coroutine_with_receiver_and_context_def
      task_spawn_coroutine_with_receiver_buffer_and_context_def
      task_spawn_unbounded_coroutine_with_receiver_and_context_def)

lemma coroutines_on_ambient:
  assumes "same_for (task_executor dflt th (backend s)) bk bk'"
  shows "task_spawn_coroutine mops aw bk dflt th f s = task_spawn_coroutine mops aw bk' dflt th f s"
    and "task_spawn_coroutine_with_buffer mops aw bk dflt th n f s =
      task_spawn_coroutine_with_buffer mops aw bk' dflt th n f s"
    and "task_spawn_unbounded_coroutine mops aw bk dflt th f s =
      task_spawn_unbounded_coroutine mops aw bk' dflt th f s"
  using same_builtin_spawn_abortable [OF assms, of aw]
  by (simp_all add: task_spawn_coroutine_def task_spawn_coroutine_with_buffer_def
      task_spawn_unbounded_coroutine_def)

lemma context_coroutines_on_ambient:
  assumes "same_for (task_executor dflt th (backend s)) bk bk'"
  shows "task_spawn_coroutine_with_context mops aw bk dflt th x f s =
      task_spawn_coroutine_with_context mops aw bk' dflt th x f s"
    and "task_spawn_coroutine_with_buffer_and_context mops aw bk dflt th x n f s =
      task_spawn_coroutine_with_buffer_and_context mops aw bk' dflt th x n f s"
    and "task_spawn_unbounded_coroutine_with_context mops aw bk dflt th x f s =
      task_spawn_unbounded_coroutine_with_context mops aw bk' dflt th x f s"
  using same_builtin_spawn_abortable [OF assms, of aw]
  by (simp_all add: task_spawn_coroutine_with_context_def
      task_spawn_coroutine_with_buffer_and_context_def task_spawn_unbounded_coroutine_with_context_def)

lemma timed_on_ambient:
  "same_for (task_executor dflt th s) bk bk' \<Longrightarrow>
   task_spawn_timeout tops bk dflt th d f s = task_spawn_timeout tops bk' dflt th d f s"
  "same_for (task_executor dflt th (backend st)) bk bk' \<Longrightarrow>
   task_spawn_abortable_timeout tops' aw bk dflt th d g st = task_spawn_abortable_timeout tops' aw bk' dflt th d g st"
  "same_for (task_executor dflt th s) kb kb' \<Longrightarrow>
   task_spawn_delay kb dflt th d h s = task_spawn_delay kb' dflt th d h s"
  "same_for (task_executor dflt th (backend st)) kb kb' \<Longrightarrow>
   task_spawn_abortable_delay aw kb dflt th d h st = task_spawn_abortable_delay aw kb' dflt th d h st"
  by (simp_all add: task_spawn_timeout_def task_spawn_abortable_timeout_def task_spawn_delay_def
      task_spawn_abortable_delay_def same_builtin_spawn same_builtin_spawn_abortable)

lemma block_on_ambient:
  "same_for (task_executor dflt th s) bk bk' \<Longrightarrow> task_block_on bk dflt th f s = task_block_on bk' dflt th f s"
  "same_for (task_executor dflt th s) bt bt' \<Longrightarrow>
   task_block_on_timeout tops bt dflt th d g s = task_block_on_timeout tops bt' dflt th d g s"
  "same_for (task_executor dflt th s) bd bd' \<Longrightarrow>
   task_block_on_delay bd dflt th d h s = task_block_on_delay bd' dflt th d h s"
  by (simp_all add: task_block_on_def task_block_on_timeout_def task_block_on_delay_def builtin_block_on_def
      same_for_def split: prod.split)

text \<open>
  The scope of \<open>executor_scope\<close> is on the executor of the first poll for good, whatever the contexts of the
  later ones.
\<close>

lemma executor_scope_stays:
  "snd (task_executor_scope_poll user ops wops dflt th ctx (ScopeOn e fut) s) = (a, s') \<Longrightarrow> \<exists>fut'. a = ScopeOn e fut'"
  "snd (task_executor_scope_poll user ops wops dflt th ctx (ScopeUnpolled f) s) = (a, s') \<Longrightarrow>
   \<exists>fut'. a = ScopeOn (task_executor dflt th (backend (refs s))) fut'"
  by (auto simp: Let_def split: prod.splits)

end
