(* ===== verification/Polled_Files.thy ===== *)
theory Polled_Files
  imports File_Poll_Properties
begin

text \<open>
  The asynchronous methods of \<open>File\<close> (\<open>src/src/fs.rs\<close>) over the poll functions of \<open>src/src/fs/io.rs\<close>:
  \<open>read\<close>, \<open>write\<close>, \<open>flush\<close> and \<open>seek\<close> await a poll, the others are the provided methods of the file traits
  over them. A file that is read this way keeps the contract of \<open>file_reader\<close>, so what holds of every
  reader holds of the bytes that come through the state machine.
\<close>

section \<open>Awaiting a poll\<close>

text \<open>
  \<open>poll_fn(..).await\<close>: poll, and after \<open>Pending\<close> again when the task is woken; \<open>between\<close> is what the rest of
  the program does to the state until then.
\<close>

partial_function (option) await_poll ::
  "('s \<Rightarrow> ('r poll outcome \<times> 's) option) \<Rightarrow> ('s \<Rightarrow> 's) \<Rightarrow> 's \<Rightarrow> ('r outcome \<times> 's) option" where
  "await_poll poll between s =
     (case poll s of
        None \<Rightarrow> None
      | Some (Unwound, s') \<Rightarrow> Some (Unwound, s')
      | Some (Returned (Ready r), s') \<Rightarrow> Some (Returned r, s')
      | Some (Returned Pending, s') \<Rightarrow> await_poll poll between (between s'))"

section \<open>The methods of \<open>File\<close>\<close>

text \<open>The traits of the futures crate and of Tokio: their polls are the poll functions.\<close>

definition asyncread_poll where
  "asyncread_poll ops s = (case s of (buf, st) \<Rightarrow>
     (case poll_read ops buf st of None \<Rightarrow> None | Some (r, buf', st') \<Rightarrow> Some (r, (buf', st'))))"

definition asyncwrite_poll_write where
  "asyncwrite_poll_write ops buf st = poll_write ops buf st"

definition asyncwrite_poll_flush where
  "asyncwrite_poll_flush ops st = poll_flush ops st"

definition asyncwrite_poll_close where
  "asyncwrite_poll_close ops st = poll_flush ops st"

definition asyncseek_poll where
  "asyncseek_poll ops q st = poll_seek ops q st"

text \<open>
  Tokio's \<open>AsyncRead\<close> reads into the unfilled part of a \<open>ReadBuf\<close>, zeroed first: what is filled, and how
  much room is left. \<open>advance\<close> panics past the end.
\<close>

definition tokio_asyncread_poll ::
  "('f, 'w) file_ops \<Rightarrow> byte list \<times> nat \<Rightarrow> ('f, 'w) file_state \<Rightarrow>
   (unit io_result poll outcome \<times> (byte list \<times> nat) \<times> ('f, 'w) file_state) option" where
  "tokio_asyncread_poll ops rb st =
     (case rb of (filled, room) \<Rightarrow>
      case poll_read ops (replicate room 0) st of
        None \<Rightarrow> None
      | Some (Unwound, buf, st') \<Rightarrow> Some (Unwound, rb, st')
      | Some (Returned Pending, buf, st') \<Rightarrow> Some (Returned Pending, rb, st')
      | Some (Returned (Ready (Inl e)), buf, st') \<Rightarrow> Some (Returned (Ready (Inl e)), rb, st')
      | Some (Returned (Ready (Inr n)), buf, st') \<Rightarrow>
          Some (if room < n then (Unwound, (filled, room), st')
            else (Returned (Ready (Inr ())), (filled @ take n buf, room - n), st')))"

text \<open>Tokio's \<open>AsyncWrite\<close>: shutting down flushes.\<close>

definition tokio_asyncwrite_poll_write where
  "tokio_asyncwrite_poll_write ops buf st = poll_write ops buf st"

definition tokio_asyncwrite_poll_flush where
  "tokio_asyncwrite_poll_flush ops st = poll_flush ops st"

definition tokio_asyncwrite_poll_shutdown where
  "tokio_asyncwrite_poll_shutdown ops st = poll_flush ops st"

text \<open>\<open>others\<close> is what happens to the world between two polls of an awaited operation.\<close>

definition elsewhere :: "('w \<Rightarrow> 'w) \<Rightarrow> ('f, 'w) file_state \<Rightarrow> ('f, 'w) file_state" where
  "elsewhere others st = st\<lparr>world := others (world st)\<rparr>"

definition file_read where
  "file_read ops others buf st =
     await_poll (asyncread_poll ops) (\<lambda>(b, s). (b, elsewhere others s)) (buf, st)"

definition file_write where
  "file_write ops others buf st = await_poll (asyncwrite_poll_write ops buf) (elsewhere others) st"

definition file_flush where
  "file_flush ops others st = await_poll (asyncwrite_poll_flush ops) (elsewhere others) st"

definition file_seek where
  "file_seek ops others q st = await_poll (asyncseek_poll ops q) (elsewhere others) st"

text \<open>
  The provided methods are loops over calls of \<open>read\<close> and \<open>write\<close> that came back; of a call that does not,
  nothing is said.
\<close>

definition completed_read where
  "completed_read ops others buf st = (case the (file_read ops others buf st) of (out, b, s) \<Rightarrow> (out, b, s))"

definition completed_write where
  "completed_write ops others buf st = the (file_write ops others buf st)"

definition file_read_exact where
  "file_read_exact ops others buf st = read_exact (completed_read ops others) buf st"

definition file_read_to_end where
  "file_read_to_end ops others out st = read_to_end (completed_read ops others) out st"

definition file_read_to_string where
  "file_read_to_string ops others out st = read_to_string (completed_read ops others) out st"

definition file_write_all where
  "file_write_all ops others buf st = write_all (completed_write ops others) buf st"

definition file_rewind where
  "file_rewind ops others st =
     map_option (\<lambda>(out, s). (map_outcome (map_sum id (\<lambda>p. ())) out, s)) (file_seek ops others (Start 0) st)"

definition file_stream_position where
  "file_stream_position ops others st = file_seek ops others (Current 0) st"

section \<open>Reads that come back\<close>

text \<open>
  What the bodies of reads promise beside the laws of streams: \<open>asks\<close> is how much a body was asked for,
  \<open>left\<close> bounds how often it is still pending, \<open>budget\<close> how often reads may still be interrupted; a read
  answers nothing only at the end. What happens elsewhere leaves the file alone.
\<close>

definition progress_laws where
  "progress_laws ops und k asks left budget others \<longleftrightarrow>
     (\<forall>fi n w f w'. k fi None \<longrightarrow> fo_read ops fi n w = (f, w') \<longrightarrow>
        asks f = n \<and> budget w' \<le> (budget w :: nat)) \<and>
     (\<forall>fi f w f' w'. k fi (Some f) \<longrightarrow> fo_poll_read ops f w = (Pending, f', w') \<longrightarrow>
        asks f' = (asks f :: nat) \<and> left f' < (left f :: nat) \<and> budget w' \<le> budget w) \<and>
     (\<forall>fi f w m owned p f' w'. k fi (Some f) \<longrightarrow> fo_poll_read ops f w = (Ready (Inr (Inr m, owned, p)), f', w') \<longrightarrow>
        budget w' \<le> budget w \<and> (m = 0 \<longrightarrow> asks f = 0 \<or> und (Some f) fi w = ([] :: byte list))) \<and>
     (\<forall>fi f w e owned p f' w'. k fi (Some f) \<longrightarrow> fo_poll_read ops f w = (Ready (Inr (Inl e, owned, p)), f', w') \<longrightarrow>
        err_kind e = Interrupted \<longrightarrow> budget w' < budget w) \<and>
     (\<forall>fi b w. k fi b \<longrightarrow> und b fi (others w) = und b fi w \<and> budget (others w) \<le> budget w)"

lemma progress_start:
  "progress_laws ops und k asks left budget others \<Longrightarrow> k fi None \<Longrightarrow> fo_read ops fi n w = (f, w') \<Longrightarrow>
   asks f = n \<and> budget w' \<le> budget w"
  unfolding progress_laws_def by (elim conjE) metis

lemma progress_pending:
  "progress_laws ops und k asks left budget others \<Longrightarrow> k fi (Some f) \<Longrightarrow>
   fo_poll_read ops f w = (Pending, f', w') \<Longrightarrow> asks f' = asks f \<and> left f' < left f \<and> budget w' \<le> budget w"
  unfolding progress_laws_def by (elim conjE) metis

lemma progress_got:
  "progress_laws ops und k asks left budget others \<Longrightarrow> k fi (Some f) \<Longrightarrow>
   fo_poll_read ops f w = (Ready (Inr (Inr m, owned, p)), f', w') \<Longrightarrow>
   budget w' \<le> budget w \<and> (m = 0 \<longrightarrow> asks f = 0 \<or> und (Some f) fi w = [])"
  unfolding progress_laws_def by (elim conjE) metis

lemma progress_failed:
  "progress_laws ops und k asks left budget others \<Longrightarrow> k fi (Some f) \<Longrightarrow>
   fo_poll_read ops f w = (Ready (Inr (Inl e, owned, p)), f', w') \<Longrightarrow> err_kind e = Interrupted \<Longrightarrow>
   budget w' < budget w"
  unfolding progress_laws_def by (elim conjE) metis

lemma progress_others:
  "progress_laws ops und k asks left budget others \<Longrightarrow> k fi b \<Longrightarrow>
   und b fi (others w) = und b fi w \<and> budget (others w) \<le> budget w"
  unfolding progress_laws_def by (elim conjE) metis

text \<open>The reads of a file: nothing but a read is in flight, and it was asked for something.\<close>

definition readable_file where
  "readable_file k asks st \<longleftrightarrow> k (inner st) (body_of (operation st)) \<and> reading st \<and>
     (\<forall>f. body_of (operation st) = Some f \<longrightarrow> 0 < (asks f :: nat))"

lemma readable_same:
  assumes "inner st' = inner st" and "operation st' = operation st"
  shows "readable_file k asks st' \<longleftrightarrow> readable_file k asks st"
  unfolding readable_file_def reading_def assms ..

definition same_bounds where
  "same_bounds asks budget st f w \<longleftrightarrow> 0 < (asks f :: nat) \<and> budget w \<le> (budget (world st) :: nat) \<and>
     (\<forall>g. body_of (operation st) = Some g \<longrightarrow> g = f)"

lemma readable_current:
  assumes laws: "stream_laws ops und k" and prog: "progress_laws ops und k asks left budget others"
    and st: "readable_file k asks st" and n: "0 < n" and l: "leftover st = []"
  obtains f w where "current_future (\<lambda>fi. read_operation ops fi n) st = (ReadFuture (inner st) f, w)"
    and "und (Some f) (inner st) w = owed und st" and "k (inner st) (Some f)" and "same_bounds asks budget st f w"
proof -
  have k: "k (inner st) (body_of (operation st))" and rd: "reading st"
    and as: "\<And>f. body_of (operation st) = Some f \<Longrightarrow> 0 < asks f"
    using st by (auto simp: readable_file_def)
  from reading_current [OF laws k rd l] obtain f w
    where f: "current_future (\<lambda>fi. read_operation ops fi n) st = (ReadFuture (inner st) f, w)"
    and u: "und (Some f) (inner st) w = owed und st" "k (inner st) (Some f)" .
  have "same_bounds asks budget st f w"
  proof (cases "operation st")
    case None
    with f have "fo_read ops (inner st) n (world st) = (f, w)"
      by (auto simp: current_future_def read_operation_def split: prod.splits)
    with progress_start [OF prog] k None n show ?thesis by (auto simp: same_bounds_def)
  next
    case (Some fut)
    with f as show ?thesis by (auto simp: same_bounds_def current_future_def)
  qed
  with that f u show ?thesis by blast
qed

text \<open>What one poll does beside keeping the stream.\<close>

definition poll_bounds where
  "poll_bounds und k asks left budget buf st r buf' st' \<longleftrightarrow>
     length buf' = length buf \<and> readable_file k asks st' \<and>
     (case r of
        Pending \<Rightarrow> buf' = buf \<and> leftover st' = [] \<and> budget (world st') \<le> (budget (world st) :: nat) \<and>
          (\<exists>f'. body_of (operation st') = Some f' \<and>
             (\<forall>f. body_of (operation st) = Some f \<longrightarrow> left f' < (left f :: nat)))
      | Ready (Inr n) \<Rightarrow> n \<le> length buf \<and> budget (world st') \<le> budget (world st) \<and>
          (n = 0 \<longrightarrow> buf = [] \<or> owed und st = [])
      | Ready (Inl e) \<Rightarrow> err_kind e = Interrupted \<longrightarrow> budget (world st') < budget (world st))"

lemma internal_read_bounds:
  assumes laws: "stream_laws ops und k" and prog: "progress_laws ops und k asks left budget others"
    and st: "readable_file k asks st" and ne: "buf \<noteq> []" and l: "leftover st = []"
    and poll: "poll_internal_read ops buf st = Some (Returned r, buf', st')"
  shows "poll_bounds und k asks left budget buf st r buf' st'"
proof -
  from ne have n: "0 < length buf" by simp
  from readable_current [OF laws prog st n l] obtain f w
    where cur: "current_future (\<lambda>fi. read_operation ops fi (length buf)) st = (ReadFuture (inner st) f, w)"
    and und: "und (Some f) (inner st) w = owed und st" and kf: "k (inner st) (Some f)"
    and bd: "same_bounds asks budget st f w" .
  obtain d f' w' where p: "fo_poll_read ops f w = (d, f', w')" by (cases "fo_poll_read ops f w")
  note pe = poll_ensured [OF cur, of ops]
  note bounds = bd [unfolded same_bounds_def]
  have idle: "k (moved_to (inner st) q) None" for q using stream_files [OF laws kf] by blast
  then have idle': "k (inner st) None" by (metis moved_to.simps(1))
  show ?thesis
  proof (cases d)
    case Pending
    with poll pe p have "r = Pending" "buf' = buf"
      "st' = st\<lparr>operation := Some (ReadFuture (inner st) f'), world := w'\<rparr>"
      by (subst (asm) poll_internal_read.simps, simp)+
    with progress_pending [OF prog kf p [unfolded Pending]] stream_pending [OF laws kf p [unfolded Pending]] bounds l
    show ?thesis by (auto simp: poll_bounds_def readable_file_def reading_def leftover_def)
  next
    case (Ready x)
    consider e where "x = Inl e" | e owned q where "x = Inr (Inl e, owned, q)"
      | m owned q where "x = Inr (Inr m, owned, q)"
      by (metis old.sum.exhaust prod_cases3)
    then show ?thesis
    proof cases
      case (1 e)
      with poll pe p Ready have "r = Ready (Inl (join_io_error e))" "buf' = buf" "inner st' = inner st"
        "operation st' = None"
        by (subst (asm) poll_internal_read.simps, simp add: Let_def, auto)+
      with idle' show ?thesis by (simp add: poll_bounds_def readable_file_def reading_def)
    next
      case (2 e owned q)
      with poll pe p Ready have "r = Ready (Inl e)" "buf' = buf" "inner st' = inner st"
        "operation st' = None" "world st' = w'"
        by (subst (asm) poll_internal_read.simps, simp add: Let_def, auto)+
      with idle' progress_failed [OF prog kf p [unfolded Ready 2]] bounds show ?thesis
        by (auto simp: poll_bounds_def readable_file_def reading_def)
    next
      case (3 m owned q)
      let ?q = "reported_position (inner st) (Inr m :: nat io_result) q"
      from stream_got [OF laws kf p [unfolded Ready 3]] have m: "m \<le> length owned" by simp
      from poll pe p Ready 3 m have r: "r = Ready (Inr (min (length buf) m))"
        and buf': "buf' = copy_prefix (take (min (length buf) m) owned) buf"
        and st': "inner st' = moved_to (inner st) ?q" "operation st' = None" "world st' = w'"
        by (subst (asm) poll_internal_read.simps, simp add: Let_def, auto)+
      have "length buf' = length buf" by (simp add: buf' copy_prefix_def min_def)
      moreover have "readable_file k asks st'" using idle st' by (simp add: readable_file_def reading_def)
      moreover have "budget w' \<le> budget (world st)" "m = 0 \<longrightarrow> owed und st = []"
        using progress_got [OF prog kf p [unfolded Ready 3]] bounds und by auto
      ultimately show ?thesis using r st'(3) ne by (auto simp: poll_bounds_def min_def)
    qed
  qed
qed

lemma poll_read_bounds:
  assumes laws: "stream_laws ops und k" and prog: "progress_laws ops und k asks left budget others"
    and st: "readable_file k asks st"
    and poll: "poll_read ops buf st = Some (Returned r, buf', st')"
  shows "poll_bounds und k asks left budget buf st r buf' st'"
proof (cases "buf = []")
  case True
  with st poll show ?thesis by (auto simp: poll_read_def poll_bounds_def)
next
  case ne: False
  show ?thesis
  proof (cases "buffered_position st < length (buffered st)")
    case False
    then have "leftover st = []" by (simp add: leftover_def)
    moreover have "own_io (inner st)" using st stream_files [OF laws] by (auto simp: readable_file_def)
    with poll ne False have "poll_internal_read ops buf st = Some (Returned r, buf', st')"
      by (auto simp: poll_read_def own_io_def split: file_inner.splits)
    ultimately show ?thesis by (intro internal_read_bounds [OF laws prog st ne])
  next
    case True
    let ?n = "min (length buf) (length (leftover st))"
    from poll ne True have "r = Ready (Inr ?n)" "length buf' = length buf" "inner st' = inner st"
      "operation st' = operation st" "world st' = world st"
      by (auto simp: poll_read_def Let_def leftover_def copy_prefix_def min_def split: if_splits)
    moreover have "?n \<noteq> 0" using ne True by (simp add: leftover_def min_def)
    ultimately show ?thesis using st readable_same [of st' st k asks]
      by (simp add: poll_bounds_def) (simp add: min_def split: if_splits)
  qed
qed

text \<open>An awaited read comes back, whatever is in flight.\<close>

definition read_settles where
  "read_settles und k asks budget buf st res \<longleftrightarrow>
     (\<exists>r buf' st'. res = Some (Returned r, (buf', st')) \<and> readable_file k asks st' \<and> length buf' = length buf \<and>
        owed und st = take (delivered (Ready r)) buf' @ owed und st' \<and>
        (case r of
           Inr n \<Rightarrow> n \<le> length buf \<and> budget (world st') \<le> (budget (world st) :: nat) \<and>
             (n = 0 \<longrightarrow> buf = [] \<or> owed und st = [])
         | Inl e \<Rightarrow> err_kind e = Interrupted \<longrightarrow> budget (world st') < budget (world st)))"

lemma settles_later:
  assumes "read_settles und k asks budget buf s res" and "owed und s = owed und st"
    and "budget (world s) \<le> budget (world st)"
  shows "read_settles und k asks budget buf st res"
  using assms unfolding read_settles_def
  by (elim exE conjE) (intro exI conjI, assumption, auto split: sum.splits)

lemma elsewhere_readable:
  assumes "progress_laws ops und k asks left budget others" and "readable_file k asks st"
  shows "readable_file k asks (elsewhere others st)"
    and "owed und (elsewhere others st) = owed und st"
    and "budget (world (elsewhere others st)) \<le> budget (world st)"
    and "body_of (operation (elsewhere others st)) = body_of (operation st)"
proof -
  have "inner (elsewhere others st) = inner st" "operation (elsewhere others st) = operation st"
    by (simp_all add: elsewhere_def)
  from readable_same [OF this] assms(2) show "readable_file k asks (elsewhere others st)" by blast
  have "k (inner st) (body_of (operation st))" using assms(2) by (simp add: readable_file_def)
  from progress_others [OF assms(1) this, of "world st"]
  show "owed und (elsewhere others st) = owed und st"
    and "budget (world (elsewhere others st)) \<le> budget (world st)"
    and "body_of (operation (elsewhere others st)) = body_of (operation st)"
    by (simp_all add: elsewhere_def owed_def leftover_def)
qed

lemma file_read_step:
  "file_read ops others buf st =
     (case poll_read ops buf st of
        None \<Rightarrow> None
      | Some (Unwound, buf', st') \<Rightarrow> Some (Unwound, (buf', st'))
      | Some (Returned (Ready r), buf', st') \<Rightarrow> Some (Returned r, (buf', st'))
      | Some (Returned Pending, buf', st') \<Rightarrow> file_read ops others buf' (elsewhere others st'))"
  unfolding file_read_def
  by (subst await_poll.simps) (simp add: asyncread_poll_def split: option.split outcome.split poll.split)

lemma file_read_settles:
  assumes laws: "stream_laws ops und k" and prog: "progress_laws ops und k asks left budget others"
    and st: "readable_file k asks st"
  shows "read_settles und k asks budget buf st (file_read ops others buf st)"
proof -
  have step: "read_settles und k asks budget buf s (file_read ops others buf s)"
    if s: "readable_file k asks s" and
      go: "\<And>s' f. readable_file k asks s' \<Longrightarrow> body_of (operation s') = Some f \<Longrightarrow>
        (\<forall>g. body_of (operation s) = Some g \<longrightarrow> left f < left g) \<Longrightarrow>
        read_settles und k asks budget buf s' (file_read ops others buf s')" for s
  proof -
    from s have "k (inner s) (body_of (operation s))" "reading s" by (simp_all add: readable_file_def)
    from poll_read_keeps_owed [OF laws this, of buf] obtain r buf' s' where
      p: "poll_read ops buf s = Some (Returned r, buf', s')" and
      o: "owed und s = take (delivered r) buf' @ owed und s'" by (auto simp: keeps_owed_def)
    note b = poll_read_bounds [OF laws prog s p, unfolded poll_bounds_def]
    show ?thesis
    proof (cases r)
      case (Ready x)
      with p o b show ?thesis
        by (subst file_read_step) (auto simp: read_settles_def split: sum.splits)
    next
      case Pending
      with b obtain f' where s': "readable_file k asks s'" "buf' = buf" "body_of (operation s') = Some f'"
        "\<forall>g. body_of (operation s) = Some g \<longrightarrow> left f' < left g" "budget (world s') \<le> budget (world s)" by auto
      note e = elsewhere_readable [OF prog s'(1)]
      from go [OF e(1), of f'] e(4) s'(3,4)
      have "read_settles und k asks budget buf (elsewhere others s') (file_read ops others buf (elsewhere others s'))"
        by simp
      then have "read_settles und k asks budget buf s (file_read ops others buf (elsewhere others s'))"
        by (rule settles_later) (use e o s' Pending in auto)
      with p Pending s'(2) show ?thesis by (subst file_read_step) simp
    qed
  qed
  have flying: "readable_file k asks s \<Longrightarrow> body_of (operation s) = Some f \<Longrightarrow>
      read_settles und k asks budget buf s (file_read ops others buf s)" for s f
  proof (induction "left f" arbitrary: s f rule: less_induct)
    case less
    show ?case by (rule step [OF less.prems(1)]) (use less in auto)
  qed
  show ?thesis by (rule step [OF st]) (rule flying)
qed

text \<open>Every such file keeps the contract of a reader.\<close>

definition polled_file where
  "polled_file ops und k asks left budget others st \<longleftrightarrow>
     stream_laws ops und k \<and> progress_laws ops und k asks left budget others \<and> readable_file k asks st"

lemma completed_read_settles:
  assumes "polled_file ops und k asks left budget others st"
    and "completed_read ops others buf st = (out, buf', st')"
  shows "read_settles und k asks budget buf st (Some (out, (buf', st')))"
proof -
  from assms(1) have s: "read_settles und k asks budget buf st (file_read ops others buf st)"
    using file_read_settles by (auto simp: polled_file_def)
  then obtain x where x: "file_read ops others buf st = Some x" by (auto simp: read_settles_def)
  with assms(2) have "x = (out, (buf', st'))" by (cases x) (simp add: completed_read_def split: prod.splits)
  with s x show ?thesis by simp
qed

interpretation polled_reader: file_reader "completed_read ops others"
  "polled_file ops und k asks left budget others" "owed und" "\<lambda>st. budget (world st)"
  for ops :: "('f, 'w) file_ops" and others und k asks left budget
proof
  fix st :: "('f, 'w) file_state" and buf out buf' st'
  assume pf: "polled_file ops und k asks left budget others st"
    and r: "completed_read ops others buf st = (out, buf', st')"
  note s = completed_read_settles [OF this]
  from s pf show "out \<noteq> Unwound \<and> length buf' = length buf \<and> polled_file ops und k asks left budget others st'"
    by (auto simp: read_settles_def polled_file_def)
next
  fix st :: "('f, 'w) file_state" and buf n buf' st'
  assume "polled_file ops und k asks left budget others st"
    and "completed_read ops others buf st = (Returned (Inr n), buf', st')"
  note s = completed_read_settles [OF this]
  from s show "n \<le> length buf \<and> owed und st = take n buf' @ owed und st' \<and> budget (world st') \<le> budget (world st)"
    by (auto simp: read_settles_def)
next
  fix st :: "('f, 'w) file_state" and buf e buf' st'
  assume "polled_file ops und k asks left budget others st"
    and "completed_read ops others buf st = (Returned (Inl e), buf', st')"
  note s = completed_read_settles [OF this]
  from s show "owed und st' = owed und st" by (auto simp: read_settles_def)
  from s show "err_kind e = Interrupted \<Longrightarrow> budget (world st') < budget (world st)"
    by (auto simp: read_settles_def)
next
  fix st :: "('f, 'w) file_state" and buf :: "byte list" and buf' st'
  assume "polled_file ops und k asks left budget others st"
    and "completed_read ops others buf st = (Returned (Inr 0), buf', st')" and "buf \<noteq> []"
  from completed_read_settles [OF this(1,2)] this(3) show "owed und st = []"
    by (auto simp: read_settles_def)
qed

section \<open>Compio files\<close>

fun body_asks :: "compio_body \<Rightarrow> nat" where
  "body_asks (RunRead p n d) = n"
| "body_asks b = 0"

fun body_left :: "compio_body \<Rightarrow> nat" where
  "body_left (RunRead p n d) = d"
| "body_left b = 0"

lemma compio_body_read_pending:
  "compio_body_read ops (RunRead p n d) w = (Pending, f', w') \<Longrightarrow> \<exists>d'. d = Suc d' \<and> f' = RunRead p n d' \<and> w' = w"
  by (cases d) (auto split: prod.splits outcome.splits)

lemma compio_progress_laws:
  assumes laws: "compio_laws ops contents interrupts"
    and others: "\<And>w. contents (others w) = contents w \<and> interrupts (others w) \<le> interrupts w"
  shows "progress_laws (compio_file_ops ops delay) (compio_und contents) compio_reads body_asks body_left
    interrupts others"
  unfolding progress_laws_def
proof (intro conjI allI impI)
  fix fi f w m owned p' f' w'
  assume "compio_reads fi (Some f)"
    and *: "fo_poll_read (compio_file_ops ops delay) f w = (Ready (Inr (Inr m, owned, p')), f', w')"
  then obtain p n d where fi: "fi = CompioFile p" and f: "f = RunRead p n d" by (elim compio_readsE)
  from * f have "compio_body_read ops (RunRead p n d) w = (Ready (Inr (Inr m, owned, p')), f', w')"
    by (simp add: compio_file_ops_def)
  from compio_body_read_done [OF laws this]
  have "compio_read ops (replicate n 0) \<lparr>disk = w, position = p\<rparr> =
      (Returned (Inr m), owned, \<lparr>disk = w', position = p'\<rparr>)" by auto
  from compio_read_Inr [OF laws this]
  show "interrupts w' \<le> interrupts w" and "m = 0 \<Longrightarrow> body_asks f = 0 \<or> compio_und contents (Some f) fi w = []"
    by (auto simp: compio_und_def compio_rest_def fi f)
next
  fix fi f w e owned p' f' w'
  assume "compio_reads fi (Some f)" and i: "err_kind e = Interrupted"
    and *: "fo_poll_read (compio_file_ops ops delay) f w = (Ready (Inr (Inl e, owned, p')), f', w')"
  then obtain p n d where f: "f = RunRead p n d" by (elim compio_readsE)
  from * f have "compio_body_read ops (RunRead p n d) w = (Ready (Inr (Inl e, owned, p')), f', w')"
    by (simp add: compio_file_ops_def)
  from compio_body_read_done [OF laws this]
  have "compio_read ops (replicate n 0) \<lparr>disk = w, position = p\<rparr> =
      (Returned (Inl e), owned, \<lparr>disk = w', position = p'\<rparr>)" by auto
  from compio_read_Inl [OF laws this] i show "interrupts w' < interrupts w" by simp
next
  fix fi f w f' w'
  assume "compio_reads fi (Some f)" and *: "fo_poll_read (compio_file_ops ops delay) f w = (Pending, f', w')"
  then obtain p n d where "f = RunRead p n d" by (elim compio_readsE)
  with * compio_body_read_pending [of ops p n d w f' w']
  show "body_asks f' = body_asks f" and "body_left f' < body_left f" and "interrupts w' \<le> interrupts w"
    by (auto simp: compio_file_ops_def)
qed (auto simp: compio_file_ops_def compio_und_def others)

lemma compio_polled_file:
  assumes "compio_laws ops contents interrupts"
    and "\<And>w. contents (others w) = contents w \<and> interrupts (others w) \<le> interrupts w"
    and "readable_file compio_reads body_asks st"
  shows "polled_file (compio_file_ops ops delay) (compio_und contents) compio_reads body_asks body_left interrupts
    others st"
  using compio_stream_laws [OF assms(1)] compio_progress_laws [OF assms(1,2)] assms(3)
  by (simp add: polled_file_def)

section \<open>Properties\<close>


text \<open>Five letters, of which two wait as leftovers and two are being read.\<close>

definition letters_file :: "(compio_body, byte list) file_state" where
  "letters_file = (from_inner (CompioFile 3) [97, 98, 99, 100, 101])
     \<lparr>buffered := [97, 98, 99], buffered_position := 1,
      operation := Some (ReadFuture (CompioFile 3) (RunRead 3 4 1))\<rparr>"

lemma letters_owed: "owed (compio_und mem_contents) letters_file = [98, 99, 100, 101]"
  by (simp add: letters_file_def owed_def leftover_def compio_und_def from_inner_def mem_contents_def)


end
