(* ===== verification/Polled_Writes.thy ===== *)
theory Polled_Writes
  imports Polled_Files
begin

text \<open>
  Writing and seeking through \<open>File\<close> (\<open>src/src/fs.rs\<close>) on a Compio file, over the poll state machine of
  \<open>src/src/fs/io.rs\<close>: an awaited \<open>write\<close> is the write of the \<open>CompioFile\<close>, however often its operation is
  pending and whatever others do meanwhile, so \<open>write_all\<close> keeps the contract of a writer. With the reads
  of \<open>Polled_Files\<close>, what was written is read back.
\<close>

section \<open>A file at rest\<close>

definition at_rest :: "u64 \<Rightarrow> ('f, 'w) file_state \<Rightarrow> bool" where
  "at_rest p st \<longleftrightarrow> inner st = CompioFile p \<and> operation st = None"

text \<open>What happens elsewhere leaves the file alone.\<close>

definition harmless :: "('w \<Rightarrow> byte list) \<Rightarrow> ('w \<Rightarrow> nat) \<Rightarrow> ('w \<Rightarrow> 'w) \<Rightarrow> bool" where
  "harmless contents interrupts others \<longleftrightarrow>
     (\<forall>w. contents (others w) = contents w \<and> interrupts (others w) \<le> interrupts w)"

definition unchanged :: "('w \<Rightarrow> byte list) \<Rightarrow> ('w \<Rightarrow> nat) \<Rightarrow> 'w \<Rightarrow> 'w \<Rightarrow> bool" where
  "unchanged contents interrupts w w' \<longleftrightarrow> contents w' = contents w \<and> interrupts w' \<le> interrupts w"

lemma unchanged_refl [simp]: "unchanged contents interrupts w w"
  by (simp add: unchanged_def)

lemma unchanged_others:
  "harmless contents interrupts others \<Longrightarrow> unchanged contents interrupts (others w) w' \<Longrightarrow>
   unchanged contents interrupts w w'"
  by (auto simp: harmless_def unchanged_def intro: order_trans)

lemma clear_buffered_fields [simp]:
  "inner (clear_buffered st) = inner st" "operation (clear_buffered st) = operation st"
  "world (clear_buffered st) = world st" "buffered (clear_buffered st) = []"
  by (simp_all add: clear_buffered_def)

lemma elsewhere_fields [simp]:
  "inner (elsewhere others st) = inner st" "operation (elsewhere others st) = operation st"
  "world (elsewhere others st) = others (world st)" "buffered (elsewhere others st) = buffered st"
  by (simp_all add: elsewhere_def)

section \<open>An awaited write\<close>

text \<open>
  The write of the buffer is in flight, or will be started by the next poll, and is pending \<open>d\<close> more
  times.
\<close>

definition writing where
  "writing delay p buf d st \<longleftrightarrow> inner st = CompioFile p \<and> buf \<noteq> [] \<and>
     (operation st = Some (WriteFuture (CompioFile p) buf (RunWrite p buf d)) \<or>
      operation st = None \<and> d = delay (length buf))"

lemma writing_future:
  assumes "writing delay p buf d st"
  shows "current_future (\<lambda>fi. write_operation (compio_file_ops ops delay) fi buf) (clear_buffered st) =
    (WriteFuture (CompioFile p) buf (RunWrite p buf d), world st)"
  using assms by (auto simp: writing_def current_future_def write_operation_def compio_file_ops_def)

lemma poll_write_own:
  "inner st = CompioFile p \<Longrightarrow> buf \<noteq> [] \<Longrightarrow> poll_write ops buf st = poll_internal_write ops buf (clear_buffered st)"
  by (simp add: poll_write_def Let_def)

lemma write_pending:
  assumes "writing delay p buf (Suc d) st"
  shows "\<exists>s. poll_write (compio_file_ops ops delay) buf st = Some (Returned Pending, s) \<and>
    writing delay p buf d s \<and> world s = world st"
proof -
  have "future_poll (compio_file_ops ops delay) (WriteFuture (CompioFile p) buf (RunWrite p buf (Suc d)))
      (world st) = (Pending, WriteFuture (CompioFile p) buf (RunWrite p buf d), world st)"
    by (simp add: compio_file_ops_def)
  from poll_ensured [OF writing_future [OF assms] this] assms show ?thesis
    by (auto simp: writing_def poll_write_own) (subst poll_internal_write.simps, simp)+
qed

lemma write_done:
  assumes laws: "compio_laws ops contents interrupts" and st: "writing delay p buf 0 st"
    and c: "compio_write ops buf \<lparr>disk = world st, position = p\<rparr> = (Returned r, f)"
  shows "\<exists>s. poll_write (compio_file_ops ops delay) buf st = Some (Returned (Ready r), s) \<and>
    at_rest (position f) s \<and> world s = disk f"
proof -
  have "future_poll (compio_file_ops ops delay) (WriteFuture (CompioFile p) buf (RunWrite p buf 0)) (world st) =
      (Ready (WriteOut r buf (reported_position (CompioFile p) r (position f))),
       WriteFuture (CompioFile p) buf Idle, disk f)"
    using c by (simp add: compio_file_ops_def)
  note step = poll_ensured [OF writing_future [OF st] this]
  have "r = Inl e \<Longrightarrow> position f = p" for e
    using c by (auto simp: compio_write_def split: prod.splits sum.splits option.splits)
  with step st show ?thesis
    by (cases r) (auto simp: writing_def poll_write_own at_rest_def, (subst poll_internal_write.simps, simp add: Let_def)+)
qed

lemma file_write_step:
  "file_write ops others buf st =
     (case poll_write ops buf st of
        None \<Rightarrow> None
      | Some (Unwound, s) \<Rightarrow> Some (Unwound, s)
      | Some (Returned (Ready r), s) \<Rightarrow> Some (Returned r, s)
      | Some (Returned Pending, s) \<Rightarrow> file_write ops others buf (elsewhere others s))"
  unfolding file_write_def asyncwrite_poll_write_def by (subst await_poll.simps) simp

text \<open>The awaited write is one write of the file at some moment, and comes back.\<close>

lemma file_write_settles:
  assumes laws: "compio_laws ops contents interrupts" and others: "harmless contents interrupts others"
    and st: "writing delay p buf d st"
  shows "\<exists>w r f s. file_write (compio_file_ops ops delay) others buf st = Some (Returned r, s) \<and>
    unchanged contents interrupts (world st) w \<and>
    compio_write ops buf \<lparr>disk = w, position = p\<rparr> = (Returned r, f) \<and> at_rest (position f) s \<and> world s = disk f"
  using st
proof (induction d arbitrary: st)
  case 0
  obtain out f where c: "compio_write ops buf \<lparr>disk = world st, position = p\<rparr> = (out, f)"
    by (cases "compio_write ops buf \<lparr>disk = world st, position = p\<rparr>")
  from compio_writer.write_returns [OF laws c] obtain r where r: "out = Returned r"
    by (cases out) auto
  from write_done [OF laws 0 c [unfolded r]] obtain s where
    s: "poll_write (compio_file_ops ops delay) buf st = Some (Returned (Ready r), s)"
    "at_rest (position f) s" "world s = disk f" by blast
  then have "file_write (compio_file_ops ops delay) others buf st = Some (Returned r, s)"
    by (subst file_write_step) simp
  with s(2,3) c r show ?case by (intro exI [of _ "world st"] exI [of _ r] exI [of _ f] exI [of _ s]) simp
next
  case (Suc d)
  from write_pending [OF Suc.prems, of ops] obtain s where
    s: "poll_write (compio_file_ops ops delay) buf st = Some (Returned Pending, s)"
    "writing delay p buf d s" "world s = world st" by blast
  from s(2) have "writing delay p buf d (elsewhere others s)" by (auto simp: writing_def)
  from Suc.IH [OF this] obtain w r f s' where
    i: "file_write (compio_file_ops ops delay) others buf (elsewhere others s) = Some (Returned r, s')"
    "unchanged contents interrupts (others (world st)) w"
    "compio_write ops buf \<lparr>disk = w, position = p\<rparr> = (Returned r, f)" "at_rest (position f) s'" "world s' = disk f"
    using s(3) by auto
  from s(1) i(1) have "file_write (compio_file_ops ops delay) others buf st = Some (Returned r, s')"
    by (subst file_write_step) simp
  with i(3-5) unchanged_others [OF others i(2)] show ?case
    by (intro exI [of _ w] exI [of _ r] exI [of _ f] exI [of _ s']) simp
qed

section \<open>The contract of a writer\<close>

definition resting where
  "resting ops contents interrupts others st \<longleftrightarrow>
     compio_laws ops contents interrupts \<and> harmless contents interrupts others \<and> (\<exists>p. at_rest p st)"

definition file_put :: "('w \<Rightarrow> byte list) \<Rightarrow> byte list \<Rightarrow> ('f, 'w) file_state \<Rightarrow> byte list" where
  "file_put contents b st = put_at (unat (cursor (inner st))) b (contents (world st))"

lemma file_write_nil: "file_write ops others [] st = Some (Returned (Inr 0), st)"
  by (subst file_write_step) (simp add: poll_write_def)

lemma completed_write_cases:
  assumes r: "resting ops contents interrupts others st"
    and w: "completed_write (compio_file_ops ops delay) others buf st = (out, st')"
  obtains (Nothing) "buf = []" "out = Returned (Inr 0)" "st' = st"
  | (Write) p w r f where "at_rest p st" "unchanged contents interrupts (world st) w" "out = Returned r"
      "compio_write ops buf \<lparr>disk = w, position = p\<rparr> = (Returned r, f)" "at_rest (position f) st'"
      "world st' = disk f"
proof (cases "buf = []")
  case True
  with w show ?thesis by (intro Nothing) (simp_all add: completed_write_def file_write_nil)
next
  case False
  from r obtain p where p: "at_rest p st" and laws: "compio_laws ops contents interrupts"
    and o: "harmless contents interrupts others" by (auto simp: resting_def)
  from p False have "writing delay p buf (delay (length buf)) st" by (simp add: writing_def at_rest_def)
  from file_write_settles [OF laws o this] obtain v r f s where
    s: "file_write (compio_file_ops ops delay) others buf st = Some (Returned r, s)"
      "unchanged contents interrupts (world st) v"
      "compio_write ops buf \<lparr>disk = v, position = p\<rparr> = (Returned r, f)" "at_rest (position f) s" "world s = disk f"
    by blast
  from s(1) w have "out = Returned r" "s = st'" by (auto simp: completed_write_def)
  with s p show ?thesis by (intro Write) auto
qed

lemma file_put_at_rest:
  "at_rest p st \<Longrightarrow> file_put contents b st = compio_put contents b \<lparr>disk = world st, position = p\<rparr>"
  by (simp add: file_put_def compio_put_def at_rest_def)

lemma compio_file_eta [simp]: "\<lparr>disk = disk f, position = position f\<rparr> = f"
  by (cases f) simp

lemma compio_put_unchanged:
  "unchanged contents interrupts w v \<Longrightarrow>
   compio_put contents b \<lparr>disk = v, position = p\<rparr> = compio_put contents b \<lparr>disk = w, position = p\<rparr>"
  by (simp add: compio_put_def unchanged_def)

interpretation polled_writer: file_writer "completed_write (compio_file_ops ops delay) others"
  "resting ops contents interrupts others" "file_put contents" "\<lambda>st. interrupts (world st)"
  for ops :: "'w compio_ops" and delay others contents interrupts
proof
  fix st :: "(compio_body, 'w) file_state" and buf out st'
  assume r: "resting ops contents interrupts others st"
    and w: "completed_write (compio_file_ops ops delay) others buf st = (out, st')"
  from r have "compio_laws ops contents interrupts" "harmless contents interrupts others"
    by (simp_all add: resting_def)
  then show "out \<noteq> Unwound \<and> resting ops contents interrupts others st'"
    by (cases rule: completed_write_cases [OF r w]) (use r in \<open>auto simp: resting_def\<close>)
next
  fix st :: "(compio_body, 'w) file_state" and buf n st'
  assume r: "resting ops contents interrupts others st"
    and w: "completed_write (compio_file_ops ops delay) others buf st = (Returned (Inr n), st')"
  show "n \<le> length buf \<and> (\<forall>more. file_put contents (take n buf @ more) st = file_put contents more st') \<and>
      interrupts (world st') \<le> interrupts (world st)"
  proof (cases rule: completed_write_cases [OF r w])
    case (2 p v r' f)
    note Write = 2
    from r have laws: "compio_laws ops contents interrupts" by (simp add: resting_def)
    from Write(3) have "r' = Inr n" by simp
    note c = compio_write_Inr [OF laws Write(4) [unfolded this]]
    from c [of "[]"] have "n \<le> length buf" and "interrupts (world st') \<le> interrupts v" by (simp_all add: Write(6))
    moreover have "file_put contents (take n buf @ more) st = file_put contents more st'" for more
      using c [of more] Write(6)
      by (simp add: file_put_at_rest [OF Write(1)] file_put_at_rest [OF Write(5)]
          compio_put_unchanged [OF Write(2), symmetric])
    ultimately show ?thesis using Write(2) by (auto simp: unchanged_def)
  qed simp
next
  fix st :: "(compio_body, 'w) file_state" and buf e st'
  assume r: "resting ops contents interrupts others st"
    and w: "completed_write (compio_file_ops ops delay) others buf st = (Returned (Inl e), st')"
  have put: "file_put contents more st' = file_put contents more st" and
    less: "err_kind e = Interrupted \<Longrightarrow> interrupts (world st') < interrupts (world st)" for more
  proof (atomize (full), cases rule: completed_write_cases [OF r w])
    case (2 p v r' f)
    note Write = 2
    from r have laws: "compio_laws ops contents interrupts" by (simp add: resting_def)
    from Write(3) have "r' = Inl e" by simp
    note c = compio_write_Inl [OF laws Write(4) [unfolded this], of more]
    from c Write(2,6) show "file_put contents more st' = file_put contents more st \<and>
        (err_kind e = Interrupted \<longrightarrow> interrupts (world st') < interrupts (world st))"
      by (auto simp: file_put_at_rest [OF Write(1)] file_put_at_rest [OF Write(5)]
          compio_put_unchanged [OF Write(2), symmetric] unchanged_def)
  qed simp
  from less show "err_kind e = Interrupted \<Longrightarrow> (\<forall>more. file_put contents more st' = file_put contents more st) \<and>
      interrupts (world st') < interrupts (world st)" using put by blast
  from put show "file_put contents [] st' = file_put contents [] st" .
qed

section \<open>An awaited seek\<close>

definition seeking where
  "seeking delay p q d st \<longleftrightarrow> inner st = CompioFile p \<and>
     (operation st = Some (SeekFuture (CompioFile p) q (RunSeek p q d)) \<or> operation st = None \<and> d = delay 0)"

lemma seeking_future:
  assumes "seeking delay p q d st"
  shows "current_future (\<lambda>fi. seek_operation (compio_file_ops ops delay) fi q) (clear_buffered st) =
    (SeekFuture (CompioFile p) q (RunSeek p q d), world st)"
  using assms by (auto simp: seeking_def current_future_def seek_operation_def compio_file_ops_def)

lemma poll_seek_own: "inner st = CompioFile p \<Longrightarrow> poll_seek ops q st = poll_internal_seek ops q (clear_buffered st)"
  by (simp add: poll_seek_def Let_def)

lemma seek_pending:
  assumes "seeking delay p q (Suc d) st"
  shows "\<exists>s. poll_seek (compio_file_ops ops delay) q st = Some (Returned Pending, s) \<and>
    seeking delay p q d s \<and> world s = world st"
proof -
  have "future_poll (compio_file_ops ops delay) (SeekFuture (CompioFile p) q (RunSeek p q (Suc d))) (world st) =
      (Pending, SeekFuture (CompioFile p) q (RunSeek p q d), world st)"
    by (simp add: compio_file_ops_def)
  from poll_ensured [OF seeking_future [OF assms] this] assms show ?thesis
    by (auto simp: seeking_def poll_seek_own) (subst poll_internal_seek.simps, simp)+
qed

text \<open>A seek to a place counted from the start needs no length and succeeds.\<close>

lemma seek_start_done:
  assumes st: "seeking delay p (Start q) 0 st"
  shows "\<exists>s. poll_seek (compio_file_ops ops delay) (Start q) st = Some (Returned (Ready (Inr q)), s) \<and>
    at_rest q s \<and> world s = world st \<and> buffered s = []"
proof -
  have "future_poll (compio_file_ops ops delay) (SeekFuture (CompioFile p) (Start q) (RunSeek p (Start q) 0))
      (world st) = (Ready (SeekOut (Start q) (Inr q)), SeekFuture (CompioFile p) (Start q) Idle, world st)"
    by (simp add: compio_file_ops_def compio_seek_start)
  from poll_ensured [OF seeking_future [OF st] this] st show ?thesis
    by (auto simp: seeking_def poll_seek_own at_rest_def)
      (subst poll_internal_seek.simps, simp add: Let_def)+
qed

lemma file_seek_step:
  "file_seek ops others q st =
     (case poll_seek ops q st of
        None \<Rightarrow> None
      | Some (Unwound, s) \<Rightarrow> Some (Unwound, s)
      | Some (Returned (Ready r), s) \<Rightarrow> Some (Returned r, s)
      | Some (Returned Pending, s) \<Rightarrow> file_seek ops others q (elsewhere others s))"
  unfolding file_seek_def asyncseek_poll_def by (subst await_poll.simps) simp

lemma file_seek_start_settles:
  assumes others: "harmless contents interrupts others" and st: "seeking delay p (Start q) d st"
  shows "\<exists>s. file_seek (compio_file_ops ops delay) others (Start q) st = Some (Returned (Inr q), s) \<and>
    at_rest q s \<and> unchanged contents interrupts (world st) (world s) \<and> buffered s = []"
  using st
proof (induction d arbitrary: st)
  case 0
  from seek_start_done [OF 0, of ops] obtain s where
    s: "poll_seek (compio_file_ops ops delay) (Start q) st = Some (Returned (Ready (Inr q)), s)"
    "at_rest q s" "world s = world st" "buffered s = []" by blast
  then show ?case by (subst file_seek_step) simp
next
  case (Suc d)
  from seek_pending [OF Suc.prems, of ops] obtain s where
    s: "poll_seek (compio_file_ops ops delay) (Start q) st = Some (Returned Pending, s)"
    "seeking delay p (Start q) d s" "world s = world st" by blast
  from s(2) have "seeking delay p (Start q) d (elsewhere others s)" by (auto simp: seeking_def)
  from Suc.IH [OF this] obtain s' where
    i: "file_seek (compio_file_ops ops delay) others (Start q) (elsewhere others s) = Some (Returned (Inr q), s')"
    "at_rest q s'" "unchanged contents interrupts (others (world st)) (world s')" "buffered s' = []"
    using s(3) by auto
  from i s(1) unchanged_others [OF others i(3)] show ?case by (subst file_seek_step) simp
qed

section \<open>Written, then read back\<close>

lemma rest_after_seek:
  assumes "at_rest p s" and "buffered s = []"
  shows "owed (compio_und contents) s = drop (unat p) (contents (world s))"
    and "readable_file compio_reads body_asks s"
  using assms
  by (simp_all add: owed_def leftover_def compio_und_def at_rest_def readable_file_def reading_def compio_reads_def)

text \<open>
  C17: what was written through \<open>File\<close> is what is read back through it. On a Compio file with nothing in
  flight, however often operations are pending and whatever others do that leaves the file alone:
  \<open>write_all\<close> comes back, and when it succeeded, the seek back to where it started and a \<open>read_exact\<close> of as
  many bytes come back, and the bytes read are those written.
\<close>

theorem file_write_read_roundtrip:
  assumes "compio_laws ops contents interrupts" and "harmless contents interrupts others"
    and "at_rest p st" and "buf \<noteq> []" and "length into = length buf"
  shows "\<exists>r s1. file_write_all (compio_file_ops ops delay) others buf st = Some (Returned r, s1) \<and>
    (r = Inr () \<longrightarrow>
      (\<exists>s2. file_seek (compio_file_ops ops delay) others (Start p) s1 = Some (Returned (Inr p), s2) \<and>
        (\<exists>r' got s3. file_read_exact (compio_file_ops ops delay) others into s2 = Some (Returned r', got, s3) \<and>
          (r' = Inr () \<longrightarrow> got = buf))))"
proof -
  let ?ops = "compio_file_ops ops delay"
  from assms(1-3) have "resting ops contents interrupts others st" by (auto simp: resting_def)
  from polled_writer.write_all_correct [OF this, of delay buf] obtain r s1 n where
    w: "file_write_all ?ops others buf st = Some (Returned r, s1)" "resting ops contents interrupts others s1"
    and put: "file_put contents [] s1 = file_put contents (take n buf) st" and n: "r = Inr () \<Longrightarrow> n = length buf"
    unfolding file_write_all_def by (fastforce split: sum.splits)
  from w(2) obtain p1 where "at_rest p1 s1" by (auto simp: resting_def)
  then have "seeking delay p1 (Start p) (delay 0) s1" by (simp add: seeking_def at_rest_def)
  from file_seek_start_settles [OF assms(2) this, of ops] obtain s2 where
    s2: "file_seek ?ops others (Start p) s1 = Some (Returned (Inr p), s2)" "at_rest p s2"
    "unchanged contents interrupts (world s1) (world s2)" "buffered s2 = []" by blast
  have "polled_file ?ops (compio_und contents) compio_reads body_asks body_left interrupts others s2"
    using assms(2) by (intro compio_polled_file [OF assms(1)] rest_after_seek [OF s2(2,4)])
      (simp add: harmless_def)
  from polled_reader.read_exact_correct [OF this, of into] obtain r' got s3 k where
    g: "file_read_exact ?ops others into s2 = Some (Returned r', got, s3)" "length got = length into"
    "owed (compio_und contents) s2 = take k got @ owed (compio_und contents) s3"
    and k: "r' = Inr () \<Longrightarrow> k = length into"
    unfolding file_read_exact_def by (fastforce split: sum.splits)
  have "got = buf" if "r = Inr ()" "r' = Inr ()"
  proof -
    from put n [OF that(1)] assms(3) s2(3) have "contents (world s2) = put_at (unat p) buf (contents (world st))"
      by (simp add: file_put_def unchanged_def at_rest_def)
    with g(3) have "got @ owed (compio_und contents) s3 = buf @ drop (unat p + length buf) (contents (world st))"
      using k [OF that(2)] g(2) by (simp add: rest_after_seek(1) [OF s2(2,4)] put_at_drop [OF assms(4)])
    with g(2) assms(5) show ?thesis by simp
  qed
  with w(1) s2(1) g(1) show ?thesis by blast
qed

text \<open>Two bytes into a file of four, every operation on two bytes being pending once.\<close>

lemma sample_write_all:
  "file_write_all (compio_file_ops mem_compio (\<lambda>n. if n = 2 then 1 else 0)) id [7, 8]
     (from_inner (CompioFile 1) [1, 2, 3, 4]) =
   Some (Returned (Inr ()), from_inner (CompioFile 3) [1, 7, 8, 4])"
  by (simp add: file_write_all_def completed_write_def write_all.simps [of _ "[7, 8]"] write_all.simps [of _ "[]"]
      file_write_step [of _ _ "[7, 8]"] poll_write_def poll_internal_write.simps compio_file_ops_def demo_steps
      elsewhere_def)

theorem file_write_read_roundtrip_witness:
  "\<exists>s2 r' got s3. file_seek (compio_file_ops mem_compio (\<lambda>n. if n = 2 then 1 else 0)) id (Start 1)
      (from_inner (CompioFile 3) [1, 7, 8, 4]) = Some (Returned (Inr 1), s2) \<and>
    file_read_exact (compio_file_ops mem_compio (\<lambda>n. if n = 2 then 1 else 0)) id [0, 0] s2 =
      Some (Returned r', got, s3) \<and> (case r' of Inr u \<Rightarrow> got = [7, 8] | Inl e \<Rightarrow> True)"
proof -
  let ?delay = "\<lambda>n :: nat. if n = 2 then 1 else 0 :: nat"
  have h: "harmless mem_contents (\<lambda>w. 0) id" by (simp add: harmless_def)
  have r: "at_rest 1 (from_inner (CompioFile 1) [1, 2, 3, 4] :: (compio_body, byte list) file_state)"
    by (simp add: at_rest_def from_inner_def)
  let ?ops = "compio_file_ops mem_compio ?delay"
  from file_write_read_roundtrip [OF mem_compio_laws h r, of "[7, 8]" "[0, 0]" ?delay] sample_write_all
  obtain s2 r' got s3 where
    s: "file_seek ?ops id (Start 1) (from_inner (CompioFile 3) [1, 7, 8, 4]) = Some (Returned (Inr 1), s2)"
    "file_read_exact ?ops id [0, 0] s2 = Some (Returned r', got, s3)" and "r' = Inr () \<Longrightarrow> got = [7, 8]"
    by auto
  then have "case r' of Inr u \<Rightarrow> got = [7, 8] | Inl e \<Rightarrow> True" by (simp split: sum.split)
  with s show ?thesis by blast
qed

end
