(* ===== verification/Ambient_Io.thy ===== *)
theory Ambient_Io
  imports File_System_Properties Network
begin

text \<open>
  The functions of \<open>src/src/fs.rs\<close> and the constructors of \<open>src/src/net\<close> that take no file system or
  network: they use those of the executor of the running task, \<open>current()\<close>. The context is an argument of
  its own here, the first state \<open>s\<close>.
\<close>

section \<open>Files and directories\<close>

definition file_options :: open_options where
  "file_options = open_options_new"

definition file_open where
  "file_open be dflt th s path = builtin_open be (current_fs dflt th s) path"

definition file_create where
  "file_create be dflt th s path = builtin_create be (current_fs dflt th s) path"

definition read_path where
  "read_path be dflt th s path = builtin_read be (current_fs dflt th s) path"

definition read_path_to_string where
  "read_path_to_string be dflt th s path = builtin_read_to_string be (current_fs dflt th s) path"

definition metadata_path where
  "metadata_path be dflt th s path = builtin_metadata be (current_fs dflt th s) path"

definition symlink_metadata_path where
  "symlink_metadata_path be dflt th s path = builtin_symlink_metadata be (current_fs dflt th s) path"

definition set_permissions_path where
  "set_permissions_path be dflt th s path q = builtin_set_permissions be (current_fs dflt th s) path q"

definition write_path where
  "write_path be dflt th s path contents = builtin_write be (current_fs dflt th s) path contents"

definition create_dir_path where
  "create_dir_path be dflt th s path = builtin_create_dir be (current_fs dflt th s) path"

definition create_dir_all_path where
  "create_dir_all_path be dflt th s path = builtin_create_dir_all be (current_fs dflt th s) path"

definition read_dir_path where
  "read_dir_path be dflt th s path = builtin_read_dir be (current_fs dflt th s) path"

definition remove_dir_path where
  "remove_dir_path be dflt th s path = builtin_remove_dir be (current_fs dflt th s) path"

definition remove_dir_all_path where
  "remove_dir_all_path be dflt th s path = builtin_remove_dir_all be (current_fs dflt th s) path"

definition remove_file_path where
  "remove_file_path be dflt th s path = builtin_remove_file be (current_fs dflt th s) path"

definition rename_path where
  "rename_path be dflt th s src dst = builtin_rename be (current_fs dflt th s) src dst"

definition copy_path where
  "copy_path be dflt th s src dst = builtin_copy be (current_fs dflt th s) src dst"

definition canonicalize_path where
  "canonicalize_path be dflt th s path = builtin_canonicalize be (current_fs dflt th s) path"

definition try_exists_path where
  "try_exists_path be dflt th s path = builtin_try_exists be (current_fs dflt th s) path"

section \<open>Sockets\<close>

definition tcp_socket_new_v4 where
  "tcp_socket_new_v4 nc dflt th s = builtin_new_tcp_socket_v4 nc (current_net dflt th s)"

definition tcp_socket_new_v6 where
  "tcp_socket_new_v6 nc dflt th s = builtin_new_tcp_socket_v6 nc (current_net dflt th s)"

definition tcp_stream_connect where
  "tcp_stream_connect nc dflt th s a = builtin_connect_tcp nc (current_net dflt th s) a"

definition tcp_listener_bind where
  "tcp_listener_bind nc dflt th s a = builtin_bind_tcp nc (current_net dflt th s) a"

definition udp_socket_bind where
  "udp_socket_bind nc dflt th s a = builtin_bind_udp nc (current_net dflt th s) a"

definition unix_stream_connect where
  "unix_stream_connect nc dflt th s path = builtin_connect_unix nc (current_net dflt th s) path"

definition unix_listener_bind where
  "unix_listener_bind nc dflt th s path = builtin_bind_unix nc (current_net dflt th s) path"

lemmas file_calls = file_open_def file_create_def read_path_def read_path_to_string_def metadata_path_def
  symlink_metadata_path_def set_permissions_path_def write_path_def create_dir_path_def
  create_dir_all_path_def read_dir_path_def remove_dir_path_def remove_dir_all_path_def
  remove_file_path_def rename_path_def copy_path_def canonicalize_path_def try_exists_path_def

lemmas socket_calls = tcp_socket_new_v4_def tcp_socket_new_v6_def tcp_stream_connect_def
  tcp_listener_bind_def udp_socket_bind_def unix_stream_connect_def unix_listener_bind_def

section \<open>A task's files and sockets\<close>

text \<open>
  The body of a task that was spawned under an executor finds that executor's file system and network,
  whichever thread polls it and whatever that thread's own context is.
\<close>

lemma task_current:
  "with_exec_poll (\<lambda>f s1. (Returned (Ready (look (current_fs dflt th s1) (current_net dflt th s1)), f), s1))
     th (with_exec_new e fut) s =
   (Returned (Ready (look (filesystem_of e) (network_of e)), with_exec_new e fut), s)"
  by (simp add: with_exec_poll_def with_executor_def enter_executor_def with_exec_new_def current_fs_def
      current_net_def task_executor_def drop_context_guard_def)

text \<open>What every call of the module does when the context names a native executor.\<close>

definition calls_like_std where
  "calls_like_std be dflt th s std \<longleftrightarrow>
     (\<forall>path. map_io native_handle (file_open be dflt th s path) = map_io Some (fs_open (nt_base std) path)) \<and>
     (\<forall>path. map_io native_handle (file_create be dflt th s path) = map_io Some (fs_create (nt_base std) path)) \<and>
     read_path be dflt th s = fs_read (nt_base std) \<and>
     read_path_to_string be dflt th s = fs_read_to_string (nt_base std) \<and>
     write_path be dflt th s = fs_write (nt_base std) \<and>
     create_dir_path be dflt th s = fs_create_dir (nt_dirs std) \<and>
     create_dir_all_path be dflt th s = fs_create_dir_all (nt_dirs std) \<and>
     remove_dir_path be dflt th s = fs_remove_dir (nt_dirs std) \<and>
     remove_dir_all_path be dflt th s = fs_remove_dir_all (nt_dirs std) \<and>
     remove_file_path be dflt th s = fs_remove_file (nt_dirs std) \<and>
     (\<forall>src dst w. rename_path be dflt th s src dst w = Some (fs_rename (nt_dirs std) src dst w)) \<and>
     copy_path be dflt th s = fs_copy (nt_dirs std) \<and>
     canonicalize_path be dflt th s = fs_canonicalize (nt_dirs std) \<and>
     try_exists_path be dflt th s = fs_try_exists (nt_dirs std)"

lemma native_calls_like_std:
  assumes "task_executor dflt th s \<in> {Tokio, Smol, ThreadPool, LiteExec}"
    and "wraps_std be std" and "runs_jobs be"
  shows "calls_like_std be dflt th s std"
proof -
  from assms(1) have "current_fs dflt th s \<in> {FsTokio, FsSmol, FsThreadPool, FsLite}"
    by (auto simp: current_fs_def)
  from native_like_std [OF this assms(2,3)] show ?thesis
    by (simp add: calls_like_std_def like_defs file_calls fun_eq_iff)
qed



end
