(* ===== verification/Compio_Wakeup.thy ===== *)
theory Compio_Wakeup
  imports Join_Handle Lite_Wakeup
begin

text \<open>
  The wakers of a Compio handle that is being cancelled (\<open>CompioCancel\<close> and \<open>CompioCancelWake\<close> in
  \<open>src/src/lib.rs\<close>), which \<open>Join_Handle\<close> leaves out. The cancellation future is polled with a waker of the
  crate's own, by \<open>start_compio_cancel\<close>, by \<open>is_finished\<close> and by the owner's poll, which stores the
  owner's waker in an \<open>AtomicWaker\<close> first. The lock of the handle lets one of the three in at a time;
  the runtime runs beside them, and may complete or wake at any moment.
\<close>

section \<open>State\<close>

text \<open>
  \<open>inner_armed\<close>: the future holds the crate's waker and has not woken it; \<open>wake_due\<close>: the runtime completed
  the future and is about to wake it; \<open>polling\<close>: the owner's poll between its two steps; \<open>waiting\<close>: whose
  latest poll was pending; \<open>woken\<close>: who was woken since polling last.
\<close>

record 'aw cancel_state =
  outer_waker :: 'aw
  cancel_done :: bool
  inner_armed :: bool
  wake_due :: bool
  polling :: "nat option"
  waiting :: "nat option"
  woken :: "nat set"
  cancel_ready :: bool

text \<open>After \<open>start_compio_cancel\<close>, whose own poll of the future was pending.\<close>

definition cancel_started :: "'aw \<Rightarrow> 'aw cancel_state" where
  "cancel_started a = \<lparr>outer_waker = a, cancel_done = False, inner_armed = True, wake_due = False,
     polling = None, waiting = None, woken = {}, cancel_ready = False\<rparr>"

section \<open>Steps\<close>

text \<open>\<open>CompioCancelWake::wake_by_ref\<close>.\<close>

definition cancel_wake :: "'aw waker_ops \<Rightarrow> 'aw cancel_state \<Rightarrow> 'aw cancel_state" where
  "cancel_wake ops s =
     (case aw_wake ops (outer_waker s) of
        (None, a) \<Rightarrow> s\<lparr>outer_waker := a\<rparr>
      | (Some c, a) \<Rightarrow> s\<lparr>outer_waker := a, woken := insert c (woken s)\<rparr>)"

text \<open>\<open>CompioCancel::poll\<close> in the context \<open>c\<close>: first the owner's waker is stored.\<close>

definition cancel_register :: "'aw waker_ops \<Rightarrow> nat \<Rightarrow> 'aw cancel_state \<Rightarrow> 'aw cancel_state" where
  "cancel_register ops c s =
     s\<lparr>outer_waker := aw_register ops c (outer_waker s), polling := Some c, waiting := None,
       woken := woken s - {c}\<rparr>"

text \<open>\<open>poll_inner\<close>, with the crate's waker; what becomes of the answer differs.\<close>

definition cancel_poll_inner :: "'aw cancel_state \<Rightarrow> bool \<times> 'aw cancel_state" where
  "cancel_poll_inner s =
     (if cancel_done s then (True, s\<lparr>cancel_ready := True\<rparr>) else (False, s\<lparr>inner_armed := True\<rparr>))"

definition cancel_finish_poll :: "nat \<Rightarrow> 'aw cancel_state \<Rightarrow> 'aw cancel_state" where
  "cancel_finish_poll c s =
     (case cancel_poll_inner s of
        (True, s') \<Rightarrow> s'\<lparr>polling := None\<rparr>
      | (False, s') \<Rightarrow> s'\<lparr>polling := None, waiting := Some c\<rparr>)"

definition cancel_query :: "'aw cancel_state \<Rightarrow> 'aw cancel_state" where
  "cancel_query s = snd (cancel_poll_inner s)"

text \<open>
  The runtime: it completes the future and owes a wake to the waker the future holds; it may also wake
  without need, and then holds the waker no more.
\<close>

inductive cancel_step :: "'aw waker_ops \<Rightarrow> 'aw cancel_state \<Rightarrow> 'aw cancel_state \<Rightarrow> bool" for ops where
  Register: "polling s = None \<Longrightarrow> \<not> cancel_ready s \<Longrightarrow> cancel_step ops s (cancel_register ops c s)"
| PollInner: "polling s = Some c \<Longrightarrow> cancel_step ops s (cancel_finish_poll c s)"
| Query: "polling s = None \<Longrightarrow> \<not> cancel_ready s \<Longrightarrow> cancel_step ops s (cancel_query s)"
| Complete: "\<not> cancel_done s \<Longrightarrow>
    cancel_step ops s (s\<lparr>cancel_done := True, wake_due := inner_armed s, inner_armed := False\<rparr>)"
| Deliver: "wake_due s \<Longrightarrow> cancel_step ops s (cancel_wake ops (s\<lparr>wake_due := False\<rparr>))"
| Spurious: "inner_armed s \<Longrightarrow> cancel_step ops s (cancel_wake ops (s\<lparr>inner_armed := False\<rparr>))"

inductive cancel_reach :: "'aw waker_ops \<Rightarrow> 'aw cancel_state \<Rightarrow> bool" for ops where
  Begin: "cancel_reach ops (cancel_started a)"
| Next: "cancel_reach ops s \<Longrightarrow> cancel_step ops s s' \<Longrightarrow> cancel_reach ops s'"

section \<open>The invariant\<close>

definition holds_waker :: "'aw waker_ops \<Rightarrow> 'aw cancel_state \<Rightarrow> nat \<Rightarrow> bool" where
  "holds_waker ops s c \<longleftrightarrow> c \<in> woken s \<or> fst (aw_wake ops (outer_waker s)) = Some c"

definition cancel_inv :: "'aw waker_ops \<Rightarrow> 'aw cancel_state \<Rightarrow> bool" where
  "cancel_inv ops s \<longleftrightarrow>
     (\<forall>c. polling s = Some c \<longrightarrow> waiting s = None \<and> holds_waker ops s c) \<and>
     (wake_due s \<longrightarrow> cancel_done s) \<and>
     (\<forall>c. waiting s = Some c \<longrightarrow>
        c \<in> woken s \<or> holds_waker ops s c \<and> (if cancel_done s then wake_due s else inner_armed s))"

lemma cancel_wake_fields [simp]:
  "polling (cancel_wake ops s) = polling s" "waiting (cancel_wake ops s) = waiting s"
  "inner_armed (cancel_wake ops s) = inner_armed s" "cancel_done (cancel_wake ops s) = cancel_done s"
  "wake_due (cancel_wake ops s) = wake_due s"
  by (simp_all add: cancel_wake_def split: prod.splits option.splits)

text \<open>A wake reaches whoever is stored, and takes nobody's wake back.\<close>

lemma cancel_wake_woken: "holds_waker ops s c \<Longrightarrow> c \<in> woken (cancel_wake ops s)"
  by (cases "aw_wake ops (outer_waker s)") (auto simp: holds_waker_def cancel_wake_def split: option.splits)

lemma woken_holds: "c \<in> woken s \<Longrightarrow> holds_waker ops s c"
  by (simp add: holds_waker_def)

lemma cancel_wake_inv:
  assumes "\<And>c. polling s = Some c \<Longrightarrow> waiting s = None \<and> holds_waker ops s c"
    and "\<And>c. waiting s = Some c \<Longrightarrow> holds_waker ops s c" and "wake_due s \<Longrightarrow> cancel_done s"
  shows "cancel_inv ops (cancel_wake ops s)"
proof -
  have "c \<in> woken (cancel_wake ops s)" if "waiting s = Some c" for c
    by (rule cancel_wake_woken [OF assms(2) [OF that]])
  moreover have "holds_waker ops (cancel_wake ops s) c" if "polling s = Some c" for c
    by (rule woken_holds [OF cancel_wake_woken [OF assms(1) [OF that, THEN conjunct2]]])
  ultimately show ?thesis
    using assms(1,3) unfolding cancel_inv_def cancel_wake_fields by blast
qed

lemma cancel_step_inv:
  assumes laws: "waker_laws ops" and "cancel_step ops s s'" and "cancel_inv ops s"
  shows "cancel_inv ops s'"
  using assms(2,3)
proof cases
  case (Register c)
  with laws assms(3) show ?thesis by (auto simp: cancel_inv_def cancel_register_def holds_waker_def waker_laws_def)
next
  case (PollInner c)
  with assms(3) show ?thesis
    by (auto simp: cancel_inv_def cancel_finish_poll_def cancel_poll_inner_def holds_waker_def)
next
  case Query
  with assms(3) show ?thesis
    by (auto simp: cancel_inv_def cancel_query_def cancel_poll_inner_def holds_waker_def)
next
  case Complete
  with assms(3) show ?thesis by (auto simp: cancel_inv_def holds_waker_def)
next
  case Deliver
  with assms(3) show ?thesis
    by (simp only:, intro cancel_wake_inv) (auto simp: cancel_inv_def holds_waker_def)
next
  case Spurious
  with assms(3) show ?thesis
    by (simp only:, intro cancel_wake_inv) (auto simp: cancel_inv_def holds_waker_def)
qed

lemma cancel_reach_inv: "cancel_reach ops s \<Longrightarrow> waker_laws ops \<Longrightarrow> cancel_inv ops s"
proof (induction rule: cancel_reach.induct)
  case (Begin a)
  show ?case by (simp add: cancel_inv_def cancel_started_def)
next
  case (Next s s')
  from cancel_step_inv [OF Next.prems Next.hyps(2) Next.IH [OF Next.prems]] show ?case .
qed

section \<open>Properties\<close>

text \<open>
  C10: no wake of a cancellation is lost. Whatever the order in which the owner polls, the handle is
  asked whether it is finished, and the runtime completes or wakes needlessly, an owner whose latest
  poll was pending has been woken since, or the future still holds the waker that leads to it, or,
  once the cancellation is complete, the wake the runtime owes reaches it.
\<close>

theorem compio_cancel_wakes:
  assumes "waker_laws ops" and "cancel_reach ops s" and "waiting s = Some c"
  shows "c \<in> woken s \<or>
    (if cancel_done s then wake_due s \<and> c \<in> woken (cancel_wake ops (s\<lparr>wake_due := False\<rparr>))
     else inner_armed s \<and> c \<in> woken (cancel_wake ops (s\<lparr>inner_armed := False\<rparr>)))"
proof (cases "c \<in> woken s")
  case False
  from cancel_reach_inv [OF assms(2,1)] assms(3) False
  have h: "holds_waker ops s c" and d: "if cancel_done s then wake_due s else inner_armed s"
    by (auto simp: cancel_inv_def)
  from h have "holds_waker ops (s\<lparr>wake_due := False\<rparr>) c" "holds_waker ops (s\<lparr>inner_armed := False\<rparr>) c"
    by (simp_all add: holds_waker_def)
  with d cancel_wake_woken show ?thesis by auto
qed simp

text \<open>The owner polls in context 4, then the runtime completes the cancellation.\<close>

theorem compio_cancel_wakes_witness:
  "4 \<in> woken (cancel_wake slot_waker \<lparr>outer_waker = Some 4, cancel_done = True, inner_armed = False,
     wake_due = False, polling = None, waiting = Some 4, woken = {}, cancel_ready = False\<rparr>)"
proof -
  let ?s = "\<lambda>a dn arm due p w. \<lparr>outer_waker = a, cancel_done = dn, inner_armed = arm, wake_due = due,
     polling = p, waiting = w, woken = {}, cancel_ready = False\<rparr> :: nat option cancel_state"
  have "cancel_reach slot_waker (?s None False True False None None)"
    using cancel_reach.Begin [of slot_waker None] by (simp add: cancel_started_def)
  from cancel_reach.Next [OF this cancel_step.Register [of _ _ 4]]
  have "cancel_reach slot_waker (?s (Some 4) False True False (Some 4) None)"
    by (simp add: cancel_register_def slot_waker_def)
  from cancel_reach.Next [OF this cancel_step.PollInner [of _ 4]]
  have "cancel_reach slot_waker (?s (Some 4) False True False None (Some 4))"
    by (simp add: cancel_finish_poll_def cancel_poll_inner_def)
  from cancel_reach.Next [OF this cancel_step.Complete]
  have "cancel_reach slot_waker (?s (Some 4) True False True None (Some 4))" by simp
  from compio_cancel_wakes [OF slot_waker_laws this, of 4] show ?thesis by simp
qed

end
