(* ===== verification/Spec2Isabelle.thy ===== *)
theory Spec2Isabelle
  imports Prelude Lite Lite_Wakeup Selection Macros Task_Context Join_Handle Spawned_Task File_Traits
    File_Handles File_Properties File_Poll File_Poll_Properties Abortable Coroutine Delays Scoped
    Scoped_Coroutine Scope_Executor Tracker
    Metadata Wasm_Paths Wasm Wasm_Directories Wasm_Contents Opfs_Tree Wasm_Properties
    File_Systems Builtin_Files File_System_Properties Udp_Buffers Sockets Streams Network Forwarding
    Runtimes Blocking_Tasks Awaited_Tasks Task_Api Polled_Files Polled_Writes Ambient_Io Compio_Wakeup
begin

text \<open>
  Verification of async-rt, a Rust crate that gives one interface to several asynchronous runtimes: tasks
  and their handles, scopes, timers, files and sockets, and a small runtime of its own. Paths below are
  relative to the repository; everything modelled is in \<open>src/src\<close> and \<open>src/async-rt-macros/src\<close>.

  \<^bold>\<open>The program and its parts.\<close> An executor (\<open>Executor\<close> and its sister traits, \<open>lib.rs\<close>) spawns futures and
  blocking closures and answers a \<open>JoinHandle\<close>. The executors are those of Tokio, smol, Compio, a thread
  pool, Wasm, the lite runtime and a dummy (\<open>rt/\<close>), \<open>BuiltinExecutor\<close> over them (\<open>global/executor.rs\<close>),
  \<open>ConfiguredExecutor\<close> (\<open>global.rs\<close>), the wrappers \<open>Either\<close>, \<open>Arc\<close>, \<open>Rc\<close> and \<open>TrackerExecutor\<close>, and the scopes of
  \<open>scoped.rs\<close>. The free functions of \<open>task.rs\<close> use the executor of the current thread, which every spawned
  future carries with it; the file system (\<open>fs/\<close>) and the network (\<open>net/\<close>) follow the same context. The
  attribute macros expand to \<open>block_on\<close> under a chosen executor.

  \<^bold>\<open>Theories and sources.\<close> Definitions keep the names of the code; where a name is taken in HOL, or two
  types have a method of the same name, the type's name is put before it (\<open>lite_block_on\<close>,
  \<open>wasm_rename\<close>). The state of a component is a record with the fields of its struct.
  \<^item> \<open>Prelude\<close>: \<open>Poll\<close>, calls that may unwind (\<open>outcome\<close>), \<open>io::Error\<close> and the \<open>?\<close> operator, \<open>u64\<close>, \<open>Vec\<close>.
  \<^item> Tasks. \<open>Join_Handle\<close>: \<open>JoinHandle\<close> over its four kinds of inner handle, \<open>error.rs\<close>. \<open>Compio_Wakeup\<close>: the
    wakers of a Compio handle being cancelled. \<open>Spawned_Task\<close>: the block \<open>spawn\<close> puts around a future
    (\<open>abortable_result\<close>, result channel, completion guard). \<open>Blocking_Tasks\<close>: the futures of \<open>spawn_blocking\<close>
    with their thread. \<open>Abortable\<close>: \<open>AbortableJoinHandle\<close> and the communication tasks. \<open>Coroutine\<close>: the
    message loops of \<open>Executor::spawn_coroutine\<close> and its variants. \<open>Delays\<close>: timeouts and delays.
  \<^item> Executors. \<open>Lite\<close>: the queue and driver of \<open>rt/lite.rs\<close> as functions; \<open>Lite_Wakeup\<close>: the same driver cut
    at its lock sections, against concurrent spawners; \<open>Awaited_Tasks\<close>: spawn and \<open>block_on\<close> put together.
    \<open>Runtimes\<close>: every other executor of \<open>rt/\<close> and \<open>BuiltinExecutor\<close>. \<open>Forwarding\<close>: \<open>either.rs\<close>, \<open>arc.rs\<close>,
    \<open>rc.rs\<close> and the provided trait methods. \<open>Tracker\<close>: \<open>tracker.rs\<close>. \<open>Selection\<close>: conditional compilation as
    functions of a \<open>config\<close>. \<open>Macros\<close>: the attribute macros.
  \<^item> Context. \<open>Task_Context\<close>: \<open>CURRENT_EXECUTOR\<close>, its guards, \<open>WithExecutor\<close>, \<open>ConfiguredExecutor\<close>;
    \<open>Task_Api\<close>: the functions of \<open>task.rs\<close>; \<open>Ambient_Io\<close>: those of \<open>fs.rs\<close> and \<open>net/\<close>.
  \<^item> Scopes (\<open>scoped.rs\<close>). \<open>Scoped\<close>: \<open>scope\<close>, its inbox and driver; \<open>Scoped_Coroutine\<close>: its other spawns;
    \<open>Scope_Executor\<close>: \<open>executor_scope\<close>.
  \<^item> Files (\<open>fs/\<close>). \<open>File_Traits\<close>: the provided methods of \<open>FileRead\<close>, \<open>FileWrite\<close>, \<open>FileSeek\<close>; \<open>File_Handles\<close>:
    \<open>CompioFile\<close>, \<open>BlockingFile\<close>; \<open>File_Poll\<close>: the poll state machine of \<open>fs/io.rs\<close>; \<open>Polled_Files\<close>,
    \<open>Polled_Writes\<close>: the methods of \<open>File\<close> over it, reading and writing; \<open>Metadata\<close>; \<open>File_Systems\<close>: the
    file systems; \<open>Builtin_Files\<close>: the one that follows the executor. \<open>Wasm_Paths\<close>, \<open>Wasm\<close>, \<open>Wasm_Directories\<close>: the browser file system; \<open>Wasm_Contents\<close>: what its
    functions do to the contents of files; \<open>Opfs_Tree\<close>: a browser file system in memory for the witnesses.
  \<^item> Network (\<open>net/\<close>). \<open>Udp_Buffers\<close>: the kept buffers of a Compio socket; \<open>Sockets\<close>: TCP sockets;
    \<open>Streams\<close>: TCP and Unix streams and listeners; \<open>Network\<close>: UDP sockets and the built-in network.
  \<^item> \<open>File_Properties\<close>, \<open>File_Poll_Properties\<close>, \<open>File_System_Properties\<close>, \<open>Wasm_Properties\<close> hold the
    properties of the theories they are named after; the other properties close their own theory.

  \<^bold>\<open>How the code is translated.\<close> An asynchronous function is its completed call where nothing can come
  between its awaits, and otherwise a poll function over a datatype with one constructor per await. A
  panic is \<open>Unwound\<close>; an error is the left of a sum. The type \<open>u64\<close> is a 64-bit word, and so is the counter
  of the tracker; \<open>i128\<close> is written out as \<open>int\<close> with its bounds. Concurrency is an \<open>inductive\<close> step relation
  over atomic actions (\<open>Lite_Wakeup\<close>, \<open>Blocking_Tasks\<close>, \<open>Compio_Wakeup\<close>) or a list of events over the
  state (\<open>Join_Handle\<close>, \<open>Udp_Buffers\<close>, \<open>Tracker\<close>). The interface of a reader and of a writer is a locale
  (\<open>file_reader\<close>, \<open>file_writer\<close> of \<open>File_Traits\<close>), interpreted on the Compio, blocking, polled and browser
  files, so that each lemma on \<open>read_exact\<close>, \<open>read_to_end\<close>, \<open>read_to_string\<close> and \<open>write_all\<close> is proved once.

  \<^bold>\<open>Code outside the repository.\<close> The futures crate, the runtimes, OPFS, the standard library's threads,
  files and sockets are records of operations (\<open>task_ops\<close>, \<open>futures_ops\<close>, \<open>waker_ops\<close>, \<open>tokio_ops\<close>,
  \<open>native_fs\<close> and others). What the code relies on is a named predicate over such a record (\<open>futures_laws\<close>,
  \<open>waker_laws\<close>, \<open>optional_laws\<close>, \<open>stream_laws\<close>, \<open>compio_laws\<close>, \<open>opfs_laws\<close> and others): documented
  behaviour of the other side, as that a registered waker is the one that is woken, that a sent value is
  received, that a read answers the next bytes of the file. Each is shown to hold of a concrete instance
  where a witness uses it. A job of the blocking pool runs to its end or is lost before it ran.

  \<^bold>\<open>What is shown.\<close>
  \<^item> Lite runtime: a sweep polls every task once, \<open>block_on\<close> loses no task, excludes a second driver, comes
    back with its future, misses no wake-up, and a task spawned on it is driven by \<open>block_on\<close> of its handle.
  \<^item> Handles: one answer per handle, the answer that the task, the panic, the abort or the drop
    gives; blocking closures are called at most once; a cancelled Compio handle wakes its owner; the last
    abortable reference aborts.
  \<^item> Context: tasks inherit the executor they were spawned under, files and sockets included, and every
    call restores the context of its thread.
  \<^item> Scopes: nothing spawned in a scope outlives it; an executor scope that is dropped aborts its tasks.
  \<^item> Coroutines keep the order of their messages; delays are not early, timeouts neither; a tracker counts
    its jobs and changes no answer.
  \<^item> Files: reads form the byte stream of the file whatever is pending, abandoned or failing; awaited
    methods come back; write then read is the identity; browser writes happen entirely or not at all; every
    native file system behaves as the standard library's.
  \<^item> Network: buffers in flight have one owner; a connected socket is connected to what was asked; the
    interfaces of Tokio and futures agree.
  \<^item> Selection and macros: one default executor per configuration; the accepted macro arguments.
  Three properties show where the code does not do what it says: a browser rename onto the parent loses
  data, \<open>stream_position\<close> drops bytes read ahead, and a task dropped after an abort answers \<open>Cancelled\<close>.

  \<^bold>\<open>Termination.\<close> No fuel is used. Loops over data are structural or have a measure (the sweep: tasks left
  to poll). Loops that wait for the outside are \<open>partial_function (option)\<close>, \<open>None\<close> being a call that never
  comes back, and that they come back is proved: \<open>block_on_loop\<close> by the polls its future still needs,
  \<open>drive_loop\<close> and \<open>user_loop\<close> of a scope, the loops of the file traits by the bytes left and the
  interruptions still to come, the poll loops of \<open>File_Poll\<close> by what is in flight, \<open>await_poll\<close> by how often
  a body is still pending. \<open>thread::park\<close> is taken to return, after whatever other threads did. No such claim
  is made of \<open>copy_directory\<close> of the browser file system, which may change the directory it iterates over.

  \<^bold>\<open>Not modelled.\<close> \<open>Debug\<close> output; conversions and accessors that wrap or hand out a field (\<open>from_tokio\<close>,
  \<open>executor\<close>); marker impls, lifetimes and the \<open>Send\<close> and \<open>Sync\<close> bounds, which the compiler checks; when a
  Tokio runtime is shut down by the last \<open>Arc\<close> that owns it; \<open>read\<close>, \<open>read_exact\<close>, \<open>write\<close>, \<open>write_all\<close>, \<open>flush\<close>
  and \<open>shutdown\<close> of streams, which are the extension traits of the futures crate on the modelled polls;
  spans and token streams of \<open>syn\<close> and \<open>quote\<close>; memory orderings of atomics, every atomic action being one
  step; tests and examples.
\<close>

end
